(* ===== verification/Prelude.thy ===== *)
theory Prelude
  imports Main
begin

text \<open>
  The shared vocabulary of the development: Go's error values, the result of a
  fallible call, sequences of early-return checks, 64-bit integers, durations
  and the environment of named defaults. Every component theory imports it.

  \<^item> A Go \<open>error\<close> is \<open>err\<close>: \<open>None\<close> is \<open>nil\<close>, \<open>Some e\<close> is an error value. An
    error value keeps the format string and the arguments of the
    \<open>fmt.Errorf\<close> call that made it (\<open>Errorf\<close>), and \<open>Wrapf\<close> keeps the error
    wrapped by a \<open>%w\<close> verb.
  \<^item> A Go result \<open>(T, error)\<close> is \<open>'a res\<close>, the sum \<open>go_error + 'a\<close>.
  \<^item> A run of \<open>if bad { return err }\<close> statements is \<open>first_error\<close> over the list
    of its checks, in source order.
  \<^item> \<open>time.Duration\<close> and \<open>time.Time\<close> are \<open>int\<close>, in nanoseconds; \<open>wrap64\<close> is the
    wrap-around of Go's signed 64-bit arithmetic, written out where it matters.
\<close>

section \<open>Collections of facts\<close>

named_theorems check_simps \<open>unfolding of validation checks into propositions\<close>
named_theorems go_defs \<open>definitions of the small Go helpers\<close>

section \<open>Errors and results\<close>

datatype fmt_arg = ArgS string | ArgD int

datatype go_error =
    Errorf string "fmt_arg list"
  | Wrapf string "fmt_arg list" go_error

type_synonym err = "go_error option"
type_synonym 'a res = "go_error + 'a"

text \<open>\<open>errors.New(s)\<close>.\<close>

abbreviation New :: "string \<Rightarrow> go_error" where
  "New s \<equiv> Errorf s []"

text \<open>\<open>fmt.Errorf(f, args, err)\<close> with a final \<open>%w\<close>, applied where \<open>err != nil\<close>.\<close>

definition wrap_err :: "string \<Rightarrow> fmt_arg list \<Rightarrow> err \<Rightarrow> err" where
  "wrap_err f as e = map_option (Wrapf f as) e"

definition fail_if :: "bool \<Rightarrow> go_error \<Rightarrow> err" where
  "fail_if b e = (if b then Some e else None)"

text \<open>A check that only runs when a condition holds: \<open>if b { if err := c; err != nil { return err } }\<close>.\<close>

definition when_check :: "bool \<Rightarrow> err \<Rightarrow> err" where
  "when_check b e = (if b then e else None)"

fun first_error :: "err list \<Rightarrow> err" where
  "first_error [] = None"
| "first_error (None # cs) = first_error cs"
| "first_error (Some e # cs) = Some e"

text \<open>A loop \<open>for i, x := range xs\<close> whose body returns at the first error.\<close>

definition range_check :: "(nat \<Rightarrow> 'a \<Rightarrow> err) \<Rightarrow> 'a list \<Rightarrow> err" where
  "range_check f xs = first_error (map (\<lambda>(i, x). f i x) (enumerate 0 xs))"

text \<open>A loop over values whose index the body does not use.\<close>

definition each_check :: "('a \<Rightarrow> err) \<Rightarrow> 'a list \<Rightarrow> err" where
  "each_check f xs = first_error (map f xs)"

lemma first_error_None_iff: "first_error cs = None \<longleftrightarrow> (\<forall>c \<in> set cs. c = None)"
  by (induction cs rule: first_error.induct) auto

lemma first_error_Cons_None [check_simps]:
  "first_error (c # cs) = None \<longleftrightarrow> c = None \<and> first_error cs = None"
  by (cases c) auto

lemma first_error_Nil_None [check_simps]: "first_error [] = None \<longleftrightarrow> True"
  by simp

lemma first_error_append_None [check_simps]:
  "first_error (cs @ ds) = None \<longleftrightarrow> first_error cs = None \<and> first_error ds = None"
  by (auto simp: first_error_None_iff)

lemma fail_if_None [check_simps]: "fail_if b e = None \<longleftrightarrow> \<not> b"
  by (simp add: fail_if_def)

lemma fail_if_Some: "fail_if b e = Some e' \<longleftrightarrow> b \<and> e' = e"
  by (auto simp: fail_if_def)

lemma when_check_None [check_simps]: "when_check b e = None \<longleftrightarrow> (b \<longrightarrow> e = None)"
  by (simp add: when_check_def)

lemma wrap_err_None [check_simps]: "wrap_err f as e = None \<longleftrightarrow> e = None"
  by (simp add: wrap_err_def)

lemma each_check_None [check_simps]: "each_check f xs = None \<longleftrightarrow> (\<forall>x \<in> set xs. f x = None)"
  by (simp add: each_check_def first_error_None_iff)

lemma range_check_None [check_simps]:
  "range_check f xs = None \<longleftrightarrow> (\<forall>i < length xs. f i (xs ! i) = None)"
proof -
  have "set (enumerate 0 xs) = (\<lambda>i. (i, xs ! i)) ` {..<length xs}"
    by (auto simp: in_set_enumerate_eq image_iff)
  then show ?thesis
    by (auto simp: range_check_def first_error_None_iff)
qed

text \<open>Which error comes out: the first check that fails, all earlier ones having passed.\<close>

lemma first_error_Some_iff:
  "first_error cs = Some e \<longleftrightarrow>
     (\<exists>i < length cs. cs ! i = Some e \<and> (\<forall>j < i. cs ! j = None))"
proof (induction cs rule: first_error.induct)
  case (2 cs)
  show ?case
  proof
    assume "first_error (None # cs) = Some e"
    then obtain i where "i < length cs" "cs ! i = Some e" "\<forall>j < i. cs ! j = None"
      using 2 by auto
    then show "\<exists>i < length (None # cs). (None # cs) ! i = Some e \<and> (\<forall>j < i. (None # cs) ! j = None)"
      by (intro exI [of _ "Suc i"]) (auto simp: less_Suc_eq_0_disj)
  next
    assume "\<exists>i < length (None # cs). (None # cs) ! i = Some e \<and> (\<forall>j < i. (None # cs) ! j = None)"
    then obtain i where i: "i < Suc (length cs)" "(None # cs) ! i = Some e"
      "\<forall>j < i. (None # cs) ! j = None"
      by auto
    from i(2) obtain k where k: "i = Suc k" by (cases i) auto
    have "\<forall>j < k. cs ! j = None"
      using i(3) k by (metis Suc_less_eq nth_Cons_Suc)
    with i k show "first_error (None # cs) = Some e"
      using 2 by auto
  qed
next
  case (3 e' cs)
  show ?case
  proof
    assume "first_error (Some e' # cs) = Some e"
    then show "\<exists>i < length (Some e' # cs). (Some e' # cs) ! i = Some e \<and> (\<forall>j < i. (Some e' # cs) ! j = None)"
      by (intro exI [of _ 0]) simp
  next
    assume "\<exists>i < length (Some e' # cs). (Some e' # cs) ! i = Some e \<and> (\<forall>j < i. (Some e' # cs) ! j = None)"
    then obtain i where "(Some e' # cs) ! i = Some e" "\<forall>j < i. (Some e' # cs) ! j = None"
      by blast
    then show "first_error (Some e' # cs) = Some e"
      by (cases i) auto
  qed
qed simp

text \<open>
  The verdict (not the message) of a loop over a Go map does not depend on the
  iteration order, which Go leaves open.
\<close>

lemma each_check_perm:
  assumes "set xs = set ys"
  shows "each_check f xs = None \<longleftrightarrow> each_check f ys = None"
  using assms by (simp add: each_check_None)

section \<open>Results\<close>

fun res_bind :: "'a res \<Rightarrow> ('a \<Rightarrow> 'b res) \<Rightarrow> 'b res" where
  "res_bind (Inl e) f = Inl e"
| "res_bind (Inr x) f = f x"

definition wrap_res :: "string \<Rightarrow> fmt_arg list \<Rightarrow> 'a res \<Rightarrow> 'a res" where
  "wrap_res f as r = map_sum (Wrapf f as) id r"

lemma wrap_res_Inr [simp]: "wrap_res f as r = Inr x \<longleftrightarrow> r = Inr x"
  by (cases r) (auto simp: wrap_res_def)

lemma res_bind_Inr: "res_bind r f = Inr y \<longleftrightarrow> (\<exists>x. r = Inr x \<and> f x = Inr y)"
  by (cases r) auto

section \<open>Signed 64-bit arithmetic\<close>

definition wrap64 :: "int \<Rightarrow> int" where
  "wrap64 x = (x + 2 ^ 63) mod 2 ^ 64 - 2 ^ 63"

abbreviation max_int64 :: int where
  "max_int64 \<equiv> 9223372036854775807"

abbreviation min_int64 :: int where
  "min_int64 \<equiv> - 9223372036854775808"

definition in_int64 :: "int \<Rightarrow> bool" where
  "in_int64 x \<longleftrightarrow> min_int64 \<le> x \<and> x \<le> max_int64"

lemma wrap64_id [simp]: "in_int64 x \<Longrightarrow> wrap64 x = x"
  by (simp add: wrap64_def in_int64_def)

lemma wrap64_range: "in_int64 (wrap64 x)"
proof -
  have "0 \<le> (x + 2 ^ 63) mod 2 ^ 64" "(x + 2 ^ 63) mod 2 ^ 64 < (2 ^ 64 :: int)"
    by (rule pos_mod_sign, simp, rule pos_mod_bound, simp)
  then show ?thesis by (simp add: wrap64_def in_int64_def)
qed

section \<open>Durations and defaults\<close>

abbreviation go_millisecond :: int where "go_millisecond \<equiv> 1000000"
abbreviation go_second :: int where "go_second \<equiv> 1000000000"
abbreviation go_minute :: int where "go_minute \<equiv> 60000000000"
abbreviation go_hour :: int where "go_hour \<equiv> 3600000000000"

text \<open>\<open>if s == "" { s = d }\<close> and \<open>if x == 0 { x = d }\<close>.\<close>

definition default_str :: "string \<Rightarrow> string \<Rightarrow> string" where
  "default_str d s = (if s = [] then d else s)"

definition default_int :: "int \<Rightarrow> int \<Rightarrow> int" where
  "default_int d x = (if x = 0 then d else x)"

lemma default_str_idem [simp]: "default_str d (default_str d s) = default_str d s"
  by (simp add: default_str_def)

lemma default_int_idem [simp]: "default_int d (default_int d x) = default_int d x"
  by (simp add: default_int_def)

lemma default_str_nonempty: "d \<noteq> [] \<Longrightarrow> default_str d s \<noteq> []"
  by (simp add: default_str_def)

lemma default_int_nonzero: "d \<noteq> 0 \<Longrightarrow> default_int d x \<noteq> 0"
  by (simp add: default_int_def)

lemma default_str_set [simp]: "s \<noteq> [] \<Longrightarrow> default_str d s = s"
  by (simp add: default_str_def)

lemma default_int_set [simp]: "x \<noteq> 0 \<Longrightarrow> default_int d x = x"
  by (simp add: default_int_def)

section \<open>Maps as association lists\<close>

text \<open>The assignment \<open>m[k] = v\<close>; deleting a key filters it out.\<close>

definition put :: "'k \<Rightarrow> 'v \<Rightarrow> ('k \<times> 'v) list \<Rightarrow> ('k \<times> 'v) list" where
  "put k v m = (k, v) # filter (\<lambda>(k', _). k' \<noteq> k) m"

lemma map_of_remove: "map_of (filter (\<lambda>(k', _). k' \<noteq> k) m) j = (if j = k then None else map_of m j)"
  by (induction m) auto

lemma map_of_put [simp]: "map_of (put k v m) j = (if j = k then Some v else map_of m j)"
  by (simp add: put_def map_of_remove)

lemma distinct_put [simp]: "distinct (map fst m) \<Longrightarrow> distinct (map fst (put k v m))"
  by (auto simp: put_def distinct_map_filter)

lemma set_put: "(j, w) \<in> set (put k v m) \<Longrightarrow> (j = k \<and> w = v) \<or> (j, w) \<in> set m"
  by (auto simp: put_def)

section \<open>Invariants of step relations\<close>

text \<open>
  What every system of interleaved operations in this development shares: a step
  relation and a state predicate each step keeps, hence every run keeps.
\<close>

locale kept_invariant =
  fixes step :: "'s \<Rightarrow> 's \<Rightarrow> bool"
    and inv :: "'s \<Rightarrow> bool"
  assumes keeps: "step s s' \<Longrightarrow> inv s \<Longrightarrow> inv s'"
begin

lemma run_keeps: "step\<^sup>*\<^sup>* s s' \<Longrightarrow> inv s \<Longrightarrow> inv s'"
  by (induction rule: rtranclp_induct) (auto intro: keeps)

text \<open>A relation between states that every step from an invariant state extends is extended by runs.\<close>

lemma run_extends:
  assumes "step\<^sup>*\<^sup>* s s'" "inv s" "\<And>x. R x x" "\<And>x y z. R x y \<Longrightarrow> R y z \<Longrightarrow> R x z"
    and "\<And>x y. step x y \<Longrightarrow> inv x \<Longrightarrow> R x y"
  shows "R s s'"
  using assms(1)
proof (induction rule: rtranclp_induct)
  case base
  show ?case by (rule assms(3))
next
  case (step y z)
  have "R y z" by (rule assms(5) [OF step.hyps(2) run_keeps [OF step.hyps(1) assms(2)]])
  with step.IH show ?case by (rule assms(4))
qed

end

end
