(* ===== verification/EnvExpand.thy ===== *)
theory EnvExpand
  imports GoStrings
begin

text \<open>
  Environment expansion of configuration values: Go's \<open>os.Expand\<close> with its
  \<open>getShellName\<close>, and from \<open>configutil\<close> the functions \<open>SafeExpandEnv\<close>,
  \<open>ExpandEnvInStruct\<close> (over reflected values), \<open>expandEnvInYAMLNode\<close> (over a
  store of YAML nodes, because an alias shares its anchor's node) and
  \<open>UnmarshalYAMLWithEnv\<close>.
\<close>

section \<open>The process environment and \<open>os.Expand\<close>\<close>

type_synonym envmap = "string \<rightharpoonup> string"

text \<open>\<open>os.LookupEnv\<close> and \<open>os.Getenv\<close>: the empty name is never set.\<close>

definition LookupEnv :: "envmap \<Rightarrow> string \<Rightarrow> string option" where
  "LookupEnv env k = (if k = [] then None else env k)"

definition Getenv :: "envmap \<Rightarrow> string \<Rightarrow> string" where
  "Getenv env k = (case LookupEnv env k of None \<Rightarrow> [] | Some v \<Rightarrow> v)"

definition isShellSpecialVar :: "char \<Rightarrow> bool" where
  "isShellSpecialVar c \<longleftrightarrow> c \<in> set ''*#$@!?-'' \<or> is_digit c"

definition isAlphaNum :: "char \<Rightarrow> bool" where
  "isAlphaNum c \<longleftrightarrow> c = CHR ''_'' \<or> is_digit c
     \<or> (97 \<le> byte c \<and> byte c \<le> 122) \<or> (65 \<le> byte c \<and> byte c \<le> 90)"

text \<open>\<open>getShellName\<close>: the name that follows a dollar and how many bytes it takes.\<close>

fun getShellName :: "string \<Rightarrow> string \<times> nat" where
  "getShellName [] = ([], 0)"
| "getShellName (c # s) =
     (if c = CHR ''{'' then
        (if length s > 1 \<and> isShellSpecialVar (s ! 0) \<and> s ! 1 = CHR ''}'' then ([s ! 0], 3)
         else if CHR ''}'' \<in> set s then
           (let name = takeWhile (\<lambda>x. x \<noteq> CHR ''}'') s
            in if name = [] then ([], 2) else (name, length name + 2))
         else ([], 1))
      else if isShellSpecialVar c then ([c], 1)
      else (let name = takeWhile isAlphaNum (c # s) in (name, length name)))"

text \<open>\<open>os.Expand\<close>: a dollar at the very end stays; a malformed \<open>${\<close> is dropped.\<close>

function expand_refs :: "(string \<Rightarrow> string) \<Rightarrow> string \<Rightarrow> string" where
  "expand_refs mapping [] = []"
| "expand_refs mapping [c] = [c]"
| "expand_refs mapping (c # d # s) =
     (if c = CHR ''$'' then
        (case getShellName (d # s) of (name, w) \<Rightarrow>
           (if name = [] \<and> w > 0 then []
            else if name = [] then [c]
            else mapping name) @ expand_refs mapping (drop w (d # s)))
      else c # expand_refs mapping (d # s))"
  by pat_completeness auto
termination
  by (relation "measure (\<lambda>(m, s). length s)") auto

section \<open>\<open>SafeExpandEnv\<close>\<close>

text \<open>The function that \<open>SafeExpandEnv\<close> passes to \<open>os.Expand\<close>.\<close>

definition expandKey :: "envmap \<Rightarrow> string \<Rightarrow> string" where
  "expandKey env key =
     (if key = [] then []
      else if is_digit (hd key) then ''$'' @ key
      else case index_of key '':-'' of
        Some idx \<Rightarrow>
          (let name = take idx key; fallback = drop (idx + 2) key; val = Getenv env name
           in if val \<noteq> [] then val else fallback)
      | None \<Rightarrow>
          (case index_of key ''-'' of
             Some idx \<Rightarrow>
               (let name = take idx key; fallback = drop (idx + 1) key
                in if LookupEnv env name \<noteq> None then Getenv env name else fallback)
           | None \<Rightarrow> Getenv env key))"

definition SafeExpandEnv :: "envmap \<Rightarrow> string \<Rightarrow> string" where
  "SafeExpandEnv env s = expand_refs (expandKey env) s"

section \<open>Reflected configuration values\<close>

text \<open>
  A configuration value as \<open>reflect\<close> shows it. \<open>GStruct\<close> lists the fields, each
  with whether it is exported; \<open>GExpandable\<close> is a struct whose pointer
  implements \<open>EnvExpandable\<close> (its plaintext is kept), \<open>GText\<close> one whose pointer
  implements both text interfaces. \<open>GOther\<close> stands for every kind the walk
  skips. Distinct pointers point to distinct values, as in a decoded
  configuration. The flag \<open>addr\<close> is \<open>v.CanAddr()\<close>; an exported field of an
  addressable struct is settable.
\<close>

datatype 't gval =
    GPtr "'t gval option"
  | GStruct "(bool \<times> 't gval) list"
  | GExpandable string
  | GText 't
  | GString string
  | GMap "(string \<times> 't gval) list option"
  | GSlice "'t gval list"
  | GOther

fun ExpandEnvInStruct ::
  "('t \<Rightarrow> string res) \<Rightarrow> (string \<Rightarrow> 't \<Rightarrow> 't) \<Rightarrow> envmap \<Rightarrow> bool \<Rightarrow> 't gval \<Rightarrow> 't gval" where
  "ExpandEnvInStruct mt ut env addr (GPtr p) =
     GPtr (map_option (ExpandEnvInStruct mt ut env True) p)"
| "ExpandEnvInStruct mt ut env addr (GExpandable raw) =
     (if addr then
        (let expanded = SafeExpandEnv env raw
         in if expanded \<noteq> raw then GExpandable expanded else GExpandable raw)
      else GExpandable raw)"
| "ExpandEnvInStruct mt ut env addr (GText t) =
     (if addr then
        (case mt t of
           Inl e \<Rightarrow> GText t
         | Inr text \<Rightarrow>
             (if text = [] then GText t
              else let expanded = SafeExpandEnv env text
                   in if expanded \<noteq> text then GText (ut expanded t) else GText t))
      else GText t)"
| "ExpandEnvInStruct mt ut env addr (GStruct fs) =
     GStruct (map (\<lambda>(exported, f).
       (exported, if addr \<and> exported then ExpandEnvInStruct mt ut env addr f else f)) fs)"
| "ExpandEnvInStruct mt ut env addr (GString s) =
     (if addr then
        (let expanded = SafeExpandEnv env s
         in if expanded \<noteq> s then GString expanded else GString s)
      else GString s)"
| "ExpandEnvInStruct mt ut env addr (GMap m) =
     GMap (map_option (map (\<lambda>(k, v). (k, ExpandEnvInStruct mt ut env True v))) m)"
| "ExpandEnvInStruct mt ut env addr (GSlice vs) =
     GSlice (map (ExpandEnvInStruct mt ut env True) vs)"
| "ExpandEnvInStruct mt ut env addr GOther = GOther"

section \<open>YAML nodes\<close>

datatype ykind = DocumentNode | SequenceNode | MappingNode | ScalarNode | AliasNode

record ynode =
  Kind :: ykind
  Tag :: string
  Value :: string
  Content :: "nat list"
  Alias :: "nat option"

text \<open>The nodes of a document by address: the anchor of an alias is shared, not copied.\<close>

type_synonym ystore = "nat \<rightharpoonup> ynode"

definition scalarYAMLTag :: "string \<Rightarrow> string" where
  "scalarYAMLTag v =
     (if v = ''true'' \<or> v = ''false'' then ''!!bool''
      else if v = ''null'' \<or> v = ''~'' then ''!!null''
      else ''!!str'')"

definition expandScalar :: "envmap \<Rightarrow> ynode \<Rightarrow> ynode" where
  "expandScalar env nd =
     (if Value nd = [] then nd
      else let expanded = SafeExpandEnv env (Value nd)
           in if expanded \<noteq> Value nd
              then nd\<lparr>Value := expanded, Tag := scalarYAMLTag expanded\<rparr> else nd)"

text \<open>The elements at the odd positions: the values of a mapping node.\<close>

fun odd_elems :: "'a list \<Rightarrow> 'a list" where
  "odd_elems (k # v # xs) = v # odd_elems xs"
| "odd_elems xs = []"

text \<open>The children the walk descends into.\<close>

definition walked :: "ynode \<Rightarrow> nat list" where
  "walked nd =
     (case Kind nd of
        DocumentNode \<Rightarrow> Content nd
      | SequenceNode \<Rightarrow> Content nd
      | MappingNode \<Rightarrow> odd_elems (Content nd)
      | ScalarNode \<Rightarrow> []
      | AliasNode \<Rightarrow> (case Alias nd of None \<Rightarrow> [] | Some a \<Rightarrow> [a]))"

fun fold_opt :: "('a \<Rightarrow> 's \<Rightarrow> 's option) \<Rightarrow> 'a list \<Rightarrow> 's \<Rightarrow> 's option" where
  "fold_opt f [] s = Some s"
| "fold_opt f (x # xs) s = (case f x s of None \<Rightarrow> None | Some s' \<Rightarrow> fold_opt f xs s')"

text \<open>
  The walk recurses as deep as the node graph, without a visited set, so it is
  given fuel: \<open>None\<close> is a recursion deeper than \<open>n\<close>. An address outside the
  store is a nil node.
\<close>

fun expandEnvInYAMLNode :: "nat \<Rightarrow> envmap \<Rightarrow> nat \<Rightarrow> ystore \<Rightarrow> ystore option" where
  "expandEnvInYAMLNode 0 env a st = None"
| "expandEnvInYAMLNode (Suc n) env a st =
     (case st a of
        None \<Rightarrow> Some st
      | Some nd \<Rightarrow>
          (if Kind nd = ScalarNode then Some (st(a \<mapsto> expandScalar env nd))
           else fold_opt (expandEnvInYAMLNode n env) (walked nd) st))"

text \<open>
  \<open>UnmarshalYAMLWithEnv\<close>: the YAML library's parser and typed decoder are
  parameters; the outer \<open>None\<close> is a walk that runs out of fuel.
\<close>

definition UnmarshalYAMLWithEnv ::
  "(string \<Rightarrow> (nat \<times> ystore) res) \<Rightarrow> (nat \<Rightarrow> ystore \<Rightarrow> 'c res) \<Rightarrow> nat \<Rightarrow> envmap \<Rightarrow> string \<Rightarrow> 'c res option" where
  "UnmarshalYAMLWithEnv unmarshal decode fuel env data =
     (case unmarshal data of
        Inl e \<Rightarrow> Some (Inl e)
      | Inr (root, st) \<Rightarrow>
          (case expandEnvInYAMLNode fuel env root st of
             None \<Rightarrow> None
           | Some st' \<Rightarrow> Some (wrap_res ''decoding config: %w'' [] (decode root st'))))"

section \<open>What expansion computes\<close>

lemma expand_refs_plain: "c \<noteq> CHR ''$'' \<Longrightarrow> expand_refs m (c # s) = c # expand_refs m s"
  by (cases s) auto

lemma expand_refs_literal:
  "CHR ''$'' \<notin> set p \<Longrightarrow> expand_refs m (p @ s) = p @ expand_refs m s"
  by (induction p) (auto simp: expand_refs_plain)

lemma takeWhile_stop: "\<forall>x \<in> set p. P x \<Longrightarrow> \<not> P c \<Longrightarrow> takeWhile P (p @ c # s) = p"
  by (induction p) auto

lemma getShellName_braced:
  assumes "key \<noteq> []" "CHR ''}'' \<notin> set key"
  shows "getShellName (CHR ''{'' # key @ CHR ''}'' # s) = (key, length key + 2)"
proof -
  obtain k ks where key: "key = k # ks" using assms(1) by (cases key) auto
  have tw: "takeWhile (\<lambda>x. x \<noteq> CHR ''}'') (key @ CHR ''}'' # s) = key"
    using assms(2) by (intro takeWhile_stop) auto
  show ?thesis
  proof (cases "ks = []")
    case True
    with key tw show ?thesis by (auto simp: Let_def)
  next
    case False
    then have "(key @ CHR ''}'' # s) ! 1 \<noteq> CHR ''}''"
      using assms(2) key by (cases ks) auto
    with tw assms(1) show ?thesis by (auto simp: Let_def simp del: One_nat_def)
  qed
qed

lemma expand_refs_braced:
  assumes "key \<noteq> []" "CHR ''}'' \<notin> set key"
  shows "expand_refs m (''${'' @ key @ ''}'' @ s) = m key @ expand_refs m s"
  using getShellName_braced [OF assms, of s] assms(1) by simp

lemma expand_refs_digit:
  assumes "is_digit d"
  shows "expand_refs m (CHR ''$'' # d # s) = m [d] @ expand_refs m s"
proof -
  have "d \<noteq> CHR ''{''" using assms by (auto simp: is_digit_def byte_def)
  then show ?thesis using assms by (simp add: isShellSpecialVar_def)
qed

lemma index_of_fresh:
  assumes "c \<notin> set p"
  shows "index_of (p @ c # s) (c # t) =
    (if has_prefix s t then Some (length p) else map_option (\<lambda>i. length p + Suc i) (index_of s (c # t)))"
  using assms
proof (induction p)
  case Nil
  then show ?case by (simp add: has_prefix_def)
next
  case (Cons x p)
  then have "\<not> has_prefix ((x # p) @ c # s) (c # t)" by (auto simp: has_prefix_def)
  with Cons show ?case by (auto simp: option.map_comp comp_def)
qed

lemma index_of_absent: "c \<notin> set s \<Longrightarrow> index_of s (c # t) = None"
  by (induction s) (auto simp: has_prefix_def)

text \<open>
  A template: literal text without dollars, a variable in braces, a variable
  with either form of default, and a one-digit back-reference.
\<close>

datatype piece =
    Lit string
  | Var string
  | VarOr string string
  | VarUnset string string
  | BackRef char

fun render_piece :: "piece \<Rightarrow> string" where
  "render_piece (Lit t) = t"
| "render_piece (Var n) = ''${'' @ n @ ''}''"
| "render_piece (VarOr n d) = ''${'' @ (n @ '':-'' @ d) @ ''}''"
| "render_piece (VarUnset n d) = ''${'' @ (n @ ''-'' @ d) @ ''}''"
| "render_piece (BackRef c) = [CHR ''$'', c]"

definition env_name :: "string \<Rightarrow> bool" where
  "env_name n \<longleftrightarrow> n \<noteq> [] \<and> \<not> is_digit (hd n) \<and> list_all isAlphaNum n"

fun good_piece :: "piece \<Rightarrow> bool" where
  "good_piece (Lit t) \<longleftrightarrow> CHR ''$'' \<notin> set t"
| "good_piece (Var n) \<longleftrightarrow> env_name n"
| "good_piece (VarOr n d) \<longleftrightarrow> env_name n \<and> CHR ''}'' \<notin> set d"
| "good_piece (VarUnset n d) \<longleftrightarrow> env_name n \<and> CHR ''}'' \<notin> set d \<and> \<not> contains d '':-''"
| "good_piece (BackRef c) \<longleftrightarrow> is_digit c"

fun piece_value :: "envmap \<Rightarrow> piece \<Rightarrow> string" where
  "piece_value env (Lit t) = t"
| "piece_value env (Var n) = (case env n of None \<Rightarrow> [] | Some v \<Rightarrow> v)"
| "piece_value env (VarOr n d) = (case env n of None \<Rightarrow> d | Some v \<Rightarrow> if v = [] then d else v)"
| "piece_value env (VarUnset n d) = (case env n of None \<Rightarrow> d | Some v \<Rightarrow> v)"
| "piece_value env (BackRef c) = [CHR ''$'', c]"

lemma env_name_chars:
  assumes "env_name n"
  shows "n \<noteq> []" "CHR ''}'' \<notin> set n" "CHR ''-'' \<notin> set n" "CHR '':'' \<notin> set n" "\<not> is_digit (hd n)"
  using assms by (auto simp: env_name_def list_all_iff isAlphaNum_def is_digit_def byte_def dest!: bspec)

lemma expandKey_Var: "env_name n \<Longrightarrow> expandKey env n = piece_value env (Var n)"
  using index_of_absent [of "CHR '':''" n "''-''"] index_of_absent [of "CHR ''-''" n "[]"]
  by (simp add: expandKey_def env_name_chars Getenv_def LookupEnv_def)

lemma expandKey_VarOr: "env_name n \<Longrightarrow> expandKey env (n @ '':-'' @ d) = piece_value env (VarOr n d)"
  using index_of_fresh [of "CHR '':''" n "''-'' @ d" "''-''"]
  by (simp add: expandKey_def env_name_chars Getenv_def LookupEnv_def has_prefix_def Let_def
      split: option.splits)

lemma index_of_skip:
  "c \<notin> set p \<Longrightarrow> index_of (p @ s) (c # t) = map_option ((+) (length p)) (index_of s (c # t))"
  by (cases "index_of s (c # t)"; induction p) (auto simp: has_prefix_def)

lemma expandKey_VarUnset:
  assumes "env_name n" "\<not> contains d '':-''"
  shows "expandKey env (n @ ''-'' @ d) = piece_value env (VarUnset n d)"
proof -
  have "index_of (''-'' @ d) '':-'' = None"
    using assms(2) by (simp add: contains_def has_prefix_def)
  then have a: "index_of (n @ ''-'' @ d) '':-'' = None"
    using index_of_skip [of "CHR '':''" n "''-'' @ d" "''-''"] env_name_chars [OF assms(1)] by simp
  have b: "index_of (n @ ''-'' @ d) ''-'' = Some (length n)"
    using index_of_fresh [of "CHR ''-''" n d "[]"] env_name_chars [OF assms(1)]
    by (simp add: has_prefix_def)
  from a b env_name_chars [OF assms(1)] show ?thesis
    by (simp add: expandKey_def Getenv_def LookupEnv_def Let_def split: option.splits)
qed

lemma expandKey_digit: "is_digit c \<Longrightarrow> expandKey env [c] = [CHR ''$'', c]"
  by (simp add: expandKey_def)

lemma SafeExpandEnv_piece:
  assumes "good_piece p"
  shows "SafeExpandEnv env (render_piece p @ s) = piece_value env p @ SafeExpandEnv env s"
proof (cases p)
  case (Lit t)
  with assms show ?thesis by (simp add: SafeExpandEnv_def expand_refs_literal)
next
  case (Var n)
  with assms expand_refs_braced [of n "expandKey env" s] show ?thesis
    by (simp add: SafeExpandEnv_def env_name_chars expandKey_Var)
next
  case (VarOr n d)
  with assms expand_refs_braced [of "n @ '':-'' @ d" "expandKey env" s] expandKey_VarOr [of n env d]
  show ?thesis by (simp add: SafeExpandEnv_def env_name_chars)
next
  case (VarUnset n d)
  with assms expand_refs_braced [of "n @ ''-'' @ d" "expandKey env" s] expandKey_VarUnset [of n d env]
  show ?thesis by (simp add: SafeExpandEnv_def env_name_chars)
next
  case (BackRef c)
  with assms expand_refs_digit [of c "expandKey env" s] show ?thesis
    by (simp add: SafeExpandEnv_def expandKey_digit)
qed

lemma SafeExpandEnv_Nil [simp]: "SafeExpandEnv env [] = []"
  by (simp add: SafeExpandEnv_def)

text \<open>
  C21: Expanding a template replaces each reference by what the environment and
  the default give, keeps back-references and literal text, and never expands
  the text of a substituted value again.
\<close>

theorem SafeExpandEnv_template:
  assumes "\<forall>p \<in> set ps. good_piece p"
  shows "SafeExpandEnv env (concat (map render_piece ps)) = concat (map (piece_value env) ps)"
  using assms by (induction ps) (auto simp: SafeExpandEnv_piece)

theorem SafeExpandEnv_template_witness:
  "SafeExpandEnv [''HOST'' \<mapsto> ''$X'', ''EMPTY'' \<mapsto> []]
     (concat (map render_piece [Lit ''http://'', Var ''HOST'', VarOr ''EMPTY'' ''/a-b'', VarUnset ''EMPTY'' ''c'', BackRef (CHR ''1'')]))
   = ''http://$X/a-b$1''"
  using SafeExpandEnv_template [of "[Lit ''http://'', Var ''HOST'', VarOr ''EMPTY'' ''/a-b'', VarUnset ''EMPTY'' ''c'', BackRef (CHR ''1'')]"
      "[''HOST'' \<mapsto> ''$X'', ''EMPTY'' \<mapsto> []]"]
  by (simp add: env_name_def isAlphaNum_def is_digit_def byte_def contains_def has_prefix_def)

text \<open>
  The doc promises that a braced numeric reference is preserved; the
  braces are dropped, so the reference can merge with the digits that follow.
\<close>

theorem SafeExpandEnv_braced_backref:
  "SafeExpandEnv env ''${1}0'' = ''$10''"
  by (simp add: SafeExpandEnv_def isShellSpecialVar_def is_digit_def byte_def expandKey_def)

section \<open>What a walk over a reflected value changes\<close>

text \<open>The plain and secret strings of a value that the walk may set, in field order.\<close>

fun settable_strings :: "bool \<Rightarrow> 't gval \<Rightarrow> string list" where
  "settable_strings addr (GPtr p) = (case p of None \<Rightarrow> [] | Some v \<Rightarrow> settable_strings True v)"
| "settable_strings addr (GExpandable raw) = (if addr then [raw] else [])"
| "settable_strings addr (GText t) = []"
| "settable_strings addr (GStruct fs) =
     concat (map (\<lambda>(exported, f). if addr \<and> exported then settable_strings addr f else []) fs)"
| "settable_strings addr (GString s) = (if addr then [s] else [])"
| "settable_strings addr (GMap m) =
     (case m of None \<Rightarrow> [] | Some kvs \<Rightarrow> concat (map (\<lambda>(k, v). settable_strings True v) kvs))"
| "settable_strings addr (GSlice vs) = concat (map (settable_strings True) vs)"
| "settable_strings addr GOther = []"

text \<open>The value with every settable string forgotten: what expansion must keep.\<close>

fun skeleton :: "bool \<Rightarrow> 't gval \<Rightarrow> unit gval" where
  "skeleton addr (GPtr p) = GPtr (map_option (skeleton True) p)"
| "skeleton addr (GExpandable raw) = GExpandable (if addr then [] else raw)"
| "skeleton addr (GText t) = GText ()"
| "skeleton addr (GStruct fs) =
     GStruct (map (\<lambda>(exported, f). (exported, skeleton (addr \<and> exported) f)) fs)"
| "skeleton addr (GString s) = GString (if addr then [] else s)"
| "skeleton addr (GMap m) = GMap (map_option (map (\<lambda>(k, v). (k, skeleton True v))) m)"
| "skeleton addr (GSlice vs) = GSlice (map (skeleton True) vs)"
| "skeleton addr GOther = GOther"

lemma concat_map_cong_map:
  "(\<And>x. x \<in> set xs \<Longrightarrow> f (h x) = map g (f x)) \<Longrightarrow> concat (map (f \<circ> h) xs) = map g (concat (map f xs))"
  by (induction xs) auto

lemma settable_strings_expand:
  "settable_strings addr (ExpandEnvInStruct mt ut env addr v) =
     map (SafeExpandEnv env) (settable_strings addr v)"
proof (induction mt ut env addr v rule: ExpandEnvInStruct.induct)
  case (4 mt ut env addr fs)
  then show ?case by (induction fs) auto
next
  case (6 mt ut env addr m)
  then show ?case
  proof (cases m)
    case (Some kvs)
    then have "concat (map ((\<lambda>(k, v). settable_strings True v) \<circ> (\<lambda>(k, v). (k, ExpandEnvInStruct mt ut env True v))) kvs)
        = map (SafeExpandEnv env) (concat (map (\<lambda>(k, v). settable_strings True v) kvs))"
      by (intro concat_map_cong_map) (auto simp: 6)
    with Some show ?thesis by simp
  qed simp
next
  case (7 mt ut env addr vs)
  then show ?case by (induction vs) auto
qed (auto simp: Let_def split: option.splits sum.splits)

lemma skeleton_expand:
  "skeleton addr (ExpandEnvInStruct mt ut env addr v) = skeleton addr v"
proof (induction mt ut env addr v rule: ExpandEnvInStruct.induct)
  case (1 mt ut env addr p)
  then show ?case by (cases p) auto
next
  case (6 mt ut env addr m)
  then show ?case by (cases m) auto
qed (auto simp: Let_def split: option.splits sum.splits)


section \<open>What the walk over YAML nodes changes\<close>

text \<open>The scalars the walk visits, in order and with repetitions.\<close>

fun visits :: "nat \<Rightarrow> ystore \<Rightarrow> nat \<Rightarrow> nat list" where
  "visits 0 st a = []"
| "visits (Suc n) st a =
     (case st a of
        None \<Rightarrow> []
      | Some nd \<Rightarrow> if Kind nd = ScalarNode then [a] else concat (map (visits n st) (walked nd)))"

definition visit_scalar :: "envmap \<Rightarrow> nat \<Rightarrow> ystore \<Rightarrow> ystore" where
  "visit_scalar env a st = st(a := map_option (expandScalar env) (st a))"

text \<open>No cycle among the nodes: a rank drops along every edge the walk follows.\<close>

definition ranked :: "(nat \<Rightarrow> nat) \<Rightarrow> ystore \<Rightarrow> bool" where
  "ranked r st \<longleftrightarrow> (\<forall>a nd. st a = Some nd \<longrightarrow> (\<forall>c \<in> set (walked nd). r c < r a))"

definition node_shape :: "ystore \<Rightarrow> nat \<Rightarrow> (ykind \<times> nat list) option" where
  "node_shape st a = map_option (\<lambda>nd. (Kind nd, walked nd)) (st a)"

lemma shape_expandScalar [simp]:
  "Kind (expandScalar env nd) = Kind nd" "Content (expandScalar env nd) = Content nd"
  "Alias (expandScalar env nd) = Alias nd"
  by (simp_all add: expandScalar_def Let_def)

lemma walked_expandScalar [simp]: "walked (expandScalar env nd) = walked nd"
  by (cases "Kind nd") (simp_all add: walked_def)

lemma node_shape_visit: "node_shape (visit_scalar env b st) = node_shape st"
  by (rule ext) (simp add: node_shape_def visit_scalar_def option.map_comp comp_def)

lemma node_shape_visits: "node_shape (fold (visit_scalar env) bs st) = node_shape st"
  by (induction bs arbitrary: st) (simp_all add: node_shape_visit)

lemma visits_shape: "node_shape st = node_shape st' \<Longrightarrow> visits n st a = visits n st' a"
proof (induction n arbitrary: a)
  case (Suc n)
  then have "node_shape st a = node_shape st' a" "visits n st = visits n st'" by auto
  then show ?case
    by (cases "st a"; cases "st' a") (auto simp: node_shape_def)
qed simp

lemma ranked_shape: "node_shape st = node_shape st' \<Longrightarrow> ranked r st = ranked r st'"
proof -
  assume s: "node_shape st = node_shape st'"
  have "ranked r st \<longleftrightarrow> (\<forall>a k cs. node_shape st a = Some (k, cs) \<longrightarrow> (\<forall>c \<in> set cs. r c < r a))" for st
    by (auto simp: ranked_def node_shape_def)
  with s show ?thesis by simp
qed

lemma fold_opt_walk:
  assumes "\<And>c st. c \<in> set cs \<Longrightarrow> ranked r st \<Longrightarrow>
      expandEnvInYAMLNode n env c st = Some (fold (visit_scalar env) (visits n st c) st)"
    and "ranked r st"
  shows "fold_opt (expandEnvInYAMLNode n env) cs st
      = Some (fold (visit_scalar env) (concat (map (visits n st) cs)) st)"
  using assms
proof (induction cs arbitrary: st)
  case (Cons c cs)
  let ?st' = "fold (visit_scalar env) (visits n st c) st"
  have s: "node_shape ?st' = node_shape st" by (rule node_shape_visits)
  have "visits n ?st' = visits n st" using visits_shape [OF s] by auto
  moreover have "ranked r ?st'" using Cons.prems(2) ranked_shape [OF s] by simp
  ultimately show ?case using Cons.IH [of ?st'] Cons.prems by simp
qed simp

lemma expandEnvInYAMLNode_visits:
  "ranked r st \<Longrightarrow> r a < n \<Longrightarrow>
     expandEnvInYAMLNode n env a st = Some (fold (visit_scalar env) (visits n st a) st)"
proof (induction n arbitrary: a st)
  case (Suc n)
  show ?case
  proof (cases "st a")
    case (Some nd)
    have "fold_opt (expandEnvInYAMLNode n env) (walked nd) st
        = Some (fold (visit_scalar env) (concat (map (visits n st) (walked nd))) st)"
      if "Kind nd \<noteq> ScalarNode"
    proof (rule fold_opt_walk [OF _ Suc.prems(1)])
      fix c st' assume "c \<in> set (walked nd)" "ranked r st'"
      moreover have "r c < n" using Suc.prems Some calculation(1) by (fastforce simp: ranked_def)
      ultimately show "expandEnvInYAMLNode n env c st' = Some (fold (visit_scalar env) (visits n st' c) st')"
        using Suc.IH by simp
    qed
    with Some show ?thesis
      by (cases "Kind nd = ScalarNode") (simp_all add: visit_scalar_def [of env a] fun_upd_def)
  qed simp
qed simp

lemma fold_visit_distinct:
  "distinct bs \<Longrightarrow> fold (visit_scalar env) bs st b =
     (if b \<in> set bs then map_option (expandScalar env) (st b) else st b)"
  by (induction bs arbitrary: st) (auto simp: visit_scalar_def)


definition scalar_node :: "string \<Rightarrow> ynode" where
  "scalar_node v = \<lparr>Kind = ScalarNode, Tag = ''!!str'', Value = v, Content = [], Alias = None\<rparr>"

definition doc_mapping :: ystore where
  "doc_mapping =
     [0 \<mapsto> \<lparr>Kind = DocumentNode, Tag = [], Value = [], Content = [1], Alias = None\<rparr>,
      1 \<mapsto> \<lparr>Kind = MappingNode, Tag = ''!!map'', Value = [], Content = [2, 3], Alias = None\<rparr>,
      2 \<mapsto> scalar_node ''$A'', 3 \<mapsto> scalar_node ''${B:-true}'']"


definition doc_alias :: ystore where
  "doc_alias =
     [0 \<mapsto> \<lparr>Kind = SequenceNode, Tag = ''!!seq'', Value = [], Content = [1, 2], Alias = None\<rparr>,
      1 \<mapsto> scalar_node ''$X'',
      2 \<mapsto> \<lparr>Kind = AliasNode, Tag = [], Value = ''a'', Content = [], Alias = Some 1\<rparr>]"

text \<open>
  A scalar behind an alias is expanded once per visit: the value substituted
  by the first visit is itself expanded by the second.
\<close>

theorem expandEnvInYAMLNode_alias_twice:
  "map_option (\<lambda>st. map_option Value (st 1))
     (expandEnvInYAMLNode 3 [''X'' \<mapsto> ''$Y'', ''Y'' \<mapsto> ''leaked''] 0 doc_alias) = Some (Some ''leaked'')"
  by (simp add: doc_alias_def scalar_node_def walked_def numeral_3_eq_3 expandScalar_def SafeExpandEnv_def Let_def
      isShellSpecialVar_def isAlphaNum_def is_digit_def byte_def expandKey_def has_prefix_def Getenv_def LookupEnv_def)

definition doc_cycle :: ystore where
  "doc_cycle =
     [0 \<mapsto> \<lparr>Kind = SequenceNode, Tag = ''!!seq'', Value = [], Content = [1], Alias = None\<rparr>,
      1 \<mapsto> \<lparr>Kind = AliasNode, Tag = [], Value = ''a'', Content = [], Alias = Some 0\<rparr>]"

text \<open>
  An anchor that contains an alias to itself makes the walk recurse forever:
  no amount of fuel is enough.
\<close>

theorem expandEnvInYAMLNode_cycle:
  "expandEnvInYAMLNode n env 0 doc_cycle = None"
proof -
  have "expandEnvInYAMLNode n env 0 doc_cycle = None \<and> expandEnvInYAMLNode n env 1 doc_cycle = None"
    by (induction n) (auto simp: doc_cycle_def walked_def)
  then show ?thesis by simp
qed

text \<open>
  The walk follows aliases without remembering what it has visited: a scalar
  behind an alias is expanded once per visit, so that the value substituted by
  the first visit is itself expanded by the second, and an anchor that contains an
  alias to itself makes the walk recurse forever, whatever the fuel.
\<close>

theorem expandEnvInYAMLNode_aliases:
  "map_option (\<lambda>st. map_option Value (st 1))
     (expandEnvInYAMLNode 3 [''X'' \<mapsto> ''$Y'', ''Y'' \<mapsto> ''leaked''] 0 doc_alias) = Some (Some ''leaked'') \<and>
   expandEnvInYAMLNode n env 0 doc_cycle = None"
  using expandEnvInYAMLNode_alias_twice expandEnvInYAMLNode_cycle by blast

end
