(* ===== verification/GoNet.thy ===== *)
theory GoNet
  imports GoStrings "HOL-Library.Word"
begin

text \<open>
  The parts of Go's \<open>net\<close> and \<open>net/url\<close> packages the sources use: \<open>url.Parse\<close>
  with \<open>URL.Hostname\<close>, \<open>net.ParseIP\<close>, and the tests on \<open>net.IP\<close> values. An IP
  address is its list of bytes (4 or 16 of them, any other length is invalid).
\<close>

unbundle bit_operations_syntax

section \<open>Bytes of a URL\<close>

definition is_alpha :: "char \<Rightarrow> bool" where
  "is_alpha c \<longleftrightarrow> (97 \<le> byte c \<and> byte c \<le> 122) \<or> (65 \<le> byte c \<and> byte c \<le> 90)"

definition is_hex :: "char \<Rightarrow> bool" where
  "is_hex c \<longleftrightarrow> is_digit c \<or> (97 \<le> byte c \<and> byte c \<le> 102) \<or> (65 \<le> byte c \<and> byte c \<le> 70)"

definition unhex :: "char \<Rightarrow> nat" where
  "unhex c = (if is_digit c then byte c - 48 else if 97 \<le> byte c then byte c - 87 else byte c - 55)"

text \<open>Bytes a host may hold unescaped.\<close>

definition host_byte :: "char \<Rightarrow> bool" where
  "host_byte c \<longleftrightarrow> is_alpha c \<or> is_digit c \<or> 128 \<le> byte c
     \<or> c \<in> set ''-_.~!$&()*+,;=:[]<>'' \<or> c = CHR 0x27 \<or> c = CHR 0x22"

definition userinfo_byte :: "char \<Rightarrow> bool" where
  "userinfo_byte c \<longleftrightarrow> is_alpha c \<or> is_digit c \<or> c \<in> set ''-._:~!$&()*+,;=%@'' \<or> c = CHR 0x27"

datatype encoding = EncPath | EncHost | EncZone | EncUserPassword | EncFragment

text \<open>Whether an escape \<open>%xy\<close> is allowed: a host escapes only non-ASCII bytes and \<open>%25\<close>.\<close>

definition escape_ok :: "encoding \<Rightarrow> char \<Rightarrow> char \<Rightarrow> bool" where
  "escape_ok mode x y \<longleftrightarrow> is_hex x \<and> is_hex y \<and>
     (mode = EncHost \<longrightarrow> 8 \<le> unhex x \<or> [x, y] = ''25'') \<and>
     (mode = EncZone \<longrightarrow>
        (let v = char_of (16 * unhex x + unhex y)
         in [x, y] = ''25'' \<or> v = CHR '' '' \<or> (host_byte v \<and> byte v < 128)))"

text \<open>\<open>unescape\<close>; \<open>None\<close> is an error.\<close>

fun unescape :: "encoding \<Rightarrow> string \<Rightarrow> string option" where
  "unescape mode [] = Some []"
| "unescape mode (c # s) =
     (if c = CHR ''%'' then
        (case s of
           x # y # t \<Rightarrow>
             (if escape_ok mode x y
              then map_option ((#) (char_of (16 * unhex x + unhex y))) (unescape mode t) else None)
         | _ \<Rightarrow> None)
      else if mode \<in> {EncHost, EncZone} \<and> \<not> host_byte c then None
      else map_option ((#) c) (unescape mode s))"

section \<open>\<open>url.Parse\<close>\<close>

record url =
  Scheme :: string
  Opaque :: string
  User :: "string option"
  Host :: string
  Path :: string
  RawQuery :: string
  Fragment :: string

definition empty_url :: url where
  "empty_url = \<lparr>Scheme = [], Opaque = [], User = None, Host = [], Path = [], RawQuery = [], Fragment = []\<rparr>"

text \<open>\<open>getScheme\<close>: scheme and rest, or an error for an empty scheme.\<close>

definition getScheme :: "string \<Rightarrow> (string \<times> string) option" where
  "getScheme s =
     (let name = takeWhile (\<lambda>c. is_alpha c \<or> is_digit c \<or> c \<in> set ''+-.'') s;
          rest = drop (length name) s
      in if name \<noteq> [] \<and> \<not> is_alpha (hd name) then Some ([], s)
         else if take 1 rest = '':'' then (if name = [] then None else Some (name, drop 1 rest))
         else Some ([], s))"

definition last_index :: "char \<Rightarrow> string \<Rightarrow> nat option" where
  "last_index c s = (if c \<in> set s then Some (length s - 1 - length (takeWhile (\<lambda>x. x \<noteq> c) (rev s))) else None)"

definition validOptionalPort :: "string \<Rightarrow> bool" where
  "validOptionalPort p \<longleftrightarrow> p = [] \<or> (hd p = CHR '':'' \<and> list_all is_digit (tl p))"

definition parseHost :: "string \<Rightarrow> string option" where
  "parseHost host =
     (if has_prefix host ''['' then
        (case last_index (CHR '']'') host of
           None \<Rightarrow> None
         | Some i \<Rightarrow>
             (if \<not> validOptionalPort (drop (i + 1) host) then None
              else case index_of (take i host) ''%25'' of
                Some zone \<Rightarrow>
                  (case (unescape EncHost (take zone host), unescape EncZone (drop zone (take i host)),
                         unescape EncHost (drop i host)) of
                     (Some h1, Some h2, Some h3) \<Rightarrow> Some (h1 @ h2 @ h3)
                   | _ \<Rightarrow> None)
              | None \<Rightarrow> unescape EncHost host))
      else
        (case last_index (CHR '':'') host of
           None \<Rightarrow> unescape EncHost host
         | Some i \<Rightarrow> if validOptionalPort (drop i host) then unescape EncHost host else None))"

text \<open>The user part is kept as written; what matters is whether there is one and that it is valid.\<close>

definition parseAuthority :: "string \<Rightarrow> (string option \<times> string) option" where
  "parseAuthority a =
     (case last_index (CHR ''@'') a of
        None \<Rightarrow> map_option (Pair None) (parseHost a)
      | Some i \<Rightarrow>
          (case parseHost (drop (i + 1) a) of
             None \<Rightarrow> None
           | Some h \<Rightarrow>
               (if list_all userinfo_byte (take i a) \<and> unescape EncUserPassword (take i a) \<noteq> None
                then Some (Some (take i a), h) else None)))"

definition cut_before :: "char \<Rightarrow> string \<Rightarrow> string \<times> string" where
  "cut_before c s = (takeWhile (\<lambda>x. x \<noteq> c) s, tl (dropWhile (\<lambda>x. x \<noteq> c) s))"

definition parse_no_fragment :: "string \<Rightarrow> url option" where
  "parse_no_fragment raw =
     (if \<exists>c \<in> set raw. byte c < 32 \<or> byte c = 127 then None
      else if raw = ''*'' then Some (empty_url\<lparr>Path := ''*''\<rparr>)
      else case getScheme raw of
        None \<Rightarrow> None
      | Some (sch, rest0) \<Rightarrow>
          (let scheme = to_lower sch;
               (rest, query) = cut_before (CHR ''?'') rest0;
               u = empty_url\<lparr>Scheme := scheme, RawQuery := query\<rparr>
           in if \<not> has_prefix rest ''/'' \<and> scheme \<noteq> [] then Some (u\<lparr>Opaque := rest\<rparr>)
              else if \<not> has_prefix rest ''/'' \<and> CHR '':'' \<in> set (takeWhile (\<lambda>x. x \<noteq> CHR ''/'') rest) then None
              else if (scheme \<noteq> [] \<or> \<not> has_prefix rest ''///'') \<and> has_prefix rest ''//'' then
                (let a = drop 2 rest; authority = takeWhile (\<lambda>x. x \<noteq> CHR ''/'') a
                 in case parseAuthority authority of
                      None \<Rightarrow> None
                    | Some (user, host) \<Rightarrow>
                        map_option (\<lambda>p. u\<lparr>User := user, Host := host, Path := p\<rparr>)
                          (unescape EncPath (drop (length authority) a)))
              else map_option (\<lambda>p. u\<lparr>Path := p\<rparr>) (unescape EncPath rest)))"

definition url_Parse :: "string \<Rightarrow> url option" where
  "url_Parse raw =
     (let (u, frag) = cut_before (CHR ''#'') raw
      in case parse_no_fragment u of
           None \<Rightarrow> None
         | Some v \<Rightarrow> map_option (\<lambda>f. v\<lparr>Fragment := f\<rparr>) (unescape EncFragment frag))"

definition Hostname :: "url \<Rightarrow> string" where
  "Hostname u =
     (let h = (case last_index (CHR '':'') (Host u) of
                 None \<Rightarrow> Host u
               | Some i \<Rightarrow> if validOptionalPort (drop i (Host u)) then take i (Host u) else Host u)
      in if has_prefix h ''['' \<and> has_suffix h '']'' then butlast (tl h) else h)"

section \<open>IP addresses\<close>

type_synonym ip = "8 word list"

text \<open>Four dotted decimal fields of at most 255, without leading zeros.\<close>

definition ipv4_field :: "string \<Rightarrow> bool" where
  "ipv4_field f \<longleftrightarrow> f \<noteq> [] \<and> list_all is_digit f \<and> (hd f = CHR ''0'' \<longrightarrow> length f = 1) \<and> digits_val f \<le> 255"

definition parseIPv4 :: "string \<Rightarrow> ip option" where
  "parseIPv4 s =
     (let fs = split_on (CHR ''.'') s
      in if length fs = 4 \<and> list_all ipv4_field fs
         then Some (map (\<lambda>f. word_of_nat (digits_val f)) fs) else None)"

definition hex_val :: "string \<Rightarrow> nat" where
  "hex_val s = foldl (\<lambda>n c. 16 * n + unhex c) 0 s"

text \<open>
  The loop of \<open>parseIPv6\<close>: \<open>bs\<close> are the bytes read so far, \<open>el\<close> the position of
  the ellipsis. It ends at the end of the text, or with 16 bytes read and text
  left over, which is an error.
\<close>

function ipv6_loop :: "nat list \<Rightarrow> nat option \<Rightarrow> string \<Rightarrow> (nat list \<times> nat option) option" where
  "ipv6_loop bs el s =
     (if length bs \<ge> 16 then None
      else let g = takeWhile is_hex s; rest = drop (length g) s; v = hex_val g
      in if g = [] \<or> length g > 4 then None
         else if take 1 rest = ''.'' then
           (if (el = None \<and> length bs \<noteq> 12) \<or> length bs + 4 > 16 then None
            else map_option (\<lambda>ip. (bs @ map unat ip, el)) (parseIPv4 s))
         else let bs' = bs @ [v div 256, v mod 256]
         in if rest = [] then Some (bs', el)
            else if take 1 rest \<noteq> '':'' \<or> length rest = 1 then None
            else if rest ! 1 = CHR '':'' then
              (if el \<noteq> None then None
               else if length rest = 2 then Some (bs', Some (length bs'))
               else ipv6_loop bs' (Some (length bs')) (drop 2 rest))
            else ipv6_loop bs' el (drop 1 rest))"
  by pat_completeness auto
termination
  by (relation "measure (\<lambda>(bs, el, s). length s)") (auto simp: length_greater_0_conv [symmetric] simp del: length_greater_0_conv)

declare ipv6_loop.simps [simp del]

definition parseIPv6 :: "string \<Rightarrow> ip option" where
  "parseIPv6 s =
     (if s = ''::'' then Some (replicate 16 0)
      else case (if has_prefix s ''::'' then ipv6_loop [] (Some 0) (drop 2 s) else ipv6_loop [] None s) of
        None \<Rightarrow> None
      | Some (bs, el) \<Rightarrow>
          (case el of
             None \<Rightarrow> if length bs = 16 then Some (map word_of_nat bs) else None
           | Some e \<Rightarrow>
               (if length bs \<ge> 16 then None
                else Some (map word_of_nat (take e bs @ replicate (16 - length bs) 0 @ drop e bs)))))"

text \<open>\<open>net.ParseIP\<close>: the first dot or colon decides; a zone is never accepted. The result has 16 bytes.\<close>

definition v4_prefix :: ip where
  "v4_prefix = replicate 10 0 @ [0xff, 0xff]"

definition ParseIP :: "string \<Rightarrow> ip option" where
  "ParseIP s =
     (case dropWhile (\<lambda>c. c \<notin> set ''.:%'') s of
        [] \<Rightarrow> None
      | c # _ \<Rightarrow>
          (if c = CHR ''.'' then map_option (\<lambda>a. v4_prefix @ a) (parseIPv4 s)
           else if c = CHR '':'' then (if CHR ''%'' \<in> set s then None else parseIPv6 s)
           else None))"

text \<open>\<open>IP.To4\<close>, \<open>IP.Equal\<close>, \<open>IP.IsLoopback\<close>, \<open>IPNet.Contains\<close>.\<close>

definition To4 :: "ip \<Rightarrow> ip option" where
  "To4 a = (if length a = 4 then Some a
            else if length a = 16 \<and> take 12 a = v4_prefix then Some (drop 12 a) else None)"

definition IP_Equal :: "ip \<Rightarrow> ip \<Rightarrow> bool" where
  "IP_Equal a b =
     (if length a = length b then a = b
      else if length a = 4 \<and> length b = 16 then take 12 b = v4_prefix \<and> a = drop 12 b
      else if length a = 16 \<and> length b = 4 then take 12 a = v4_prefix \<and> drop 12 a = b
      else False)"

definition IPv6loopback :: ip where
  "IPv6loopback = replicate 15 0 @ [1]"

definition IsLoopback :: "ip \<Rightarrow> bool" where
  "IsLoopback a = (case To4 a of Some x \<Rightarrow> x ! 0 = 127 | None \<Rightarrow> IP_Equal a IPv6loopback)"

definition Net_Contains :: "ip \<times> ip \<Rightarrow> ip \<Rightarrow> bool" where
  "Net_Contains n a =
     (let x = (case To4 a of Some y \<Rightarrow> y | None \<Rightarrow> a)
      in length x = length (fst n) \<and>
         list_all (\<lambda>(b, m, y). b AND m = y AND m) (zip (fst n) (zip (snd n) x)))"

end
