(* ===== verification/ConfigSections.thy ===== *)
theory ConfigSections
  imports EnvExpand GoNet
begin

text \<open>
  The configuration blocks the services share, each with its defaults and its
  validation: the sections of \<open>configutil/sections.go\<close>, the self-redacting
  \<open>secret.Secret\<close>, the service-to-service block of \<open>stsclient/service.go\<close>, the
  Yandex Cloud credentials of \<open>ycloud/iam.go\<close>, and the delivery settings of
  \<open>postbox\<close> and \<open>email\<close>. The locale \<open>defaulted_config\<close> is the contract that
  a loader relies on: applying defaults twice is applying them once.
\<close>

section \<open>Secrets (\<open>secret/secret.go\<close>)\<close>

datatype Secret = Secret string

definition redactedValue :: string where
  "redactedValue = ''[REDACTED]''"

definition NewSecret :: "string \<Rightarrow> Secret" where
  "NewSecret plaintext = Secret plaintext"

fun Plaintext :: "Secret \<Rightarrow> string" where
  "Plaintext (Secret v) = v"

fun Secret_String :: "Secret \<Rightarrow> string" where
  "Secret_String (Secret v) = redactedValue"

fun Secret_GoString :: "Secret \<Rightarrow> string" where
  "Secret_GoString (Secret v) = ''secret.Secret{'' @ redactedValue @ ''}''"

fun Secret_LogValue :: "Secret \<Rightarrow> string" where
  "Secret_LogValue (Secret v) = redactedValue"

definition Secret_IsEmpty :: "Secret \<Rightarrow> bool" where
  "Secret_IsEmpty s \<longleftrightarrow> Plaintext s = []"

fun Secret_MarshalText :: "Secret \<Rightarrow> string res" where
  "Secret_MarshalText (Secret v) = Inr redactedValue"

definition Secret_UnmarshalText :: "string \<Rightarrow> Secret \<Rightarrow> Secret" where
  "Secret_UnmarshalText text s = Secret text"

definition Secret_ExpandableValue :: "Secret \<Rightarrow> string" where
  "Secret_ExpandableValue s = Plaintext s"

definition Secret_SetExpandedValue :: "string \<Rightarrow> Secret \<Rightarrow> Secret" where
  "Secret_SetExpandedValue v s = Secret v"

text \<open>A secret as the reflective walk of \<open>ExpandEnvInStruct\<close> sees it.\<close>

definition secret_gval :: "Secret \<Rightarrow> 't gval" where
  "secret_gval s = GExpandable (Secret_ExpandableValue s)"

section \<open>Shared sections (\<open>configutil/sections.go\<close>)\<close>

record HTTPServerSection =
  hs_ListenAddr :: string
  hs_ReadTimeout :: int
  hs_WriteTimeout :: int
  hs_IdleTimeout :: int
  hs_MaxHeaderBytes :: int
  hs_ShutdownTimeout :: int

definition HTTPServerSection_Validate :: "HTTPServerSection \<Rightarrow> err" where
  "HTTPServerSection_Validate s =
     fail_if (hs_ListenAddr s = []) (New ''configutil: http_server.listen_addr is required'')"

record TLSSection =
  tls_CertFile :: string
  tls_KeyFile :: string
  tls_ClientCAFile :: string
  tls_MinVersion :: string

definition TLSSection_Validate :: "TLSSection \<Rightarrow> err" where
  "TLSSection_Validate s =
     first_error
      [fail_if ((tls_CertFile s \<noteq> []) \<noteq> (tls_KeyFile s \<noteq> []))
         (New ''configutil: tls.cert_file and tls.key_file must both be set or both be empty''),
       fail_if (tls_MinVersion s \<noteq> [] \<and> tls_MinVersion s \<noteq> ''1.2'' \<and> tls_MinVersion s \<noteq> ''1.3'')
         (Errorf ''configutil: tls.min_version must be \"1.2\" or \"1.3\", got %q'' [ArgS (tls_MinVersion s)])]"

definition TLSSection_IsEnabled :: "TLSSection \<Rightarrow> bool" where
  "TLSSection_IsEnabled s \<longleftrightarrow> tls_CertFile s \<noteq> [] \<and> tls_KeyFile s \<noteq> []"

record DatabaseSection =
  db_Driver :: string
  db_DSN :: string

definition DatabaseSection_Validate :: "DatabaseSection \<Rightarrow> err" where
  "DatabaseSection_Validate s =
     first_error
      [fail_if (db_Driver s = []) (New ''configutil: database.driver is required''),
       fail_if (db_DSN s = []) (New ''configutil: database.dsn is required'')]"

record LogSection =
  log_Level :: string
  log_Format :: string
  log_Redact :: bool

definition LogSection_Validate :: "LogSection \<Rightarrow> err" where
  "LogSection_Validate s =
     first_error
      [when_check (log_Level s \<noteq> [])
         (fail_if (to_lower (log_Level s) \<notin> {''debug'', ''info'', ''warn'', ''error''})
            (Errorf ''configutil: log.level must be debug|info|warn|error, got %q'' [ArgS (log_Level s)])),
       when_check (log_Format s \<noteq> [])
         (fail_if (to_lower (log_Format s) \<notin> {''json'', ''text''})
            (Errorf ''configutil: log.format must be json|text, got %q'' [ArgS (log_Format s)]))]"

record HealthSection =
  hl_Enabled :: bool
  hl_LivenessPath :: string
  hl_ReadinessPath :: string

definition HealthSection_WithDefaults :: "HealthSection \<Rightarrow> HealthSection" where
  "HealthSection_WithDefaults s =
     s\<lparr>hl_LivenessPath := default_str ''/health'' (hl_LivenessPath s),
       hl_ReadinessPath := default_str ''/readiness'' (hl_ReadinessPath s)\<rparr>"

record ProbeSidecarSection =
  probe_Addr :: string

definition ProbeSidecarSection_WithDefault :: "string \<Rightarrow> ProbeSidecarSection \<Rightarrow> ProbeSidecarSection" where
  "ProbeSidecarSection_WithDefault addr s = s\<lparr>probe_Addr := default_str addr (probe_Addr s)\<rparr>"

section \<open>Service authentication (\<open>stsclient/service.go\<close>)\<close>

record JWTKeysConfig =
  jk_PrivateKeyFile :: string
  jk_PublicKeyFile :: string

record RouterTLSConfig =
  rt_CAFile :: string
  rt_ServerName :: string

record STSTLSConfig =
  st_CAFile :: string
  st_CertFile :: string
  st_KeyFile :: string

record ServiceAuthConfig =
  sa_RouterBaseURL :: string
  sa_STSEndpoint :: string
  sa_Audience :: string
  sa_ServiceName :: string
  sa_AssertionAudience :: string
  sa_RouterTimeout :: int
  sa_JWT :: JWTKeysConfig
  sa_RouterTLS :: RouterTLSConfig
  sa_STSTLS :: STSTLSConfig

definition requiredFields :: "(string \<times> (ServiceAuthConfig \<Rightarrow> string)) list" where
  "requiredFields =
     [(''router_base_url'', sa_RouterBaseURL),
      (''sts_endpoint'', sa_STSEndpoint),
      (''audience'', sa_Audience),
      (''service_name'', sa_ServiceName),
      (''assertion_audience'', sa_AssertionAudience),
      (''jwt.private_key_file'', \<lambda>c. jk_PrivateKeyFile (sa_JWT c)),
      (''jwt.public_key_file'', \<lambda>c. jk_PublicKeyFile (sa_JWT c))]"

definition ServiceAuthConfig_Validate :: "ServiceAuthConfig \<Rightarrow> err" where
  "ServiceAuthConfig_Validate c =
     (let filled = map fst (filter (\<lambda>(n, get). get c \<noteq> []) requiredFields);
          missing = map fst (filter (\<lambda>(n, get). get c = []) requiredFields)
      in if filled = [] then None
         else if missing = [] then None
         else Some (Errorf (''service_auth: partially configured '' @ [CHR 0xE2, CHR 0x80, CHR 0x94] @ '' missing: %s'')
                      [ArgS (join_with '', '' missing)]))"

definition ServiceAuthConfig_IsConfigured :: "ServiceAuthConfig \<Rightarrow> bool" where
  "ServiceAuthConfig_IsConfigured c \<longleftrightarrow> sa_STSEndpoint c \<noteq> []"

section \<open>Credentials and mail delivery (\<open>ycloud\<close>, \<open>postbox\<close>, \<open>email\<close>)\<close>

record AuthConfig =
  ya_AuthMode :: string
  ya_IAMToken :: Secret
  ya_OAuthToken :: Secret
  ya_SAKeyFile :: string
  ya_AccessKeyID :: Secret
  ya_SecretAccessKey :: Secret

record PostboxConfig =
  pb_Endpoint :: string
  pb_Region :: string
  pb_Auth :: AuthConfig

definition Postbox_ApplyDefaults :: "PostboxConfig \<Rightarrow> PostboxConfig" where
  "Postbox_ApplyDefaults c =
     c\<lparr>pb_Endpoint := default_str ''https://postbox.cloud.yandex.net'' (pb_Endpoint c),
       pb_Region := default_str ''ru-central1'' (pb_Region c)\<rparr>"

definition Postbox_Validate :: "string \<Rightarrow> PostboxConfig \<Rightarrow> err" where
  "Postbox_Validate prefix c =
     first_error
      [fail_if (pb_Endpoint c = []) (Errorf ''%s.endpoint is required'' [ArgS prefix]),
       fail_if (pb_Region c = []) (Errorf ''%s.region is required'' [ArgS prefix]),
       (let mode = ya_AuthMode (pb_Auth c) in
        if mode = ''iam_token'' then
          fail_if (Secret_IsEmpty (ya_IAMToken (pb_Auth c)))
            (Errorf ''%s.auth.iam_token is required when auth_mode=iam_token'' [ArgS prefix])
        else if mode = ''oauth_token'' then
          fail_if (Secret_IsEmpty (ya_OAuthToken (pb_Auth c)))
            (Errorf ''%s.auth.oauth_token is required when auth_mode=oauth_token'' [ArgS prefix])
        else if mode = ''metadata'' then None
        else if mode = ''service_account'' then
          fail_if (ya_SAKeyFile (pb_Auth c) = [])
            (Errorf ''%s.auth.sa_key_file is required when auth_mode=service_account'' [ArgS prefix])
        else Some (Errorf ''%s.auth.auth_mode must be iam_token, oauth_token, metadata, or service_account'' [ArgS prefix]))]"

record SMTPConfig =
  sm_Host :: string
  sm_Port :: int
  sm_TLSMode :: string
  sm_Username :: string
  sm_Password :: Secret
  sm_Timeout :: int

record EmailConfig =
  em_Provider :: string
  em_Postbox :: "PostboxConfig option"
  em_Selectel :: "SMTPConfig option"

definition SMTP_ApplyDefaults :: "SMTPConfig \<Rightarrow> SMTPConfig" where
  "SMTP_ApplyDefaults c =
     (let mode = default_str ''tls'' (sm_TLSMode c)
      in c\<lparr>sm_Host := default_str ''smtp.mail.selcloud.ru'' (sm_Host c),
           sm_TLSMode := mode,
           sm_Port := default_int (if mode = ''starttls'' then 1126 else 1127) (sm_Port c),
           sm_Timeout := default_int (10 * go_second) (sm_Timeout c)\<rparr>)"

definition Email_ApplyDefaults :: "EmailConfig \<Rightarrow> EmailConfig" where
  "Email_ApplyDefaults c =
     (if em_Provider c = ''postbox'' then
        c\<lparr>em_Postbox := map_option Postbox_ApplyDefaults (em_Postbox c)\<rparr>
      else if em_Provider c = ''selectel'' then
        c\<lparr>em_Selectel := map_option SMTP_ApplyDefaults (em_Selectel c)\<rparr>
      else c)"

definition SMTP_validate :: "string \<Rightarrow> SMTPConfig \<Rightarrow> err" where
  "SMTP_validate prefix c =
     first_error
      [fail_if (sm_Host c = [] \<or> contains_any (sm_Host c) [CHR 0x0D, CHR 0x0A, CHR 0x09, CHR 0x00, CHR '' '', CHR ''/'', CHR ''@'']
                \<or> (ParseIP (sm_Host c) = None \<and> contains (sm_Host c) '':''))
         (Errorf ''%s.host must be a hostname or IP without a port'' [ArgS prefix]),
       fail_if (sm_Port c < 1 \<or> sm_Port c > 65535)
         (Errorf ''%s.port must be between 1 and 65535'' [ArgS prefix]),
       fail_if (sm_TLSMode c \<noteq> ''tls'' \<and> sm_TLSMode c \<noteq> ''starttls'')
         (Errorf ''%s.tls_mode must be tls or starttls'' [ArgS prefix]),
       fail_if (sm_Username c = [] \<or> contains_any (sm_Username c) [CHR 0x0D, CHR 0x0A, CHR 0x00]
                \<or> Secret_IsEmpty (sm_Password c))
         (Errorf ''%s requires username and password'' [ArgS prefix]),
       fail_if (sm_Timeout c \<le> 0 \<or> sm_Timeout c > go_minute)
         (Errorf ''%s.timeout must be greater than zero and at most 1m'' [ArgS prefix])]"

definition https_endpoint :: "string \<Rightarrow> bool" where
  "https_endpoint s =
     (case url_Parse s of
        None \<Rightarrow> False
      | Some u \<Rightarrow> Scheme u = ''https'' \<and> Hostname u \<noteq> [] \<and> User u = None \<and> RawQuery u = [] \<and> Fragment u = [])"

definition Email_Validate :: "string \<Rightarrow> EmailConfig \<Rightarrow> err" where
  "Email_Validate prefix c =
     (if em_Provider c = ''postbox'' then
        (case (em_Postbox c, em_Selectel c) of
           (Some pb, None) \<Rightarrow>
             first_error
              [fail_if (\<not> https_endpoint (pb_Endpoint pb))
                 (Errorf ''%s.postbox.endpoint must be an HTTPS URL without credentials, query or fragment'' [ArgS prefix]),
               Postbox_Validate (prefix @ ''.postbox'') pb]
         | _ \<Rightarrow> Some (Errorf ''%s requires only the postbox section'' [ArgS prefix]))
      else if em_Provider c = ''selectel'' then
        (case (em_Selectel c, em_Postbox c) of
           (Some sm, None) \<Rightarrow> SMTP_validate (prefix @ ''.selectel'') sm
         | _ \<Rightarrow> Some (Errorf ''%s requires only the selectel section'' [ArgS prefix]))
      else Some (Errorf ''%s.provider must be postbox or selectel'' [ArgS prefix]))"

section \<open>The contract of a loader\<close>

text \<open>The tail both \<open>LoadFromBytes\<close> functions share: defaults, then validation, on the decoded value.\<close>

definition finish_load :: "('c \<Rightarrow> 'c) \<Rightarrow> ('c \<Rightarrow> err) \<Rightarrow> 'c res \<Rightarrow> 'c res" where
  "finish_load defaults validate decoded =
     (case decoded of
        Inl e \<Rightarrow> Inl (Wrapf ''parsing config: %w'' [] e)
      | Inr cfg \<Rightarrow>
          (let c = defaults cfg
           in case validate c of
                Some e \<Rightarrow> Inl (Wrapf ''config validation: %w'' [] e)
              | None \<Rightarrow> Inr c))"

locale defaulted_config =
  fixes defaults :: "'c \<Rightarrow> 'c" and validate :: "'c \<Rightarrow> err"
  assumes defaults_idem: "defaults (defaults c) = defaults c"
begin

lemma loaded_valid: "finish_load defaults validate r = Inr c \<Longrightarrow> validate c = None"
  by (auto simp: finish_load_def Let_def split: sum.splits option.splits)

lemma loaded_fixpoint: "finish_load defaults validate r = Inr c \<Longrightarrow> defaults c = c"
  by (auto simp: finish_load_def Let_def defaults_idem split: sum.splits option.splits)

text \<open>A loaded configuration written back and loaded again is accepted unchanged.\<close>

lemma reload: "finish_load defaults validate r = Inr c \<Longrightarrow> finish_load defaults validate (Inr c) = Inr c"
  using loaded_valid [of r c] loaded_fixpoint [of r c]
  by (simp add: finish_load_def)

end

section \<open>Properties of the shared blocks\<close>

lemma Postbox_ApplyDefaults_idem [simp]: "Postbox_ApplyDefaults (Postbox_ApplyDefaults c) = Postbox_ApplyDefaults c"
  by (simp add: Postbox_ApplyDefaults_def)

lemma SMTP_ApplyDefaults_idem [simp]: "SMTP_ApplyDefaults (SMTP_ApplyDefaults c) = SMTP_ApplyDefaults c"
  by (simp add: SMTP_ApplyDefaults_def Let_def)

lemma Email_ApplyDefaults_idem [simp]: "Email_ApplyDefaults (Email_ApplyDefaults c) = Email_ApplyDefaults c"
  by (simp add: Email_ApplyDefaults_def option.map_comp comp_def)

lemma HealthSection_WithDefaults_idem [simp]:
  "HealthSection_WithDefaults (HealthSection_WithDefaults s) = HealthSection_WithDefaults s"
  by (simp add: HealthSection_WithDefaults_def)

lemma ProbeSidecarSection_WithDefault_idem [simp]:
  "ProbeSidecarSection_WithDefault a (ProbeSidecarSection_WithDefault a s) = ProbeSidecarSection_WithDefault a s"
  by (simp add: ProbeSidecarSection_WithDefault_def)

definition service_auth_filled :: "ServiceAuthConfig \<Rightarrow> bool" where
  "service_auth_filled c \<longleftrightarrow> (\<forall>(n, get) \<in> set requiredFields. get c \<noteq> [])"

definition service_auth_blank :: "ServiceAuthConfig \<Rightarrow> bool" where
  "service_auth_blank c \<longleftrightarrow> (\<forall>(n, get) \<in> set requiredFields. get c = [])"

lemma ServiceAuthConfig_Validate_None [check_simps]:
  "ServiceAuthConfig_Validate c = None \<longleftrightarrow> service_auth_filled c \<or> service_auth_blank c"
  unfolding ServiceAuthConfig_Validate_def service_auth_filled_def service_auth_blank_def Let_def
  by (auto simp: filter_empty_conv case_prod_unfold)

lemma service_auth_configured:
  "ServiceAuthConfig_Validate c = None \<Longrightarrow> ServiceAuthConfig_IsConfigured c \<Longrightarrow> service_auth_filled c"
  by (auto simp: ServiceAuthConfig_Validate_None service_auth_blank_def ServiceAuthConfig_IsConfigured_def
      requiredFields_def)

text \<open>
  Validation of the service authentication block is all-or-nothing: no error
  exactly when every required field is set or none is; otherwise the error names
  the missing fields, in declaration order; and a valid block that reports itself
  configured is complete.
\<close>

theorem ServiceAuthConfig_all_or_nothing:
  "(ServiceAuthConfig_Validate c = None \<longleftrightarrow> service_auth_filled c \<or> service_auth_blank c) \<and>
   (\<forall>e. ServiceAuthConfig_Validate c = Some e \<longrightarrow>
      (\<exists>f. e = Errorf f [ArgS (join_with '', '' (map fst (filter (\<lambda>(n, get). get c = []) requiredFields)))])) \<and>
   (ServiceAuthConfig_Validate c = None \<and> ServiceAuthConfig_IsConfigured c \<longrightarrow> service_auth_filled c)"
  using service_auth_configured [of c] ServiceAuthConfig_Validate_None [of c]
  by (auto simp: ServiceAuthConfig_Validate_def Let_def split: if_splits)

definition blank_service_auth :: ServiceAuthConfig where
  "blank_service_auth =
     \<lparr>sa_RouterBaseURL = [], sa_STSEndpoint = [], sa_Audience = [], sa_ServiceName = [], sa_AssertionAudience = [],
      sa_RouterTimeout = 0, sa_JWT = \<lparr>jk_PrivateKeyFile = [], jk_PublicKeyFile = []\<rparr>,
      sa_RouterTLS = \<lparr>rt_CAFile = [], rt_ServerName = []\<rparr>, sa_STSTLS = \<lparr>st_CAFile = [], st_CertFile = [], st_KeyFile = []\<rparr>\<rparr>"

theorem ServiceAuthConfig_all_or_nothing_witness:
  "ServiceAuthConfig_Validate blank_service_auth = None \<and>
   ServiceAuthConfig_Validate (blank_service_auth\<lparr>sa_Audience := ''a''\<rparr>) \<noteq> None \<and>
   service_auth_filled (blank_service_auth\<lparr>sa_RouterBaseURL := ''r'', sa_STSEndpoint := ''e'', sa_Audience := ''a'',
     sa_ServiceName := ''s'', sa_AssertionAudience := ''x'', sa_JWT := \<lparr>jk_PrivateKeyFile = ''p'', jk_PublicKeyFile = ''q''\<rparr>\<rparr>)"
  using ServiceAuthConfig_all_or_nothing [of blank_service_auth]
    ServiceAuthConfig_all_or_nothing [of "blank_service_auth\<lparr>sa_Audience := ''a''\<rparr>"]
  by (simp add: service_auth_filled_def service_auth_blank_def requiredFields_def blank_service_auth_def)

lemma SMTP_validate_None:
  assumes "SMTP_validate p c = None"
  shows "1 \<le> sm_Port c" "sm_Port c \<le> 65535" "sm_TLSMode c \<in> {''tls'', ''starttls''}"
    "\<not> Secret_IsEmpty (sm_Password c)" "0 < sm_Timeout c" "sm_Timeout c \<le> go_minute"
    "\<forall>c' \<in> set (sm_Username c). c' \<noteq> CHR 0x0D \<and> c' \<noteq> CHR 0x0A"
  using assms by (auto simp: SMTP_validate_def check_simps contains_any_def)

lemma Email_Validate_provider: "Email_Validate p c = None \<Longrightarrow> em_Provider c \<in> {''postbox'', ''selectel''}"
  by (auto simp: Email_Validate_def split: if_splits)

text \<open>
  A delivery configuration that passes validation has exactly one active
  transport, and that transport is protected: Postbox over a plain HTTPS URL, or
  SMTP with a TLS mode, credentials free of line breaks and a bounded timeout.
\<close>

theorem Email_Validate_protected:
  assumes "Email_Validate p c = None"
  shows "(\<exists>pb. em_Postbox c = Some pb \<and> em_Selectel c = None \<and> https_endpoint (pb_Endpoint pb)) \<or>
    (\<exists>sm. em_Selectel c = Some sm \<and> em_Postbox c = None \<and> sm_TLSMode sm \<in> {''tls'', ''starttls''} \<and>
       \<not> Secret_IsEmpty (sm_Password sm) \<and> 0 < sm_Timeout sm \<and> sm_Timeout sm \<le> go_minute \<and>
       (\<forall>ch \<in> set (sm_Username sm). ch \<noteq> CHR 0x0D \<and> ch \<noteq> CHR 0x0A))"
proof (cases "em_Provider c = ''postbox''")
  case True
  with assms show ?thesis
    by (auto simp: Email_Validate_def check_simps split: option.splits prod.splits)
next
  case False
  with assms Email_Validate_provider have "em_Provider c = ''selectel''" by auto
  with assms False obtain sm where "em_Selectel c = Some sm" "em_Postbox c = None" "SMTP_validate (p @ ''.selectel'') sm = None"
    by (auto simp: Email_Validate_def split: option.splits prod.splits)
  with SMTP_validate_None [of "p @ ''.selectel''" sm] show ?thesis by auto
qed

definition demo_delivery :: EmailConfig where
  "demo_delivery = Email_ApplyDefaults
     \<lparr>em_Provider = ''selectel'', em_Postbox = None,
      em_Selectel = Some \<lparr>sm_Host = [], sm_Port = 0, sm_TLSMode = ''starttls'', sm_Username = ''bot'',
        sm_Password = Secret ''pw'', sm_Timeout = 0\<rparr>\<rparr>"

theorem Email_Validate_protected_witness:
  "Email_Validate ''email'' demo_delivery = None \<and> em_Postbox demo_delivery = None \<and>
   map_option sm_Port (em_Selectel demo_delivery) = Some 1126 \<and>
   (\<exists>sm. em_Selectel demo_delivery = Some sm \<and> 0 < sm_Timeout sm)"
proof -
  have "Email_Validate ''email'' demo_delivery = None"
    by (simp add: demo_delivery_def Email_Validate_def Email_ApplyDefaults_def SMTP_ApplyDefaults_def SMTP_validate_def
        default_str_def default_int_def fail_if_def contains_any_def contains_def has_prefix_def Secret_IsEmpty_def)
  moreover from Email_Validate_protected [OF this] have "\<exists>sm. em_Selectel demo_delivery = Some sm \<and> 0 < sm_Timeout sm"
    by (auto simp: demo_delivery_def Email_ApplyDefaults_def)
  ultimately show ?thesis
    by (simp add: demo_delivery_def Email_ApplyDefaults_def SMTP_ApplyDefaults_def default_str_def default_int_def)
qed

end
