(* ===== verification/RouteTokens.thy ===== *)
theory RouteTokens
  imports ConfigSections
begin

text \<open>
  Route token profiles (\<open>authnconfig/route_tokens.go\<close>): decoding of the two
  short forms, defaults, validation, and the grammar of the claim sources a
  profile may name. A Go map is an association list in its iteration order,
  with distinct keys.
\<close>

section \<open>Data\<close>

text \<open>An arbitrary decoded YAML value (\<open>interface{}\<close>).\<close>

datatype any =
    AnyNull | AnyBool bool | AnyInt int | AnyFloat string | AnyStr string
  | AnyList "any list" | AnyMap "(string \<times> any) list"

record ClaimSource =
  cs_Source :: string
  cs_As :: string
  cs_Required :: "bool option"

record RouteTokenConfig =
  rp_Enabled :: bool
  rp_Algorithm :: string
  rp_Secret :: Secret
  rp_TTL :: int
  rp_MaxTTL :: int
  rp_Leeway :: int
  rp_Issuer :: string
  rp_Audience :: "string list"
  rp_OnMissingClaim :: string
  rp_StaticClaims :: "(string \<times> any) list"
  rp_Claims :: "(string \<times> ClaimSource) list"

type_synonym route_tokens = "(string \<times> RouteTokenConfig) list"

section \<open>Decoding\<close>

text \<open>
  The struct decoding of the YAML library is a parameter. \<open>decode_raw\<close> gives the
  fields other than the audience and, for the audience, its node if the key is
  present (\<open>Kind != 0\<close>); \<open>decode_list\<close> decodes a sequence node into strings.
\<close>

definition ClaimSource_UnmarshalYAML ::
  "(ynode \<Rightarrow> ClaimSource res) \<Rightarrow> ynode \<Rightarrow> ClaimSource \<Rightarrow> ClaimSource res" where
  "ClaimSource_UnmarshalYAML decode_alias nd c =
     (if Kind nd = ScalarNode then Inr (c\<lparr>cs_Source := Value nd\<rparr>)
      else case decode_alias nd of Inl e \<Rightarrow> Inl e | Inr alias \<Rightarrow> Inr alias)"

definition RouteTokenConfig_UnmarshalYAML ::
  "(ynode \<Rightarrow> (RouteTokenConfig \<times> ynode option) res) \<Rightarrow> (ynode \<Rightarrow> string list res) \<Rightarrow> ynode \<Rightarrow> RouteTokenConfig res" where
  "RouteTokenConfig_UnmarshalYAML decode_raw decode_list nd =
     (case decode_raw nd of
        Inl e \<Rightarrow> Inl e
      | Inr (raw, audience) \<Rightarrow>
          (let r = raw\<lparr>rp_Audience := []\<rparr>
           in case audience of
                None \<Rightarrow> Inr r
              | Some a \<Rightarrow>
                  (if Kind a = ScalarNode then
                     Inr (if Value a \<noteq> [] then r\<lparr>rp_Audience := [Value a]\<rparr> else r)
                   else if Kind a = SequenceNode then
                     (case decode_list a of Inl e \<Rightarrow> Inl e | Inr aud \<Rightarrow> Inr (r\<lparr>rp_Audience := aud\<rparr>))
                   else Inl (New ''audience must be a string or string list''))))"

section \<open>Defaults\<close>

definition claim_defaults :: "ClaimSource \<Rightarrow> ClaimSource" where
  "claim_defaults s = s\<lparr>cs_As := default_str ''string'' (cs_As s)\<rparr>"

definition profile_defaults :: "RouteTokenConfig \<Rightarrow> RouteTokenConfig" where
  "profile_defaults p =
     p\<lparr>rp_Algorithm := default_str ''HS256'' (rp_Algorithm p),
       rp_TTL := default_int (5 * go_minute) (rp_TTL p),
       rp_MaxTTL := default_int go_hour (rp_MaxTTL p),
       rp_Leeway := default_int (30 * go_second) (rp_Leeway p),
       rp_OnMissingClaim := default_str ''fail_closed'' (rp_OnMissingClaim p),
       rp_Claims := map (\<lambda>(claim, s). (claim, claim_defaults s)) (rp_Claims p)\<rparr>"

definition applyRouteTokenDefaults :: "route_tokens \<Rightarrow> route_tokens" where
  "applyRouteTokenDefaults ts = map (\<lambda>(name, profile). (name, profile_defaults profile)) ts"

section \<open>Validation\<close>

definition known_parts :: "string list \<Rightarrow> bool" where
  "known_parts parts =
     (if length parts = 2 \<and> parts ! 0 = ''user'' then
        parts ! 1 \<in> {''id'', ''email'', ''phone'', ''display_name''}
      else if length parts = 2 \<and> parts ! 0 = ''session'' \<and> parts ! 1 = ''id'' then True
      else if length parts \<ge> 3 \<and> parts ! 0 = ''oauth'' \<and> parts ! 1 \<noteq> [] then
        (if parts ! 2 \<in> {''provider_user_id'', ''email''} then length parts = 3
         else if parts ! 2 = ''metadata'' then length parts = 4 \<and> parts ! 3 \<noteq> []
         else False)
      else False)"

definition known_source :: "string \<Rightarrow> bool" where
  "known_source src = known_parts (split_on (CHR ''.'') src)"

definition validateRouteTokenClaimSource :: "ClaimSource \<Rightarrow> err" where
  "validateRouteTokenClaimSource s =
     first_error
      [fail_if (cs_Source s = []) (New ''source is required''),
       fail_if (cs_As s \<notin> {''string'', ''int'', ''bool''})
         (Errorf ''as must be %q, %q, or %q'' [ArgS ''string'', ArgS ''int'', ArgS ''bool'']),
       fail_if (\<not> known_source (cs_Source s)) (Errorf ''unknown source %q'' [ArgS (cs_Source s)])]"

definition validate_claim :: "string \<Rightarrow> string \<times> ClaimSource \<Rightarrow> err" where
  "validate_claim name kv =
     first_error
      [fail_if (trim_space (fst kv) = [])
         (Errorf ''route_tokens.%s.claims contains an empty claim name'' [ArgS name]),
       wrap_err ''route_tokens.%s.claims.%s: %w'' [ArgS name, ArgS (fst kv)]
         (validateRouteTokenClaimSource (snd kv))]"

definition validate_profile :: "string \<Rightarrow> RouteTokenConfig \<Rightarrow> err" where
  "validate_profile name p =
     first_error
      [fail_if (trim_space name = []) (New ''route_tokens contains an empty profile name''),
       when_check (rp_Enabled p)
        (first_error
          [fail_if (rp_Algorithm p \<noteq> ''HS256'')
             (Errorf ''route_tokens.%s.algorithm must be HS256, got %q'' [ArgS name, ArgS (rp_Algorithm p)]),
           fail_if (Secret_IsEmpty (rp_Secret p))
             (Errorf ''route_tokens.%s.secret is required when enabled'' [ArgS name]),
           fail_if (rp_TTL p \<le> 0)
             (Errorf ''route_tokens.%s.ttl must be greater than zero'' [ArgS name]),
           fail_if (rp_MaxTTL p \<le> 0)
             (Errorf ''route_tokens.%s.max_ttl must be greater than zero'' [ArgS name]),
           fail_if (rp_TTL p > rp_MaxTTL p)
             (Errorf ''route_tokens.%s.ttl must not exceed max_ttl'' [ArgS name]),
           fail_if (rp_Leeway p < 0)
             (Errorf ''route_tokens.%s.leeway must be greater than or equal to zero'' [ArgS name]),
           fail_if (rp_OnMissingClaim p \<notin> {''fail_closed'', ''omit''})
             (Errorf ''route_tokens.%s.on_missing_claim must be %q or %q'' [ArgS name, ArgS ''fail_closed'', ArgS ''omit'']),
           each_check (validate_claim name) (rp_Claims p)])]"

definition validateRouteTokens :: "route_tokens \<Rightarrow> err" where
  "validateRouteTokens ts = each_check (\<lambda>(name, profile). validate_profile name profile) ts"

section \<open>Properties\<close>

lemma claim_defaults_idem [simp]: "claim_defaults (claim_defaults s) = claim_defaults s"
  by (simp add: claim_defaults_def)

lemma profile_defaults_idem [simp]: "profile_defaults (profile_defaults p) = profile_defaults p"
  by (simp add: profile_defaults_def comp_def case_prod_unfold)

lemma applyRouteTokenDefaults_idem [simp]:
  "applyRouteTokenDefaults (applyRouteTokenDefaults ts) = applyRouteTokenDefaults ts"
  by (simp add: applyRouteTokenDefaults_def comp_def case_prod_unfold)

text \<open>The sources a claim may name, as a grammar over dot-free segments.\<close>

definition segment :: "string \<Rightarrow> bool" where
  "segment p \<longleftrightarrow> p \<noteq> [] \<and> CHR ''.'' \<notin> set p"

inductive source_form :: "string list \<Rightarrow> bool" where
  user: "f \<in> {''id'', ''email'', ''phone'', ''display_name''} \<Longrightarrow> source_form [''user'', f]"
| session: "source_form [''session'', ''id'']"
| oauth: "segment p \<Longrightarrow> f \<in> {''provider_user_id'', ''email''} \<Longrightarrow> source_form [''oauth'', p, f]"
| metadata: "segment p \<Longrightarrow> segment k \<Longrightarrow> source_form [''oauth'', p, ''metadata'', k]"

lemma source_form_no_dot: "source_form ws \<Longrightarrow> ws \<noteq> [] \<and> (\<forall>w \<in> set ws. CHR ''.'' \<notin> set w)"
  by (induction rule: source_form.induct) (auto simp: segment_def)

inductive_simps source_form_shapes:
  "source_form []" "source_form [a]" "source_form [a, b]" "source_form [a, b, c]"
  "source_form [a, b, c, d]" "source_form (a # b # c # d # e # ws)"

lemma known_parts_form:
  assumes "\<forall>w \<in> set ps. CHR ''.'' \<notin> set w"
  shows "known_parts ps \<longleftrightarrow> source_form ps"
proof -
  consider "ps = []" | a where "ps = [a]" | a b where "ps = [a, b]" | a b c where "ps = [a, b, c]"
    | a b c d where "ps = [a, b, c, d]" | a b c d e ws where "ps = a # b # c # d # e # ws"
    by (cases ps; cases "tl ps"; cases "tl (tl ps)"; cases "tl (tl (tl ps))"; cases "tl (tl (tl (tl ps)))") auto
  then show ?thesis
  proof cases
    case (3 a b)
    then show ?thesis by (cases "a = ''user''") (simp_all add: known_parts_def source_form_shapes)
  next
    case (4 a b c)
    with assms show ?thesis
      by (cases "a = ''oauth''") (simp_all add: known_parts_def source_form_shapes segment_def)
  next
    case (5 a b c d)
    with assms show ?thesis
      by (cases "a = ''oauth''") (auto simp: known_parts_def source_form_shapes segment_def)
  qed (simp_all add: known_parts_def source_form_shapes)
qed

lemma known_source_form: "known_source src \<longleftrightarrow> source_form (split_on (CHR ''.'') src)"
  using known_parts_form [of "split_on (CHR ''.'') src"] split_on_pieces
  by (simp add: known_source_def)

lemma source_form_join:
  "source_form (split_on (CHR ''.'') src) \<longleftrightarrow> (\<exists>ws. source_form ws \<and> src = join_with ''.'' ws)"
proof
  assume "source_form (split_on (CHR ''.'') src)"
  then show "\<exists>ws. source_form ws \<and> src = join_with ''.'' ws"
    using join_split [of "CHR ''.''" src] by metis
next
  assume "\<exists>ws. source_form ws \<and> src = join_with ''.'' ws"
  then show "source_form (split_on (CHR ''.'') src)"
    using split_join source_form_no_dot by metis
qed

lemma source_form_nonempty: "source_form ws \<Longrightarrow> join_with ''.'' ws \<noteq> []"
  by (cases rule: source_form.cases) auto

text \<open>
  C23: A claim source is accepted exactly when its type is one of the three and
  its source is a sentence of the grammar: a user attribute, the session id, or
  an attribute or metadata key of a named OAuth provider.
\<close>

theorem validateRouteTokenClaimSource_grammar:
  "validateRouteTokenClaimSource s = None \<longleftrightarrow>
     cs_As s \<in> {''string'', ''int'', ''bool''} \<and>
     (\<exists>ws. source_form ws \<and> cs_Source s = join_with ''.'' ws)"
  using source_form_nonempty source_form_join [of "cs_Source s"]
  by (auto simp: validateRouteTokenClaimSource_def check_simps known_source_form)

text \<open>What an accepted profile guarantees to the token minter.\<close>

definition sound_profile :: "RouteTokenConfig \<Rightarrow> bool" where
  "sound_profile p \<longleftrightarrow>
     rp_Algorithm p = ''HS256'' \<and> \<not> Secret_IsEmpty (rp_Secret p) \<and>
     0 < rp_TTL p \<and> rp_TTL p \<le> rp_MaxTTL p \<and> 0 \<le> rp_Leeway p \<and>
     rp_OnMissingClaim p \<in> {''fail_closed'', ''omit''} \<and>
     (\<forall>(claim, s) \<in> set (rp_Claims p). trim_space claim \<noteq> [] \<and> validateRouteTokenClaimSource s = None)"

lemma validate_profile_None:
  "validate_profile name p = None \<longleftrightarrow> trim_space name \<noteq> [] \<and> (rp_Enabled p \<longrightarrow> sound_profile p)"
  by (auto simp: validate_profile_def sound_profile_def validate_claim_def check_simps case_prod_unfold)

lemma validateRouteTokens_None:
  "validateRouteTokens ts = None \<longleftrightarrow>
     (\<forall>(name, p) \<in> set ts. trim_space name \<noteq> [] \<and> (rp_Enabled p \<longrightarrow> sound_profile p))"
  by (auto simp: validateRouteTokens_def check_simps validate_profile_None)


definition demo_profile :: RouteTokenConfig where
  "demo_profile = profile_defaults
     \<lparr>rp_Enabled = True, rp_Algorithm = [], rp_Secret = Secret ''k'', rp_TTL = 0, rp_MaxTTL = 0, rp_Leeway = 0,
      rp_Issuer = [], rp_Audience = [], rp_OnMissingClaim = [], rp_StaticClaims = [],
      rp_Claims = [(''tg'', \<lparr>cs_Source = ''oauth.telegram.metadata.id'', cs_As = [], cs_Required = None\<rparr>)]\<rparr>"

lemma sound_demo_profile: "sound_profile demo_profile"
  by (simp add: sound_profile_def demo_profile_def profile_defaults_def claim_defaults_def Secret_IsEmpty_def
      default_str_def default_int_def validateRouteTokenClaimSource_def known_source_def known_parts_def fail_if_def
      trim_space_ascii byte_def)


end
