(* ===== verification/AuthnConfig.thy ===== *)
theory AuthnConfig
  imports RouteTokens
begin

text \<open>
  The configuration of csar-authn (\<open>authnconfig/config.go\<close>): the schema, the
  defaults block by block in the order \<open>LoadFromBytes\<close> applies them, and the
  whole of \<open>validate\<close>. \<open>uuid.Parse\<close> of the third-party package is the parameter
  \<open>uuid_ok\<close>; the YAML library enters through \<open>UnmarshalYAMLWithEnv\<close>.
\<close>

section \<open>Schema\<close>

record AuthzTLSConfig =
  azt_Enabled :: bool
  azt_CAFile :: string
  azt_CertFile :: string
  azt_KeyFile :: string

record AuthzConfig =
  az_Enabled :: bool
  az_Endpoint :: string
  az_TLS :: AuthzTLSConfig

record BotProviderInfo =
  bp_Provider :: string
  bp_BotUsername :: string

record BotVerifyConfig =
  bv_Enabled :: bool
  bv_CodeTTL :: int
  bv_MaxPendingPerIP :: int
  bv_AllowedProviders :: "string list"
  bv_Bots :: "BotProviderInfo list"

record EmailOTPConfig =
  eo_Enabled :: bool
  eo_CodeTTL :: int
  eo_MaxPendingPerIP :: int
  eo_MaxPendingPerEmail :: int
  eo_MaxAttempts :: int
  eo_Cooldown :: int
  eo_SenderAddress :: string
  eo_SenderName :: string
  eo_Subject :: string
  eo_Postbox :: PostboxConfig
  eo_Delivery :: "EmailConfig option"

definition EmailDelivery :: "EmailOTPConfig \<Rightarrow> EmailConfig" where
  "EmailDelivery c =
     (case eo_Delivery c of
        Some d \<Rightarrow> d
      | None \<Rightarrow> \<lparr>em_Provider = ''postbox'', em_Postbox = Some (eo_Postbox c), em_Selectel = None\<rparr>)"

record LegacyTelegramJWTConfig =
  tg_Enabled :: bool
  tg_HMACSecret :: string
  tg_Issuer :: string
  tg_Audience :: string
  tg_MaxTokenAge :: int
  tg_EndpointEnabledUntil :: int

record LegacyLoginConfig =
  ll_TelegramJWT :: LegacyTelegramJWTConfig

record LegacyUsersSyncApplyConfig =
  ap_Enabled :: bool
  ap_Actions :: "string list"
  ap_MaxLinks :: int
  ap_MaxCreates :: int

record LegacyUsersSyncConfig =
  lu_LockDatabaseDSN :: string
  lu_Enabled :: bool
  lu_AllowedSubjects :: "string list"
  lu_MaxUsers :: int
  lu_IdentityOverrides :: "(int \<times> string) list"
  lu_Apply :: LegacyUsersSyncApplyConfig

record BootstrapAccount =
  ba_Name :: string
  ba_PublicKeyPEM :: string
  ba_AllowedAudiences :: "string list"
  ba_AllowAllAudiences :: bool
  ba_TokenTTL :: int

record STSConfig =
  sts_Enabled :: bool
  sts_AssertionMaxAge :: int
  sts_Accounts :: "BootstrapAccount list"

record DatabaseConfig =
  dc_Driver :: string
  dc_DSN :: string

record JWTConfig =
  jc_PrivateKeyFile :: string
  jc_PublicKeyFile :: string
  jc_Algorithm :: string
  jc_Issuer :: string
  jc_Audience :: string
  jc_TTL :: int
  jc_AutoGenerate :: bool
  jc_KeyDir :: string

record ProviderConfig =
  pc_Name :: string
  pc_ClientID :: string
  pc_ClientSecret :: string
  pc_CallbackURL :: string
  pc_Scopes :: "string list"
  pc_Trusted :: bool

record OAuthConfig =
  oa_Enabled :: "bool option"
  oa_SessionSecret :: string
  oa_Providers :: "ProviderConfig list"

definition OAuthConfig_IsEnabled :: "OAuthConfig \<Rightarrow> bool" where
  "OAuthConfig_IsEnabled c \<longleftrightarrow> (case oa_Enabled c of None \<Rightarrow> True | Some b \<Rightarrow> b)"

record PasskeyConfig =
  pk_Enabled :: bool
  pk_RPID :: string
  pk_RPDisplayName :: string
  pk_Origins :: "string list"
  pk_ChallengeTTL :: int
  pk_StateCookieName :: string
  pk_UserVerification :: string
  pk_Attestation :: string
  pk_StateSecret :: string

record CookieConfig =
  ck_Name :: string
  ck_Domain :: string
  ck_Secure :: bool
  ck_SameSite :: string

record SessionConfig =
  ss_MaxAge :: int
  ss_IdleTimeout :: int
  ss_TouchThreshold :: int
  ss_CleanupInterval :: int

record QRLoginConfig =
  qr_TTL :: int
  qr_MaxPendingPerIP :: int
  qr_CleanupInterval :: int

record RedisConfig =
  rd_Address :: string
  rd_Password :: string
  rd_DB :: int

record AuthnConfig =
  an_ListenAddr :: string
  an_BaseURL :: string
  an_FrontendURL :: string
  an_AllowedRedirectOrigins :: "string list"
  an_TLS :: TLSSection
  an_Health :: HealthSection
  an_ProbeSidecar :: ProbeSidecarSection
  an_Log :: LogSection
  an_Database :: DatabaseConfig
  an_JWT :: JWTConfig
  an_OAuth :: OAuthConfig
  an_Passkeys :: PasskeyConfig
  an_Cookie :: CookieConfig
  an_Session :: SessionConfig
  an_QRLogin :: QRLoginConfig
  an_Redis :: "RedisConfig option"
  an_STS :: STSConfig
  an_Authz :: AuthzConfig
  an_Audit :: ServiceAuthConfig
  an_AuditOutboxEnabled :: bool
  an_StorageClient :: ServiceAuthConfig
  an_BotVerify :: "BotVerifyConfig option"
  an_EmailOTP :: "EmailOTPConfig option"
  an_LegacyLogin :: LegacyLoginConfig
  an_LegacyUsersSync :: LegacyUsersSyncConfig
  an_RouteTokens :: route_tokens

section \<open>Defaults\<close>

definition jwt_defaults :: "JWTConfig \<Rightarrow> JWTConfig" where
  "jwt_defaults j =
     j\<lparr>jc_Algorithm := default_str ''RS256'' (jc_Algorithm j),
       jc_TTL := default_int (24 * go_hour) (jc_TTL j),
       jc_KeyDir := default_str ''./keys'' (jc_KeyDir j)\<rparr>"

definition cookie_defaults :: "CookieConfig \<Rightarrow> CookieConfig" where
  "cookie_defaults c =
     c\<lparr>ck_Name := default_str ''csar_session'' (ck_Name c), ck_SameSite := default_str ''lax'' (ck_SameSite c)\<rparr>"

definition database_defaults :: "DatabaseConfig \<Rightarrow> DatabaseConfig" where
  "database_defaults d = d\<lparr>dc_Driver := default_str ''postgres'' (dc_Driver d)\<rparr>"

definition session_defaults :: "SessionConfig \<Rightarrow> SessionConfig" where
  "session_defaults s =
     s\<lparr>ss_MaxAge := default_int (30 * 24 * go_hour) (ss_MaxAge s),
       ss_IdleTimeout := default_int (7 * 24 * go_hour) (ss_IdleTimeout s),
       ss_TouchThreshold := default_int go_minute (ss_TouchThreshold s),
       ss_CleanupInterval := default_int go_hour (ss_CleanupInterval s)\<rparr>"

definition sync_apply_defaults :: "LegacyUsersSyncApplyConfig \<Rightarrow> LegacyUsersSyncApplyConfig" where
  "sync_apply_defaults a =
     a\<lparr>ap_MaxLinks := default_int 100 (ap_MaxLinks a), ap_MaxCreates := default_int 20 (ap_MaxCreates a)\<rparr>"

definition sync_defaults :: "LegacyUsersSyncConfig \<Rightarrow> LegacyUsersSyncConfig" where
  "sync_defaults s =
     s\<lparr>lu_MaxUsers := default_int 20000 (lu_MaxUsers s), lu_Apply := sync_apply_defaults (lu_Apply s)\<rparr>"

definition qr_defaults :: "QRLoginConfig \<Rightarrow> QRLoginConfig" where
  "qr_defaults q =
     q\<lparr>qr_TTL := default_int (2 * go_minute) (qr_TTL q),
       qr_MaxPendingPerIP := default_int 3 (qr_MaxPendingPerIP q),
       qr_CleanupInterval := default_int (5 * go_minute) (qr_CleanupInterval q)\<rparr>"

definition sts_defaults :: "STSConfig \<Rightarrow> STSConfig" where
  "sts_defaults s =
     (if sts_Enabled s then s\<lparr>sts_AssertionMaxAge := default_int (5 * go_minute) (sts_AssertionMaxAge s)\<rparr> else s)"

definition bot_defaults :: "BotVerifyConfig \<Rightarrow> BotVerifyConfig" where
  "bot_defaults b =
     (if bv_Enabled b then
        b\<lparr>bv_CodeTTL := default_int (5 * go_minute) (bv_CodeTTL b),
          bv_MaxPendingPerIP := default_int 3 (bv_MaxPendingPerIP b)\<rparr>
      else b)"

definition otp_defaults :: "EmailOTPConfig \<Rightarrow> EmailOTPConfig" where
  "otp_defaults e =
     (if eo_Enabled e then
        (let e1 = e\<lparr>eo_CodeTTL := default_int (5 * go_minute) (eo_CodeTTL e),
                    eo_MaxPendingPerIP := default_int 3 (eo_MaxPendingPerIP e),
                    eo_MaxPendingPerEmail := default_int 3 (eo_MaxPendingPerEmail e),
                    eo_MaxAttempts := default_int 5 (eo_MaxAttempts e),
                    eo_Cooldown := default_int go_minute (eo_Cooldown e),
                    eo_Subject := default_str ''Your AURUMSKYNET sign-in code'' (eo_Subject e)\<rparr>
         in case eo_Delivery e1 of
              None \<Rightarrow> e1\<lparr>eo_Postbox := Postbox_ApplyDefaults (eo_Postbox e1)\<rparr>
            | Some d \<Rightarrow> e1\<lparr>eo_Delivery := Some (Email_ApplyDefaults d)\<rparr>)
      else e)"

definition passkey_defaults :: "string \<Rightarrow> PasskeyConfig \<Rightarrow> PasskeyConfig" where
  "passkey_defaults session_secret p =
     p\<lparr>pk_ChallengeTTL := default_int (5 * go_minute) (pk_ChallengeTTL p),
       pk_StateCookieName := default_str ''csar_passkey_state'' (pk_StateCookieName p),
       pk_UserVerification := default_str ''required'' (pk_UserVerification p),
       pk_Attestation := default_str ''none'' (pk_Attestation p),
       pk_StateSecret := default_str session_secret (pk_StateSecret p)\<rparr>"

definition authn_defaults :: "AuthnConfig \<Rightarrow> AuthnConfig" where
  "authn_defaults c =
     c\<lparr>an_ListenAddr := default_str '':8081'' (an_ListenAddr c),
       an_JWT := jwt_defaults (an_JWT c),
       an_Cookie := cookie_defaults (an_Cookie c),
       an_Database := database_defaults (an_Database c),
       an_Session := session_defaults (an_Session c),
       an_LegacyUsersSync := sync_defaults (an_LegacyUsersSync c),
       an_QRLogin := qr_defaults (an_QRLogin c),
       an_STS := sts_defaults (an_STS c),
       an_BotVerify := map_option bot_defaults (an_BotVerify c),
       an_EmailOTP := map_option otp_defaults (an_EmailOTP c),
       an_Passkeys := passkey_defaults (oa_SessionSecret (an_OAuth c)) (an_Passkeys c),
       an_RouteTokens := applyRouteTokenDefaults (an_RouteTokens c),
       an_Health := HealthSection_WithDefaults (an_Health c)\<rparr>"

section \<open>Validation\<close>

definition LegacyLoginConfig_validate :: "LegacyLoginConfig \<Rightarrow> err" where
  "LegacyLoginConfig_validate c =
     (let tg = ll_TelegramJWT c in
      when_check (tg_Enabled tg)
       (first_error
         [fail_if (tg_HMACSecret tg = []) (New ''legacy_login.telegram_jwt.hmac_secret is required when enabled''),
          fail_if (tg_MaxTokenAge tg < 0)
            (New ''legacy_login.telegram_jwt.max_token_age must be greater than or equal to zero'')]))"

definition LegacyUsersSyncConfig_validate :: "(string \<Rightarrow> bool) \<Rightarrow> LegacyUsersSyncConfig \<Rightarrow> err" where
  "LegacyUsersSyncConfig_validate uuid_ok c =
     when_check (lu_Enabled c)
      (first_error
        [fail_if (lu_AllowedSubjects c = []) (New ''legacy_users_sync.allowed_subjects is required when enabled''),
         each_check (\<lambda>subject. fail_if (\<not> has_prefix subject ''svc:'')
            (Errorf ''legacy_users_sync.allowed_subjects: %q is not a service subject'' [ArgS subject]))
           (lu_AllowedSubjects c),
         fail_if (lu_MaxUsers c < 0) (New ''legacy_users_sync.max_users must be greater than zero''),
         each_check (\<lambda>(legacyID, userID). fail_if (\<not> uuid_ok userID)
            (Errorf ''legacy_users_sync.identity_overrides[%d]: %q is not a user id'' [ArgD legacyID, ArgS userID]))
           (lu_IdentityOverrides c),
         fail_if (ap_MaxLinks (lu_Apply c) < 0 \<or> ap_MaxCreates (lu_Apply c) < 0)
           (New ''legacy_users_sync.apply caps must not be negative''),
         each_check (\<lambda>action. fail_if (action \<noteq> ''link'' \<and> action \<noteq> ''create'')
            (Errorf ''legacy_users_sync.apply.actions: unknown action %q'' [ArgS action]))
           (ap_Actions (lu_Apply c))])"

definition legacy_postbox_set :: "PostboxConfig \<Rightarrow> bool" where
  "legacy_postbox_set p \<longleftrightarrow>
     pb_Endpoint p \<noteq> [] \<or> pb_Region p \<noteq> [] \<or> ya_AuthMode (pb_Auth p) \<noteq> [] \<or> ya_SAKeyFile (pb_Auth p) \<noteq> []
     \<or> \<not> Secret_IsEmpty (ya_IAMToken (pb_Auth p)) \<or> \<not> Secret_IsEmpty (ya_OAuthToken (pb_Auth p))
     \<or> \<not> Secret_IsEmpty (ya_AccessKeyID (pb_Auth p)) \<or> \<not> Secret_IsEmpty (ya_SecretAccessKey (pb_Auth p))"

definition EmailOTPConfig_validate :: "EmailOTPConfig option \<Rightarrow> err" where
  "EmailOTPConfig_validate oc =
     (case oc of
        None \<Rightarrow> None
      | Some c \<Rightarrow>
          when_check (eo_Enabled c)
           (first_error
             [fail_if (eo_CodeTTL c \<le> 0) (New ''email_otp.code_ttl must be greater than zero''),
              fail_if (eo_MaxPendingPerIP c \<le> 0) (New ''email_otp.max_pending_per_ip must be greater than zero''),
              fail_if (eo_MaxPendingPerEmail c \<le> 0) (New ''email_otp.max_pending_per_email must be greater than zero''),
              fail_if (eo_MaxAttempts c \<le> 0) (New ''email_otp.max_attempts must be greater than zero''),
              fail_if (eo_Cooldown c < 0) (New ''email_otp.cooldown must be greater than or equal to zero''),
              fail_if (eo_SenderAddress c = []) (New ''email_otp.sender_address is required when enabled''),
              fail_if (eo_Subject c = []) (New ''email_otp.subject is required when enabled''),
              (case eo_Delivery c of
                 Some d \<Rightarrow>
                   first_error
                    [fail_if (legacy_postbox_set (eo_Postbox c))
                       (New ''email_otp.postbox and email_otp.delivery cannot both be configured''),
                     Email_Validate ''email_otp.delivery'' d]
               | None \<Rightarrow> Email_Validate ''email_otp'' (EmailDelivery c))]))"

definition oauth_providers_check :: "OAuthConfig \<Rightarrow> err" where
  "oauth_providers_check o' =
     when_check (OAuthConfig_IsEnabled o')
      (first_error
        [fail_if (oa_Providers o' = []) (New ''at least one oauth provider is required''),
         range_check (\<lambda>i p. first_error
           [fail_if (pc_Name p = []) (Errorf ''oauth.providers[%d].name is required'' [ArgD (int i)]),
            fail_if (pc_ClientID p = []) (Errorf ''oauth.providers[%d].client_id is required'' [ArgD (int i)]),
            fail_if (pc_ClientSecret p = []) (Errorf ''oauth.providers[%d].client_secret is required'' [ArgD (int i)])])
           (oa_Providers o')])"

definition passkeys_check :: "PasskeyConfig \<Rightarrow> err" where
  "passkeys_check p =
     when_check (pk_Enabled p)
      (first_error
        [fail_if (pk_RPID p = []) (New ''passkeys.rp_id is required when passkeys are enabled''),
         fail_if (pk_RPDisplayName p = []) (New ''passkeys.rp_display_name is required when passkeys are enabled''),
         fail_if (pk_Origins p = []) (New ''passkeys.origins must contain at least one origin when passkeys are enabled''),
         fail_if (pk_UserVerification p \<notin> {''required'', ''preferred'', ''discouraged''})
           (New ''passkeys.user_verification must be required, preferred, or discouraged''),
         fail_if (pk_Attestation p \<notin> {''none'', ''indirect'', ''direct'', ''enterprise''})
           (New ''passkeys.attestation must be none, indirect, direct, or enterprise''),
         fail_if (pk_StateSecret p = []) (New ''passkeys.state_secret resolved empty'')])"

definition qr_check :: "QRLoginConfig \<Rightarrow> err" where
  "qr_check q =
     first_error
      [fail_if (qr_TTL q \<le> 0) (New ''qr_login.ttl must be greater than zero''),
       fail_if (qr_MaxPendingPerIP q \<le> 0) (New ''qr_login.max_pending_per_ip must be greater than zero''),
       fail_if (qr_CleanupInterval q \<le> 0) (New ''qr_login.cleanup_interval must be greater than zero'')]"

definition authn_validate :: "(string \<Rightarrow> bool) \<Rightarrow> AuthnConfig \<Rightarrow> err" where
  "authn_validate uuid_ok c =
     first_error
      [TLSSection_Validate (an_TLS c),
       LogSection_Validate (an_Log c),
       fail_if (dc_DSN (an_Database c) = []) (New ''database.dsn is required''),
       fail_if (an_BaseURL c = []) (New ''base_url is required''),
       fail_if (OAuthConfig_IsEnabled (an_OAuth c) \<and> oa_SessionSecret (an_OAuth c) = [])
         (New ''oauth.session_secret is required''),
       fail_if (an_AuditOutboxEnabled c \<and>
                (dc_Driver (an_Database c) \<noteq> ''postgres'' \<or> \<not> ServiceAuthConfig_IsConfigured (an_Audit c)))
         (New ''audit_outbox_enabled requires PostgreSQL and configured audit STS transport''),
       ServiceAuthConfig_Validate (an_Audit c),
       ServiceAuthConfig_Validate (an_StorageClient c),
       oauth_providers_check (an_OAuth c),
       fail_if (jc_Algorithm (an_JWT c) \<notin> {''RS256'', ''EdDSA''})
         (Errorf ''jwt.algorithm must be RS256 or EdDSA, got %q'' [ArgS (jc_Algorithm (an_JWT c))]),
       passkeys_check (an_Passkeys c),
       qr_check (an_QRLogin c),
       LegacyLoginConfig_validate (an_LegacyLogin c),
       LegacyUsersSyncConfig_validate uuid_ok (an_LegacyUsersSync c),
       fail_if (dc_Driver (an_Database c) = ''postgres'' \<and> lu_Enabled (an_LegacyUsersSync c)
                \<and> ap_Enabled (lu_Apply (an_LegacyUsersSync c))
                \<and> trim_space (lu_LockDatabaseDSN (an_LegacyUsersSync c)) = [])
         (New ''legacy_users_sync.lock_database_dsn is required for PostgreSQL apply (session pooling or direct connection)''),
       EmailOTPConfig_validate (an_EmailOTP c),
       validateRouteTokens (an_RouteTokens c)]"

section \<open>Loading\<close>

definition authn_LoadFromBytes ::
  "(string \<Rightarrow> (nat \<times> ystore) res) \<Rightarrow> (nat \<Rightarrow> ystore \<Rightarrow> AuthnConfig res) \<Rightarrow> (string \<Rightarrow> bool) \<Rightarrow>
   nat \<Rightarrow> envmap \<Rightarrow> string \<Rightarrow> AuthnConfig res option" where
  "authn_LoadFromBytes unmarshal decode uuid_ok fuel env data =
     map_option (finish_load authn_defaults (authn_validate uuid_ok))
       (UnmarshalYAMLWithEnv unmarshal decode fuel env data)"

section \<open>Properties\<close>

lemma block_defaults_idem [simp]:
  "jwt_defaults (jwt_defaults j) = jwt_defaults j"
  "cookie_defaults (cookie_defaults k) = cookie_defaults k"
  "database_defaults (database_defaults d) = database_defaults d"
  "session_defaults (session_defaults s) = session_defaults s"
  "sync_apply_defaults (sync_apply_defaults a) = sync_apply_defaults a"
  "qr_defaults (qr_defaults q) = qr_defaults q"
  "sts_defaults (sts_defaults t) = sts_defaults t"
  "bot_defaults (bot_defaults b) = bot_defaults b"
  "passkey_defaults x (passkey_defaults x p) = passkey_defaults x p"
  by (simp_all add: jwt_defaults_def cookie_defaults_def database_defaults_def session_defaults_def
      sync_apply_defaults_def qr_defaults_def sts_defaults_def bot_defaults_def passkey_defaults_def)

lemma sync_defaults_idem [simp]: "sync_defaults (sync_defaults s) = sync_defaults s"
  by (simp add: sync_defaults_def)

lemma otp_defaults_idem [simp]: "otp_defaults (otp_defaults e) = otp_defaults e"
  by (cases "eo_Delivery e") (simp_all add: otp_defaults_def Let_def)

lemma authn_defaults_idem: "authn_defaults (authn_defaults c) = authn_defaults c"
  by (simp add: authn_defaults_def option.map_comp comp_def)

interpretation authn: defaulted_config authn_defaults "authn_validate uuid_ok" for uuid_ok
  by unfold_locales (rule authn_defaults_idem)

lemma authn_LoadFromBytes_finish:
  assumes "authn_LoadFromBytes unmarshal decode uuid_ok fuel env data = Some (Inr c)"
  shows "\<exists>r. finish_load authn_defaults (authn_validate uuid_ok) r = Inr c"
  using assms by (auto simp: authn_LoadFromBytes_def)


definition blank_authn :: AuthnConfig where
  "blank_authn =
     \<lparr>an_ListenAddr = [], an_BaseURL = ''https://auth.example'', an_FrontendURL = [], an_AllowedRedirectOrigins = [],
      an_TLS = \<lparr>tls_CertFile = [], tls_KeyFile = [], tls_ClientCAFile = [], tls_MinVersion = []\<rparr>,
      an_Health = \<lparr>hl_Enabled = False, hl_LivenessPath = [], hl_ReadinessPath = []\<rparr>,
      an_ProbeSidecar = \<lparr>probe_Addr = []\<rparr>,
      an_Log = \<lparr>log_Level = [], log_Format = [], log_Redact = False\<rparr>,
      an_Database = \<lparr>dc_Driver = [], dc_DSN = ''postgres://db''\<rparr>,
      an_JWT = \<lparr>jc_PrivateKeyFile = [], jc_PublicKeyFile = [], jc_Algorithm = [], jc_Issuer = [], jc_Audience = [],
                jc_TTL = 0, jc_AutoGenerate = True, jc_KeyDir = []\<rparr>,
      an_OAuth = \<lparr>oa_Enabled = Some False, oa_SessionSecret = [], oa_Providers = []\<rparr>,
      an_Passkeys = \<lparr>pk_Enabled = False, pk_RPID = [], pk_RPDisplayName = [], pk_Origins = [], pk_ChallengeTTL = 0,
                     pk_StateCookieName = [], pk_UserVerification = [], pk_Attestation = [], pk_StateSecret = []\<rparr>,
      an_Cookie = \<lparr>ck_Name = [], ck_Domain = [], ck_Secure = True, ck_SameSite = []\<rparr>,
      an_Session = \<lparr>ss_MaxAge = 0, ss_IdleTimeout = 0, ss_TouchThreshold = 0, ss_CleanupInterval = 0\<rparr>,
      an_QRLogin = \<lparr>qr_TTL = 0, qr_MaxPendingPerIP = 0, qr_CleanupInterval = 0\<rparr>,
      an_Redis = None,
      an_STS = \<lparr>sts_Enabled = False, sts_AssertionMaxAge = 0, sts_Accounts = []\<rparr>,
      an_Authz = \<lparr>az_Enabled = False, az_Endpoint = [],
                  az_TLS = \<lparr>azt_Enabled = False, azt_CAFile = [], azt_CertFile = [], azt_KeyFile = []\<rparr>\<rparr>,
      an_Audit = blank_service_auth, an_AuditOutboxEnabled = False, an_StorageClient = blank_service_auth,
      an_BotVerify = None, an_EmailOTP = None,
      an_LegacyLogin = \<lparr>ll_TelegramJWT = \<lparr>tg_Enabled = False, tg_HMACSecret = [], tg_Issuer = [], tg_Audience = [],
                         tg_MaxTokenAge = 0, tg_EndpointEnabledUntil = 0\<rparr>\<rparr>,
      an_LegacyUsersSync = \<lparr>lu_LockDatabaseDSN = [], lu_Enabled = False, lu_AllowedSubjects = [], lu_MaxUsers = 0,
                            lu_IdentityOverrides = [],
                            lu_Apply = \<lparr>ap_Enabled = False, ap_Actions = [], ap_MaxLinks = 0, ap_MaxCreates = 0\<rparr>\<rparr>,
      an_RouteTokens = [(''legacy'', demo_profile)]\<rparr>"

lemma authn_validate_blank: "authn_validate uuid_ok (authn_defaults blank_authn) = None"
proof -
  have "validateRouteTokens (applyRouteTokenDefaults [(''legacy'', demo_profile)]) = None"
    using sound_demo_profile
    by (simp add: validateRouteTokens_None applyRouteTokenDefaults_def demo_profile_def trim_space_ascii byte_def)
  moreover have "ServiceAuthConfig_Validate blank_service_auth = None"
    by (simp add: ServiceAuthConfig_Validate_None service_auth_blank_def requiredFields_def blank_service_auth_def)
  ultimately show ?thesis
    by (simp add: authn_validate_def authn_defaults_def blank_authn_def TLSSection_Validate_def LogSection_Validate_def
        oauth_providers_check_def passkeys_check_def qr_check_def LegacyLoginConfig_validate_def
        LegacyUsersSyncConfig_validate_def EmailOTPConfig_validate_def OAuthConfig_IsEnabled_def
        jwt_defaults_def database_defaults_def qr_defaults_def passkey_defaults_def sync_defaults_def
        sync_apply_defaults_def default_str_def default_int_def fail_if_def when_check_def)
qed

lemma authn_load_blank:
  "authn_LoadFromBytes (\<lambda>_. Inr (0, Map.empty)) (\<lambda>_ _. Inr blank_authn) uuid_ok 1 env data
     = Some (Inr (authn_defaults blank_authn))"
  using authn_validate_blank [of uuid_ok]
  by (simp add: authn_LoadFromBytes_def UnmarshalYAMLWithEnv_def wrap_res_def finish_load_def)


lemma authn_validate_None:
  assumes "authn_validate uuid_ok c = None"
  shows "an_BaseURL c \<noteq> [] \<and> dc_DSN (an_Database c) \<noteq> []"
    "jc_Algorithm (an_JWT c) \<in> {''RS256'', ''EdDSA''}"
    "OAuthConfig_IsEnabled (an_OAuth c) \<Longrightarrow> oa_SessionSecret (an_OAuth c) \<noteq> []"
    "oauth_providers_check (an_OAuth c) = None"
    "passkeys_check (an_Passkeys c) = None"
    "an_AuditOutboxEnabled c \<Longrightarrow> dc_Driver (an_Database c) = ''postgres'' \<and> ServiceAuthConfig_IsConfigured (an_Audit c)"
    "ServiceAuthConfig_Validate (an_Audit c) = None"
    "LegacyUsersSyncConfig_validate uuid_ok (an_LegacyUsersSync c) = None"
    "EmailOTPConfig_validate (an_EmailOTP c) = None"
    "validateRouteTokens (an_RouteTokens c) = None"
  using assms unfolding authn_validate_def first_error_Cons_None fail_if_None by blast+

lemma oauth_providers_check_None:
  assumes "oauth_providers_check ac = None" "OAuthConfig_IsEnabled ac"
  shows "oa_Providers ac \<noteq> []" "\<forall>p \<in> set (oa_Providers ac). pc_Name p \<noteq> [] \<and> pc_ClientID p \<noteq> [] \<and> pc_ClientSecret p \<noteq> []"
  using assms by (auto simp: oauth_providers_check_def check_simps in_set_conv_nth)

lemma passkeys_check_None:
  "passkeys_check p = None \<Longrightarrow> pk_Enabled p \<Longrightarrow>
     pk_RPID p \<noteq> [] \<and> pk_Origins p \<noteq> [] \<and> pk_StateSecret p \<noteq> []"
  by (auto simp: passkeys_check_def check_simps)

lemma sync_validate_None:
  "LegacyUsersSyncConfig_validate uuid_ok s = None \<Longrightarrow> lu_Enabled s \<Longrightarrow>
     lu_AllowedSubjects s \<noteq> [] \<and> (\<forall>x \<in> set (lu_AllowedSubjects s). has_prefix x ''svc:'') \<and>
     (\<forall>(i, u) \<in> set (lu_IdentityOverrides s). uuid_ok u)"
  by (auto simp: LegacyUsersSyncConfig_validate_def check_simps)



end
