(* ===== verification/AuthzConfigs.thy ===== *)
theory AuthzConfigs
  imports ConfigSections
begin

text \<open>
  The configuration of csar-authz (\<open>authzconfig/config.go\<close>): schema, defaults,
  and validation with its running set of role names. What is shown: a loaded
  policy has distinct role names, its inheritance has no cycle among different
  roles, and every role named elsewhere is defined. A role that lists itself as
  its parent is accepted, although the error text rules it out.
\<close>

section \<open>Schema\<close>

record AdminConfig =
  ad_Enabled :: bool
  ad_Addr :: string
  ad_TLS :: TLSSection
  ad_AllowedClientCN :: string
  ad_DelegatableRoles :: "string list"
  ad_AuditRequired :: bool
  ad_ServiceAssignableRoles :: "string list"

record StoreConfig =
  so_Backend :: string
  so_DSN :: string

record GRPCConfig =
  gr_Reflection :: bool

record JWTAuthnConfig =
  ja_Enabled :: bool
  ja_JWKSURL :: string
  ja_PublicKeyFile :: string
  ja_Issuer :: string
  ja_Audience :: string
  ja_ClockSkew :: int
  ja_SubjectClaim :: string
  ja_CacheTTL :: int
  ja_JWKSTLS :: TLSSection

record PermissionConfig =
  pm_Resource :: string
  pm_Action :: string

record RoleConfig =
  ro_Name :: string
  ro_Description :: string
  ro_Parents :: "string list"
  ro_Permissions :: "PermissionConfig list"

record AssignmentConfig =
  as_Subject :: string
  as_Roles :: "string list"
  as_ScopeType :: string
  as_ScopeID :: string

record PolicyConfig =
  po_Roles :: "RoleConfig list"
  po_Assignments :: "AssignmentConfig list"

record BootstrapAssignment =
  bs_Subject :: string
  bs_Role :: string
  bs_ScopeType :: string
  bs_ScopeID :: string

record AuthzServiceConfig =
  zc_ListenAddr :: string
  zc_TLS :: TLSSection
  zc_Health :: HealthSection
  zc_ProbeSidecar :: ProbeSidecarSection
  zc_GRPC :: GRPCConfig
  zc_Authn :: JWTAuthnConfig
  zc_Store :: StoreConfig
  zc_Policy :: PolicyConfig
  zc_Admin :: AdminConfig
  zc_Audit :: ServiceAuthConfig
  zc_AuditOutboxEnabled :: bool
  zc_BootstrapAssignments :: "BootstrapAssignment list"

section \<open>Defaults\<close>

definition admin_defaults :: "AdminConfig \<Rightarrow> AdminConfig" where
  "admin_defaults a = (if ad_Enabled a then a\<lparr>ad_Addr := default_str '':9092'' (ad_Addr a)\<rparr> else a)"

definition jwt_authn_defaults :: "JWTAuthnConfig \<Rightarrow> JWTAuthnConfig" where
  "jwt_authn_defaults a =
     (let b = a\<lparr>ja_SubjectClaim := default_str ''sub'' (ja_SubjectClaim a)\<rparr>
      in if ja_Enabled b then
           b\<lparr>ja_ClockSkew := default_int (30 * go_second) (ja_ClockSkew b),
             ja_CacheTTL := default_int (5 * go_minute) (ja_CacheTTL b)\<rparr>
         else b)"

definition applyDefaults :: "AuthzServiceConfig \<Rightarrow> AuthzServiceConfig" where
  "applyDefaults c =
     c\<lparr>zc_ListenAddr := default_str '':9090'' (zc_ListenAddr c),
       zc_ProbeSidecar := ProbeSidecarSection_WithDefault '':9091'' (zc_ProbeSidecar c),
       zc_Health := HealthSection_WithDefaults (zc_Health c),
       zc_Store := (zc_Store c)\<lparr>so_Backend := default_str ''memory'' (so_Backend (zc_Store c))\<rparr>,
       zc_Admin := admin_defaults (zc_Admin c),
       zc_Authn := jwt_authn_defaults (zc_Authn c)\<rparr>"

section \<open>Validation\<close>

text \<open>One pass of the loop over the roles; \<open>names\<close> are the names of the roles before this one.\<close>

definition role_check :: "nat \<Rightarrow> string list \<Rightarrow> RoleConfig \<Rightarrow> err" where
  "role_check i names r =
     first_error
      [fail_if (ro_Name r = []) (Errorf ''policy.roles[%d].name is required'' [ArgD (int i)]),
       fail_if (ro_Name r \<in> set names)
         (Errorf ''policy.roles[%d]: duplicate role name %q'' [ArgD (int i), ArgS (ro_Name r)]),
       each_check (\<lambda>parent. fail_if (parent \<notin> set (ro_Name r # names))
          (Errorf ''policy.roles[%d] (%q): parent %q not defined (must appear earlier in the list)''
             [ArgD (int i), ArgS (ro_Name r), ArgS parent])) (ro_Parents r),
       range_check (\<lambda>j p. first_error
         [fail_if (pm_Resource p = [])
            (Errorf ''policy.roles[%d].permissions[%d].resource is required'' [ArgD (int i), ArgD (int j)]),
          fail_if (pm_Action p = [])
            (Errorf ''policy.roles[%d].permissions[%d].action is required'' [ArgD (int i), ArgD (int j)])])
         (ro_Permissions r)]"

fun role_loop :: "nat \<Rightarrow> string list \<Rightarrow> RoleConfig list \<Rightarrow> string list res" where
  "role_loop i names [] = Inr names"
| "role_loop i names (r # rs) =
     (case role_check i names r of
        Some e \<Rightarrow> Inl e
      | None \<Rightarrow> role_loop (Suc i) (ro_Name r # names) rs)"

definition authn_source_check :: "JWTAuthnConfig \<Rightarrow> err" where
  "authn_source_check a =
     when_check (ja_Enabled a)
      (first_error
        [fail_if (ja_JWKSURL a = [] \<and> ja_PublicKeyFile a = [])
           (New ''authn: one of jwks_url or public_key_file is required when enabled''),
         fail_if (ja_JWKSURL a \<noteq> [] \<and> ja_PublicKeyFile a \<noteq> [])
           (New ''authn: specify only one of jwks_url or public_key_file'')])"

definition authz_validate :: "AuthzServiceConfig \<Rightarrow> err" where
  "authz_validate c =
     (case TLSSection_Validate (zc_TLS c) of
        Some e \<Rightarrow> Some e
      | None \<Rightarrow>
          (case role_loop 0 [] (po_Roles (zc_Policy c)) of
             Inl e \<Rightarrow> Some e
           | Inr roleNames \<Rightarrow>
               first_error
                [fail_if (po_Assignments (zc_Policy c) \<noteq> [])
                   (New (''policy.assignments is no longer supported; '' @
                         ''assignments are now runtime-managed via the admin API or --bootstrap-admin'')),
                 range_check (\<lambda>i role. first_error
                   [fail_if (role = []) (Errorf ''admin.service_assignable_roles[%d] is empty'' [ArgD (int i)]),
                    fail_if (role \<notin> set roleNames)
                      (Errorf ''admin.service_assignable_roles[%d]: role %q is not defined in policy.roles''
                         [ArgD (int i), ArgS role])])
                   (ad_ServiceAssignableRoles (zc_Admin c)),
                 range_check (\<lambda>i ba. first_error
                   [fail_if (bs_Subject ba = []) (Errorf ''bootstrap_assignments[%d].subject is required'' [ArgD (int i)]),
                    fail_if (bs_Role ba = []) (Errorf ''bootstrap_assignments[%d].role is required'' [ArgD (int i)]),
                    fail_if (bs_Role ba \<notin> set roleNames)
                      (Errorf ''bootstrap_assignments[%d]: role %q is not defined in policy.roles''
                         [ArgD (int i), ArgS (bs_Role ba)]),
                    fail_if (bs_ScopeType ba = []) (Errorf ''bootstrap_assignments[%d].scope_type is required'' [ArgD (int i)])])
                   (zc_BootstrapAssignments c),
                 fail_if (so_Backend (zc_Store c) \<notin> {''memory'', ''postgres''})
                   (Errorf ''store.backend: must be \"memory\" or \"postgres\", got %q'' [ArgS (so_Backend (zc_Store c))]),
                 fail_if (so_Backend (zc_Store c) = ''postgres'' \<and> so_DSN (zc_Store c) = [])
                   (New ''store.dsn is required when store.backend is \"postgres\"''),
                 authn_source_check (zc_Authn c),
                 fail_if (zc_AuditOutboxEnabled c \<and>
                          (so_Backend (zc_Store c) \<noteq> ''postgres'' \<or> \<not> ServiceAuthConfig_IsConfigured (zc_Audit c)))
                   (New ''audit_outbox_enabled requires PostgreSQL and configured audit STS transport''),
                 ServiceAuthConfig_Validate (zc_Audit c)]))"

definition authz_LoadFromBytes ::
  "(string \<Rightarrow> (nat \<times> ystore) res) \<Rightarrow> (nat \<Rightarrow> ystore \<Rightarrow> AuthzServiceConfig res) \<Rightarrow>
   nat \<Rightarrow> envmap \<Rightarrow> string \<Rightarrow> AuthzServiceConfig res option" where
  "authz_LoadFromBytes unmarshal decode fuel env data =
     map_option (finish_load applyDefaults authz_validate)
       (UnmarshalYAMLWithEnv unmarshal decode fuel env data)"

section \<open>Properties\<close>

lemma admin_defaults_idem [simp]: "admin_defaults (admin_defaults a) = admin_defaults a"
  by (simp add: admin_defaults_def)

lemma jwt_authn_defaults_idem [simp]: "jwt_authn_defaults (jwt_authn_defaults a) = jwt_authn_defaults a"
  by (simp add: jwt_authn_defaults_def Let_def)

lemma applyDefaults_idem: "applyDefaults (applyDefaults c) = applyDefaults c"
  by (simp add: applyDefaults_def)

interpretation authz: defaulted_config applyDefaults authz_validate
  by unfold_locales (rule applyDefaults_idem)

text \<open>Inheritance between different roles of a policy.\<close>

definition inherits :: "RoleConfig list \<Rightarrow> (string \<times> string) set" where
  "inherits rs = {(p, ro_Name r) | p r. r \<in> set rs \<and> p \<in> set (ro_Parents r) \<and> p \<noteq> ro_Name r}"

lemma inherits_simps [simp]:
  "inherits [] = {}"
  "inherits (r # rs) = (\<lambda>p. (p, ro_Name r)) ` {p \<in> set (ro_Parents r). p \<noteq> ro_Name r} \<union> inherits rs"
  by (auto simp: inherits_def)

text \<open>
  The state of the loop: the names seen are those of the roles before, without
  repetition, and each role's parents are itself or earlier.
\<close>

lemma role_check_None:
  assumes "role_check i names r = None"
  shows "ro_Name r \<noteq> []" "ro_Name r \<notin> set names" "set (ro_Parents r) \<subseteq> insert (ro_Name r) (set names)"
  using assms by (auto simp: role_check_def check_simps)

lemma role_loop_Inr:
  "role_loop i names rs = Inr out \<Longrightarrow> distinct names \<Longrightarrow>
     out = rev (map ro_Name rs) @ names \<and> distinct out \<and>
     (\<forall>k < length rs. set (ro_Parents (rs ! k)) \<subseteq> set names \<union> ro_Name ` set (take (Suc k) rs))"
proof (induction i names rs rule: role_loop.induct)
  case (2 i names r rs)
  then have c: "role_check i names r = None"
    by (auto split: option.splits)
  note rc = role_check_None [OF c]
  have "role_loop (Suc i) (ro_Name r # names) rs = Inr out" using 2(2) c by simp
  then have IH: "out = rev (map ro_Name rs) @ ro_Name r # names" "distinct out"
    "\<forall>k < length rs. set (ro_Parents (rs ! k)) \<subseteq> set (ro_Name r # names) \<union> ro_Name ` set (take (Suc k) rs)"
    using 2(1) [OF c] 2(3) rc(2) by (metis distinct.simps(2))+
  have "set (ro_Parents ((r # rs) ! k)) \<subseteq> set names \<union> ro_Name ` set (take (Suc k) (r # rs))"
    if "k < length (r # rs)" for k
    using that rc(3) IH(3) by (cases k) auto
  moreover have "out = rev (map ro_Name (r # rs)) @ names" using IH(1) by simp
  ultimately show ?case using IH(2) by blast
qed auto

lemma inherits_acyclic:
  assumes d: "distinct (map ro_Name rs)"
    and par: "\<forall>k < length rs. set (ro_Parents (rs ! k)) \<subseteq> ro_Name ` set (take (Suc k) rs)"
  shows "acyclic (inherits rs)"
proof -
  let ?ns = "map ro_Name rs"
  define pos where "pos n = (LEAST i. i < length rs \<and> ?ns ! i = n)" for n
  have pos: "pos (ro_Name (rs ! i)) = i" if i: "i < length rs" for i
    unfolding pos_def
  proof (rule Least_equality)
    show "i < length rs \<and> ?ns ! i = ro_Name (rs ! i)" using i by simp
    show "i \<le> y" if "y < length rs \<and> ?ns ! y = ro_Name (rs ! i)" for y
      using nth_eq_iff_index_eq [OF d, of y i] that i by simp
  qed
  have "inherits rs \<subseteq> measure pos"
  proof
    fix e assume "e \<in> inherits rs"
    then obtain p r k where e: "e = (p, ro_Name r)" "p \<in> set (ro_Parents r)" "p \<noteq> ro_Name r" "k < length rs" "r = rs ! k"
      by (auto simp: inherits_def in_set_conv_nth)
    then have "p \<in> ro_Name ` set (take (Suc k) rs)" using par by blast
    then obtain j where j: "j < Suc k" "p = ro_Name (rs ! j)"
      using e(4) by (auto simp: in_set_conv_nth)
    with e have "j \<noteq> k" by blast
    with j(1) have "j < k" by simp
    with j e pos [of j] pos [of k] show "e \<in> measure pos" by simp
  qed
  then show ?thesis using wf_acyclic wf_subset wf_measure by metis
qed

lemma authz_validate_roles:
  assumes "authz_validate c = None"
  shows "\<exists>names. role_loop 0 [] (po_Roles (zc_Policy c)) = Inr names"
  using assms by (auto simp: authz_validate_def split: option.splits sum.splits)

text \<open>
  C12: In an accepted csar-authz policy role names are distinct, every parent is
  defined at or before its role, and inheritance between different roles is
  acyclic, so resolving inherited permissions terminates.
\<close>

theorem authz_roles_acyclic:
  assumes "authz_validate c = None"
  shows "distinct (map ro_Name (po_Roles (zc_Policy c))) \<and>
    (\<forall>k < length (po_Roles (zc_Policy c)).
       set (ro_Parents (po_Roles (zc_Policy c) ! k)) \<subseteq> ro_Name ` set (take (Suc k) (po_Roles (zc_Policy c)))) \<and>
    acyclic (inherits (po_Roles (zc_Policy c)))"
proof -
  obtain names where "role_loop 0 [] (po_Roles (zc_Policy c)) = Inr names"
    using authz_validate_roles [OF assms] by blast
  from role_loop_Inr [OF this] have d: "distinct (map ro_Name (po_Roles (zc_Policy c)))"
    and p: "\<forall>k < length (po_Roles (zc_Policy c)).
       set (ro_Parents (po_Roles (zc_Policy c) ! k)) \<subseteq> ro_Name ` set (take (Suc k) (po_Roles (zc_Policy c)))"
    by auto
  with inherits_acyclic [OF d p] show ?thesis by blast
qed

definition demo_authz :: "RoleConfig list \<Rightarrow> AuthzServiceConfig" where
  "demo_authz roles = applyDefaults
     \<lparr>zc_ListenAddr = [], zc_TLS = \<lparr>tls_CertFile = [], tls_KeyFile = [], tls_ClientCAFile = [], tls_MinVersion = ''1.3''\<rparr>,
      zc_Health = \<lparr>hl_Enabled = True, hl_LivenessPath = [], hl_ReadinessPath = []\<rparr>, zc_ProbeSidecar = \<lparr>probe_Addr = []\<rparr>,
      zc_GRPC = \<lparr>gr_Reflection = False\<rparr>,
      zc_Authn = \<lparr>ja_Enabled = True, ja_JWKSURL = ''https://authn/jwks'', ja_PublicKeyFile = [], ja_Issuer = [], ja_Audience = [],
                  ja_ClockSkew = 0, ja_SubjectClaim = [], ja_CacheTTL = 0,
                  ja_JWKSTLS = \<lparr>tls_CertFile = [], tls_KeyFile = [], tls_ClientCAFile = [], tls_MinVersion = []\<rparr>\<rparr>,
      zc_Store = \<lparr>so_Backend = [], so_DSN = []\<rparr>, zc_Policy = \<lparr>po_Roles = roles, po_Assignments = []\<rparr>,
      zc_Admin = \<lparr>ad_Enabled = True, ad_Addr = [], ad_TLS = \<lparr>tls_CertFile = [], tls_KeyFile = [], tls_ClientCAFile = [], tls_MinVersion = []\<rparr>,
                  ad_AllowedClientCN = [], ad_DelegatableRoles = [], ad_AuditRequired = False, ad_ServiceAssignableRoles = [''admin'']\<rparr>,
      zc_Audit = blank_service_auth, zc_AuditOutboxEnabled = False,
      zc_BootstrapAssignments = [\<lparr>bs_Subject = ''svc:authn'', bs_Role = ''admin'', bs_ScopeType = ''global'', bs_ScopeID = []\<rparr>]\<rparr>"

definition demo_role :: "string \<Rightarrow> string list \<Rightarrow> RoleConfig" where
  "demo_role n ps = \<lparr>ro_Name = n, ro_Description = [], ro_Parents = ps, ro_Permissions = [\<lparr>pm_Resource = ''*'', pm_Action = ''read''\<rparr>]\<rparr>"

lemmas demo_authz_defs = authz_validate_def demo_authz_def demo_role_def applyDefaults_def admin_defaults_def
  jwt_authn_defaults_def TLSSection_Validate_def role_check_def authn_source_check_def fail_if_def when_check_def
  each_check_def range_check_def default_str_def default_int_def

lemma blank_service_auth_valid: "ServiceAuthConfig_Validate blank_service_auth = None"
  by (simp add: ServiceAuthConfig_Validate_None service_auth_blank_def requiredFields_def blank_service_auth_def)

theorem authz_roles_acyclic_witness:
  "acyclic (inherits [demo_role ''viewer'' [], demo_role ''admin'' [''viewer'']]) \<and>
   inherits [demo_role ''viewer'' [], demo_role ''admin'' [''viewer'']] = {(''viewer'', ''admin'')}"
proof -
  let ?c = "demo_authz [demo_role ''viewer'' [], demo_role ''admin'' [''viewer'']]"
  have "authz_validate ?c = None"
    by (simp add: demo_authz_defs blank_service_auth_valid)
  from authz_roles_acyclic [OF this] have "acyclic (inherits [demo_role ''viewer'' [], demo_role ''admin'' [''viewer'']])"
    by (simp only: demo_authz_def applyDefaults_def) simp
  then show ?thesis by (auto simp: demo_role_def)
qed

text \<open>
  A role that lists itself as parent passes validation, although the error
  for an undefined parent requires parents to appear earlier in the list.
\<close>

theorem authz_self_parent_accepted:
  "authz_validate (demo_authz [demo_role ''admin'' [''admin'']]) = None"
  by (simp add: demo_authz_defs blank_service_auth_valid)

lemma authz_validate_rest:
  assumes "authz_validate c = None" "role_loop 0 [] (po_Roles (zc_Policy c)) = Inr names"
  shows "\<forall>i < length (ad_ServiceAssignableRoles (zc_Admin c)). ad_ServiceAssignableRoles (zc_Admin c) ! i \<in> set names"
    "\<forall>i < length (zc_BootstrapAssignments c). bs_Role (zc_BootstrapAssignments c ! i) \<in> set names"
    "po_Assignments (zc_Policy c) = []"
    "so_Backend (zc_Store c) = ''postgres'' \<Longrightarrow> so_DSN (zc_Store c) \<noteq> []"
    "authn_source_check (zc_Authn c) = None"
    "zc_AuditOutboxEnabled c \<Longrightarrow> so_Backend (zc_Store c) = ''postgres'' \<and> ServiceAuthConfig_IsConfigured (zc_Audit c)"
    "ServiceAuthConfig_Validate (zc_Audit c) = None"
  using assms by (auto simp: authz_validate_def check_simps split: option.splits)



end
