(* ===== verification/GoHTTP.thy ===== *)
theory GoHTTP
  imports GoNet
begin

text \<open>
  The parts of Go's \<open>net/http\<close> and \<open>net/url\<close> the clients use: canonical header
  names and header maps, requests, responses, form encoding. The network itself
  is a function from a request to a response or a transport error, an argument
  of every operation that sends a request.
\<close>

section \<open>Headers\<close>

definition token_byte :: "char \<Rightarrow> bool" where
  "token_byte c \<longleftrightarrow> is_alpha c \<or> is_digit c \<or> c \<in> set ''!#$%&*+-.^_`|~'' \<or> c = CHR 0x27"

definition upper_byte :: "char \<Rightarrow> char" where
  "upper_byte c = (if 97 \<le> byte c \<and> byte c \<le> 122 then char_of (byte c - 32) else c)"

fun canonical_from :: "bool \<Rightarrow> string \<Rightarrow> string" where
  "canonical_from up [] = []"
| "canonical_from up (c # s) = (if up then upper_byte c else lower_byte c) # canonical_from (c = CHR ''-'') s"

text \<open>\<open>textproto.CanonicalMIMEHeaderKey\<close>: a name with a byte outside the token set is left alone.\<close>

definition canonical_key :: "string \<Rightarrow> string" where
  "canonical_key k = (if list_all token_byte k then canonical_from True k else k)"

type_synonym header = "string \<rightharpoonup> string list"

definition Header_Set :: "string \<Rightarrow> string \<Rightarrow> header \<Rightarrow> header" where
  "Header_Set k v h = h(canonical_key k \<mapsto> [v])"

definition Header_Get :: "header \<Rightarrow> string \<Rightarrow> string" where
  "Header_Get h k = (case h (canonical_key k) of Some (v # _) \<Rightarrow> v | _ \<Rightarrow> [])"

definition Header_Del :: "string \<Rightarrow> header \<Rightarrow> header" where
  "Header_Del k h = h(canonical_key k := None)"

lemma byte_char_of [simp]: "n < 256 \<Longrightarrow> byte (char_of n) = n"
  by (simp add: byte_def)

lemma char_of_byte [simp]: "char_of (byte c) = c"
  by (simp add: byte_def)

lemma byte_less [simp]: "byte c < 256"
  unfolding byte_def using of_char_mod_256 [of c] by (metis mod_less_divisor zero_less_numeral)

lemma upper_lower [simp]:
  "upper_byte (upper_byte c) = upper_byte c" "lower_byte (lower_byte c) = lower_byte c"
  by (auto simp: upper_byte_def lower_byte_def)

lemma case_dash [simp]:
  "upper_byte c = CHR ''-'' \<longleftrightarrow> c = CHR ''-''" "lower_byte c = CHR ''-'' \<longleftrightarrow> c = CHR ''-''"
proof -
  have d: "byte (CHR ''-'') = 45" by (simp add: byte_def)
  have i: "x = y \<longleftrightarrow> byte x = byte y" for x y by (metis char_of_byte)
  show "upper_byte c = CHR ''-'' \<longleftrightarrow> c = CHR ''-''" "lower_byte c = CHR ''-'' \<longleftrightarrow> c = CHR ''-''"
    by (auto simp: i d upper_byte_def lower_byte_def)
qed

lemma canonical_from_idem: "canonical_from up (canonical_from up s) = canonical_from up s"
  by (induction up s rule: canonical_from.induct) auto

lemma token_byte_case [simp]:
  "token_byte c \<Longrightarrow> token_byte (upper_byte c)" "token_byte c \<Longrightarrow> token_byte (lower_byte c)"
  by (auto simp: token_byte_def upper_byte_def lower_byte_def is_alpha_def)

lemma canonical_from_token: "list_all token_byte s \<Longrightarrow> list_all token_byte (canonical_from up s)"
  by (induction up s rule: canonical_from.induct) auto

lemma canonical_key_idem [simp]: "canonical_key (canonical_key k) = canonical_key k"
  by (simp add: canonical_key_def canonical_from_token canonical_from_idem)

lemma Header_Get_Set: "Header_Get (Header_Set k v h) k' = (if canonical_key k' = canonical_key k then v else Header_Get h k')"
  by (simp add: Header_Get_def Header_Set_def)

lemma Header_Get_Del: "Header_Get (Header_Del k h) k' = (if canonical_key k' = canonical_key k then [] else Header_Get h k')"
  by (simp add: Header_Get_def Header_Del_def)

section \<open>Requests and responses\<close>

text \<open>A body is \<open>None\<close> where Go has \<open>nil\<close>; \<open>GetBody\<close> is \<open>None\<close> where it is not set.\<close>

record http_req =
  hq_Method :: string
  hq_URL :: string
  hq_Header :: header
  hq_Body :: "string option"
  hq_GetBody :: "string res option"

text \<open>Reading the body of a response may fail; a response is otherwise its status and headers.\<close>

record http_resp =
  hr_Status :: int
  hr_Header :: header
  hr_Body :: "string res"

text \<open>\<open>http.NewRequestWithContext\<close> with a valid method: it fails when the URL does not parse.\<close>

definition NewRequest :: "string \<Rightarrow> string \<Rightarrow> string option \<Rightarrow> http_req res" where
  "NewRequest method u body =
     (case url_Parse u of
        None \<Rightarrow> Inl (Errorf ''parse %q'' [ArgS u])
      | Some _ \<Rightarrow> Inr \<lparr>hq_Method = method, hq_URL = u, hq_Header = Map.empty, hq_Body = body,
                       hq_GetBody = map_option Inr body\<rparr>)"

type_synonym network = "http_req \<Rightarrow> http_resp res"

section \<open>Form encoding\<close>

definition unreserved :: "char \<Rightarrow> bool" where
  "unreserved c \<longleftrightarrow> is_alpha c \<or> is_digit c \<or> c \<in> set ''-_.~''"

definition upper_hex :: "nat \<Rightarrow> char" where
  "upper_hex d = (if d < 10 then char_of (48 + d) else char_of (55 + d))"

text \<open>\<open>url.QueryEscape\<close>.\<close>

fun QueryEscape :: "string \<Rightarrow> string" where
  "QueryEscape [] = []"
| "QueryEscape (c # s) =
     (if unreserved c then [c]
      else if c = CHR '' '' then ''+''
      else [CHR ''%'', upper_hex (byte c div 16), upper_hex (byte c mod 16)]) @ QueryEscape s"

text \<open>\<open>url.Values.Encode\<close> for one value per key, the keys given in sorted order.\<close>

definition Values_Encode :: "(string \<times> string) list \<Rightarrow> string" where
  "Values_Encode kvs = join_with ''&'' (map (\<lambda>(k, v). QueryEscape k @ ''='' @ QueryEscape v) kvs)"

end
