(* ===== verification/TokenSources.thy ===== *)
theory TokenSources
  imports ConfigSections GoHTTP
begin

text \<open>
  The two cached bearer-token sources: the Yandex Cloud IAM resolver
  (\<open>ycloud/iam.go\<close>) and the STS token source (\<open>stsclient/client.go\<close>), with the
  transport that injects its token. Both fulfil the contract \<open>token_cache\<close>: a
  fresh token is served without an exchange, a failed exchange changes nothing,
  and what is returned is what is cached. Concurrent callers of the IAM resolver
  share one exchange; a call is modelled as it runs when it is the one that
  exchanges. The zero \<open>time.Time\<close> is 0.
\<close>

section \<open>The contract\<close>

locale token_cache =
  fixes cached :: "'s \<Rightarrow> string"
    and fresh :: "int \<Rightarrow> 's \<Rightarrow> bool"
    and acquire :: "'e \<Rightarrow> int \<Rightarrow> 's \<Rightarrow> string res \<times> 's"
  assumes hit: "fresh now s \<Longrightarrow> acquire e now s = (Inr (cached s), s)"
    and failure: "acquire e now s = (Inl err, s') \<Longrightarrow> s' = s"
    and success: "acquire e now s = (Inr t, s') \<Longrightarrow> cached s' = t"
begin

lemma served_until_stale:
  assumes "acquire e now s = (Inr t, s')" "fresh now' s'"
  shows "acquire e' now' s' = (Inr t, s')"
  using hit [OF assms(2)] success [OF assms(1)] by simp

text \<open>A whole run of calls, each with its own environment and time.\<close>

fun acquires :: "('e \<times> int) list \<Rightarrow> 's \<Rightarrow> string res list \<times> 's" where
  "acquires [] s = ([], s)"
| "acquires ((e, now) # cs) s =
     (case acquire e now s of (r, s') \<Rightarrow> (case acquires cs s' of (rs, s'') \<Rightarrow> (r # rs, s'')))"

lemma all_failed: "(\<forall>r \<in> set (fst (acquires cs s)). \<exists>e. r = Inl e) \<Longrightarrow> snd (acquires cs s) = s"
proof (induction cs arbitrary: s)
  case (Cons c cs)
  obtain e now where c: "c = (e, now)" by fastforce
  obtain r s' where a: "acquire e now s = (r, s')" by fastforce
  obtain rs s'' where b: "acquires cs s' = (rs, s'')" by fastforce
  from Cons.prems c a b obtain er where "r = Inl er" by auto
  with a failure have "s' = s" by blast
  with Cons.IH [of s] Cons.prems a b c show ?case by simp
qed simp

lemma stays_fresh:
  "\<forall>(e, now) \<in> set cs. fresh now s \<Longrightarrow> acquires cs s = (map (\<lambda>_. Inr (cached s)) cs, s)"
  by (induction cs) (auto simp: hit)

end

section \<open>The IAM resolver (\<open>ycloud/iam.go\<close>)\<close>

record iamTokenResponse =
  it_IAMToken :: string
  it_ExpiresAt :: int

record metadataTokenResponse =
  mt_AccessToken :: string
  mt_ExpiresIn :: int
  mt_TokenType :: string

record saKeyJSON =
  sk_ID :: string
  sk_ServiceAccountID :: string
  sk_PrivateKey :: string

datatype parsed_key = RSAKey nat | OtherKey string

record SAKey =
  sa_key_ID :: string
  sa_key_ServiceAccountID :: string
  sa_key_PrivateKey :: nat

text \<open>What \<open>LoadSAKey\<close> calls: the file system, \<open>encoding/json\<close>, \<open>encoding/pem\<close> and \<open>crypto/x509\<close>.\<close>

record key_env =
  ke_ReadFile :: "string \<Rightarrow> string res"
  ke_Unmarshal :: "string \<Rightarrow> saKeyJSON res"
  ke_PEM :: "string \<Rightarrow> string option"
  ke_PKCS8 :: "string \<Rightarrow> parsed_key res"
  ke_PKCS1 :: "string \<Rightarrow> nat res"

definition LoadSAKey :: "key_env \<Rightarrow> string \<Rightarrow> SAKey res" where
  "LoadSAKey e path =
     (case ke_ReadFile e path of
        Inl x \<Rightarrow> Inl (Wrapf ''read file: %w'' [] x)
      | Inr data \<Rightarrow>
          (case ke_Unmarshal e data of
             Inl x \<Rightarrow> Inl (Wrapf ''parse JSON: %w'' [] x)
           | Inr k \<Rightarrow>
               (if sk_ID k = [] then Inl (New ''missing \"id\" field'')
                else if sk_ServiceAccountID k = [] then Inl (New ''missing \"service_account_id\" field'')
                else if sk_PrivateKey k = [] then Inl (New ''missing \"private_key\" field'')
                else case ke_PEM e (sk_PrivateKey k) of
                  None \<Rightarrow> Inl (New ''private_key: not a valid PEM block'')
                | Some block \<Rightarrow>
                    (let key = \<lambda>n. Inr \<lparr>sa_key_ID = sk_ID k, sa_key_ServiceAccountID = sk_ServiceAccountID k, sa_key_PrivateKey = n\<rparr>
                     in case ke_PKCS8 e block of
                          Inl x \<Rightarrow>
                            (case ke_PKCS1 e block of
                               Inl y \<Rightarrow> Inl (Wrapf ''private_key: parse PKCS#8: %w; parse PKCS#1: %v'' [] x)
                             | Inr n \<Rightarrow> key n)
                        | Inr (OtherKey ty) \<Rightarrow> Inl (Errorf ''private_key: expected RSA key, got %T'' [ArgS ty])
                        | Inr (RSAKey n) \<Rightarrow> key n))))"

record IAMTokenResolver =
  ir_authToken :: string
  ir_expiry :: int
  ir_authMode :: string
  ir_oauthToken :: string
  ir_metadataURL :: string
  ir_saID :: string
  ir_saAccountID :: string
  ir_saPrivKey :: "nat option"

definition NewIAMTokenResolver :: "key_env \<Rightarrow> AuthConfig \<Rightarrow> IAMTokenResolver res" where
  "NewIAMTokenResolver ke cfg =
     (let r = \<lparr>ir_authToken = [], ir_expiry = 0, ir_authMode = ya_AuthMode cfg, ir_oauthToken = Plaintext (ya_OAuthToken cfg),
               ir_metadataURL = ''http://169.254.169.254/computeMetadata/v1/instance/service-accounts/default/token'',
               ir_saID = [], ir_saAccountID = [], ir_saPrivKey = None\<rparr>;
          mode = ya_AuthMode cfg
      in if mode = ''iam_token'' then
           (if Secret_IsEmpty (ya_IAMToken cfg)
            then Inl (New ''ycloud: auth_mode=iam_token requires a non-empty iam_token'')
            else Inr (r\<lparr>ir_authToken := Plaintext (ya_IAMToken cfg)\<rparr>))
         else if mode = ''oauth_token'' then
           (if Secret_IsEmpty (ya_OAuthToken cfg)
            then Inl (New ''ycloud: auth_mode=oauth_token requires a non-empty oauth_token'')
            else Inr r)
         else if mode = ''metadata'' then Inr r
         else if mode = ''service_account'' then
           (if ya_SAKeyFile cfg = []
            then Inl (New ''ycloud: auth_mode=service_account requires a non-empty sa_key_file'')
            else case LoadSAKey ke (ya_SAKeyFile cfg) of
              Inl x \<Rightarrow> Inl (Wrapf ''ycloud: load sa_key_file: %w'' [] x)
            | Inr k \<Rightarrow> Inr (r\<lparr>ir_saID := sa_key_ID k, ir_saAccountID := sa_key_ServiceAccountID k,
                              ir_saPrivKey := Some (sa_key_PrivateKey k)\<rparr>))
         else Inl (Errorf ''ycloud: unsupported auth_mode %q; supported: iam_token, oauth_token, metadata, service_account''
                     [ArgS mode]))"

text \<open>
  The surroundings of a call: the network, the time at which the exchange is
  done, and the JSON and signing libraries.
\<close>

record jwt_claims =
  cl_iss :: string
  cl_aud :: "string list"
  cl_sub :: string
  cl_iat :: int
  cl_nbf :: "int option"
  cl_exp :: int
  cl_jti :: string
  cl_kid :: string

record iam_env =
  ie_http :: network
  ie_done :: int
  ie_marshal :: "(string \<times> string) list \<Rightarrow> string"
  ie_decode_iam :: "string \<Rightarrow> iamTokenResponse res"
  ie_decode_metadata :: "string \<Rightarrow> metadataTokenResponse res"
  ie_sign :: "nat option \<Rightarrow> jwt_claims \<Rightarrow> string res"

definition body_prefix :: "http_resp \<Rightarrow> string" where
  "body_prefix resp = (case hr_Body resp of Inl e \<Rightarrow> [] | Inr b \<Rightarrow> take 1024 b)"

definition unix :: "int \<Rightarrow> int" where
  "unix t = t div go_second"

text \<open>The exchange both POSTs share: build, send, check the status, decode, default the expiry.\<close>

definition post_iam :: "iam_env \<Rightarrow> string \<Rightarrow> (string \<times> string) list \<Rightarrow> (string \<times> int) res" where
  "post_iam e what payload =
     (case NewRequest ''POST'' ''https://iam.api.cloud.yandex.net/iam/v1/tokens'' (Some (ie_marshal e payload)) of
        Inl x \<Rightarrow> Inl (Wrapf (''ycloud: build '' @ what @ '' request: %w'') [] x)
      | Inr req0 \<Rightarrow>
          (let req = req0\<lparr>hq_Header := Header_Set ''Content-Type'' ''application/json'' (hq_Header req0)\<rparr>
           in case ie_http e req of
                Inl x \<Rightarrow> Inl (Wrapf (''ycloud: '' @ what @ '' exchange HTTP: %w'') [] x)
              | Inr resp \<Rightarrow>
                  (if hr_Status resp \<noteq> 200
                   then Inl (Errorf (''ycloud: '' @ what @ '' exchange: HTTP %d: %s'') [ArgD (hr_Status resp), ArgS (body_prefix resp)])
                   else case res_bind (hr_Body resp) (ie_decode_iam e) of
                     Inl x \<Rightarrow> Inl (Wrapf (''ycloud: decode '' @ what @ '' response: %w'') [] x)
                   | Inr result \<Rightarrow>
                       Inr (it_IAMToken result,
                            if it_ExpiresAt result = 0 then ie_done e + 11 * go_hour else it_ExpiresAt result))))"

definition exchangeOAuthToken :: "iam_env \<Rightarrow> IAMTokenResolver \<Rightarrow> (string \<times> int) res" where
  "exchangeOAuthToken e r = post_iam e ''IAM token'' [(''yandexPassportOauthToken'', ir_oauthToken r)]"

definition fetchMetadataToken :: "iam_env \<Rightarrow> IAMTokenResolver \<Rightarrow> (string \<times> int) res" where
  "fetchMetadataToken e r =
     (case NewRequest ''GET'' (ir_metadataURL r) None of
        Inl x \<Rightarrow> Inl (Wrapf ''ycloud: build metadata request: %w'' [] x)
      | Inr req0 \<Rightarrow>
          (let req = req0\<lparr>hq_Header := Header_Set ''Metadata-Flavor'' ''Google'' (hq_Header req0)\<rparr>
           in case ie_http e req of
                Inl x \<Rightarrow> Inl (Wrapf ''ycloud: metadata HTTP: %w'' [] x)
              | Inr resp \<Rightarrow>
                  (if hr_Status resp \<noteq> 200
                   then Inl (Errorf ''ycloud: metadata token: HTTP %d: %s'' [ArgD (hr_Status resp), ArgS (body_prefix resp)])
                   else case res_bind (hr_Body resp) (ie_decode_metadata e) of
                     Inl x \<Rightarrow> Inl (Wrapf ''ycloud: decode metadata token: %w'' [] x)
                   | Inr result \<Rightarrow>
                       Inr (mt_AccessToken result, ie_done e + wrap64 (mt_ExpiresIn result * go_second)))))"

definition mintSAJWT :: "iam_env \<Rightarrow> int \<Rightarrow> IAMTokenResolver \<Rightarrow> string res" where
  "mintSAJWT e now r =
     wrap_res ''sign SA JWT: %w'' []
       (ie_sign e (ir_saPrivKey r)
          \<lparr>cl_iss = ir_saAccountID r, cl_aud = [''https://iam.api.cloud.yandex.net/iam/v1/tokens''], cl_sub = [],
           cl_iat = unix now, cl_nbf = None, cl_exp = unix (now + 60 * go_second), cl_jti = [], cl_kid = ir_saID r\<rparr>)"

definition exchangeSAToken :: "iam_env \<Rightarrow> int \<Rightarrow> IAMTokenResolver \<Rightarrow> (string \<times> int) res" where
  "exchangeSAToken e now r =
     (case mintSAJWT e now r of
        Inl x \<Rightarrow> Inl (Wrapf ''ycloud: mint SA JWT: %w'' [] x)
      | Inr jwt \<Rightarrow> post_iam e ''SA token'' [(''jwt'', jwt)])"

definition iam_fresh :: "int \<Rightarrow> IAMTokenResolver \<Rightarrow> bool" where
  "iam_fresh now r \<longleftrightarrow> ir_authToken r \<noteq> [] \<and> now + 30 * go_second < ir_expiry r"

definition refreshToken :: "iam_env \<Rightarrow> int \<Rightarrow> IAMTokenResolver \<Rightarrow> string res \<times> IAMTokenResolver" where
  "refreshToken e now r =
     (if iam_fresh now r then (Inr (ir_authToken r), r)
      else let outcome =
        (if ir_authMode r = ''oauth_token'' then exchangeOAuthToken e r
         else if ir_authMode r = ''metadata'' then fetchMetadataToken e r
         else if ir_authMode r = ''service_account'' then exchangeSAToken e now r
         else Inl (Errorf ''ycloud: cannot refresh token for auth_mode=%q'' [ArgS (ir_authMode r)]))
      in case outcome of
           Inl x \<Rightarrow> (Inl x, r)
         | Inr (tok, exp) \<Rightarrow> (Inr tok, r\<lparr>ir_authToken := tok, ir_expiry := exp\<rparr>))"

definition ResolveToken :: "iam_env \<Rightarrow> int \<Rightarrow> IAMTokenResolver \<Rightarrow> string res \<times> IAMTokenResolver" where
  "ResolveToken e now r =
     (if ir_authMode r = ''iam_token'' then (Inr (ir_authToken r), r)
      else if iam_fresh now r then (Inr (ir_authToken r), r)
      else refreshToken e now r)"

definition iam_served :: "int \<Rightarrow> IAMTokenResolver \<Rightarrow> bool" where
  "iam_served now r \<longleftrightarrow> ir_authMode r = ''iam_token'' \<or> iam_fresh now r"

interpretation iam: token_cache ir_authToken iam_served ResolveToken
  by unfold_locales
    (auto simp: iam_served_def ResolveToken_def refreshToken_def Let_def split: if_splits sum.splits)

section \<open>The STS token source (\<open>stsclient/client.go\<close>)\<close>

text \<open>\<open>refreshWindowForExpiresIn\<close>; the product is a 64-bit one.\<close>

definition refreshWindowForExpiresIn :: "int \<Rightarrow> int" where
  "refreshWindowForExpiresIn expiresIn =
     (let ttl = wrap64 (expiresIn * go_second)
      in if ttl > 30 * go_second then ttl - 30 * go_second
         else if ttl > 0 then ttl div 2
         else 0)"

record STSClientConfig =
  sc_STSEndpoint :: string
  sc_Audience :: string
  sc_ServiceName :: string
  sc_AssertionAudience :: string
  sc_KeyPair :: "nat option"
  sc_AssertionTTL :: int

record TokenSource =
  ts_cfg :: STSClientConfig
  ts_token :: string
  ts_expiry :: int
  ts_assertTTL :: int

definition STS_New :: "STSClientConfig option \<Rightarrow> TokenSource res" where
  "STS_New ocfg =
     (case ocfg of
        None \<Rightarrow> Inl (New ''stsclient: cfg is nil'')
      | Some cfg \<Rightarrow>
          (if sc_STSEndpoint cfg = [] then Inl (New ''stsclient: STSEndpoint is required'')
           else if sc_Audience cfg = [] then Inl (New ''stsclient: Audience is required'')
           else if sc_ServiceName cfg = [] then Inl (New ''stsclient: ServiceName is required'')
           else if sc_AssertionAudience cfg = [] then Inl (New ''stsclient: AssertionAudience is required'')
           else if sc_KeyPair cfg = None then Inl (New ''stsclient: KeyPair is required'')
           else Inr \<lparr>ts_cfg = cfg, ts_token = [], ts_expiry = 0,
                     ts_assertTTL = default_int (4 * go_minute) (sc_AssertionTTL cfg)\<rparr>))"

record tokenResponse =
  tr_AccessToken :: string
  tr_TokenType :: string
  tr_ExpiresIn :: int

record sts_env =
  se_http :: network
  se_done :: int
  se_uuid :: "string res"
  se_sign :: "nat option \<Rightarrow> jwt_claims \<Rightarrow> string res"
  se_decode :: "string \<Rightarrow> tokenResponse res"

definition signAssertion :: "sts_env \<Rightarrow> int \<Rightarrow> TokenSource \<Rightarrow> string res" where
  "signAssertion e now ts =
     (case se_uuid e of
        Inl x \<Rightarrow> Inl (Wrapf ''stsclient: jti: %w'' [] x)
      | Inr jti \<Rightarrow>
          wrap_res ''stsclient: sign assertion: %w'' []
            (se_sign e (sc_KeyPair (ts_cfg ts))
              \<lparr>cl_iss = sc_ServiceName (ts_cfg ts), cl_aud = [sc_AssertionAudience (ts_cfg ts)],
               cl_sub = sc_ServiceName (ts_cfg ts), cl_iat = unix now, cl_nbf = Some (unix now),
               cl_exp = unix (now + ts_assertTTL ts), cl_jti = jti, cl_kid = []\<rparr>))"

definition sts_fresh :: "int \<Rightarrow> TokenSource \<Rightarrow> bool" where
  "sts_fresh now ts \<longleftrightarrow> ts_token ts \<noteq> [] \<and> now < ts_expiry ts"

definition sts_body :: "http_resp \<Rightarrow> string res" where
  "sts_body resp = (case hr_Body resp of Inl x \<Rightarrow> Inl x | Inr b \<Rightarrow> Inr (take (2 ^ 20) b))"

definition sts_exchange :: "sts_env \<Rightarrow> int \<Rightarrow> TokenSource \<Rightarrow> tokenResponse res" where
  "sts_exchange e now ts =
     (case signAssertion e now ts of
        Inl x \<Rightarrow> Inl x
      | Inr assertion \<Rightarrow>
          (case NewRequest ''POST'' (sc_STSEndpoint (ts_cfg ts))
                  (Some (Values_Encode [(''assertion'', assertion), (''audience'', sc_Audience (ts_cfg ts)),
                     (''grant_type'', ''urn:ietf:params:oauth:grant-type:jwt-bearer'')])) of
             Inl x \<Rightarrow> Inl (Wrapf ''stsclient: build request: %w'' [] x)
           | Inr req0 \<Rightarrow>
               (let req = req0\<lparr>hq_Header := Header_Set ''Content-Type'' ''application/x-www-form-urlencoded'' (hq_Header req0)\<rparr>
                in case se_http e req of
                     Inl x \<Rightarrow> Inl (Wrapf ''stsclient: sts request: %w'' [] x)
                   | Inr resp \<Rightarrow>
                       (case sts_body resp of
                          Inl x \<Rightarrow> Inl (Wrapf ''stsclient: read sts body: %w'' [] x)
                        | Inr body \<Rightarrow>
                            (if hr_Status resp \<noteq> 200
                             then Inl (Errorf ''stsclient: sts status %d: %s'' [ArgD (hr_Status resp), ArgS (trim_space body)])
                             else case se_decode e body of
                               Inl x \<Rightarrow> Inl (Wrapf ''stsclient: decode sts response: %w'' [] x)
                             | Inr tr \<Rightarrow>
                                 (if tr_AccessToken tr = []
                                  then Inl (New ''stsclient: empty access_token in sts response'')
                                  else Inr tr))))))"

definition Token :: "sts_env \<Rightarrow> int \<Rightarrow> TokenSource \<Rightarrow> string res \<times> TokenSource" where
  "Token e now ts =
     (if sts_fresh now ts then (Inr (ts_token ts), ts)
      else case sts_exchange e now ts of
        Inl x \<Rightarrow> (Inl x, ts)
      | Inr tr \<Rightarrow>
          (Inr (tr_AccessToken tr),
           ts\<lparr>ts_token := tr_AccessToken tr,
              ts_expiry := se_done e + refreshWindowForExpiresIn (tr_ExpiresIn tr)\<rparr>))"

interpretation sts: token_cache ts_token sts_fresh Token
  by unfold_locales (auto simp: sts_fresh_def Token_def split: if_splits sum.splits)

text \<open>\<open>bearerTransport.RoundTrip\<close>: the request goes out with the token, and nothing goes out without one.\<close>

definition bearer_RoundTrip ::
  "network \<Rightarrow> sts_env \<Rightarrow> int \<Rightarrow> http_req \<Rightarrow> TokenSource \<Rightarrow> http_resp res \<times> TokenSource" where
  "bearer_RoundTrip base e now req ts =
     (case Token e now ts of
        (Inl x, ts') \<Rightarrow> (Inl x, ts')
      | (Inr tok, ts') \<Rightarrow>
          (base (req\<lparr>hq_Header := Header_Set ''X-Csar-Authorization'' (''Bearer '' @ tok) (hq_Header req)\<rparr>), ts'))"

section \<open>Properties\<close>

lemma wrap64_le: "0 \<le> x \<Longrightarrow> wrap64 x \<le> x"
proof -
  assume "0 \<le> x"
  have "(x + 2 ^ 63) mod 2 ^ 64 \<le> x + 2 ^ 63" using \<open>0 \<le> x\<close> by (intro zmod_le_nonneg_dividend) simp
  then show ?thesis by (simp add: wrap64_def)
qed

lemma refreshWindow_bounds:
  "0 \<le> refreshWindowForExpiresIn n" "0 \<le> n \<Longrightarrow> refreshWindowForExpiresIn n \<le> n * go_second"
  using wrap64_le [of "n * go_second"] by (auto simp: refreshWindowForExpiresIn_def Let_def)

text \<open>
  The caching window of an STS token is never negative and never longer than
  the token's lifetime, whatever lifetime the server announces; for a lifetime
  that fits it is positive and ends at least half the lifetime or 30 seconds early.
\<close>

theorem refreshWindow_safe:
  "0 \<le> refreshWindowForExpiresIn n \<and>
   (0 \<le> n \<longrightarrow> refreshWindowForExpiresIn n \<le> n * go_second) \<and>
   (0 < n \<and> n * go_second \<le> max_int64 \<longrightarrow>
      0 < refreshWindowForExpiresIn n \<and>
      refreshWindowForExpiresIn n = (if n > 30 then (n - 30) * go_second else n * go_second div 2))"
proof -
  have "wrap64 (n * go_second) = n * go_second" if "0 < n" "n * go_second \<le> max_int64"
    using that by (intro wrap64_id) (simp add: in_int64_def)
  then show ?thesis
    using refreshWindow_bounds [of n] by (auto simp: refreshWindowForExpiresIn_def Let_def)
qed

theorem refreshWindow_safe_witness: "refreshWindowForExpiresIn 300 = 270 * go_second"
  using refreshWindow_safe [of 300] by simp

lemma sts_exchange_nonempty: "sts_exchange e now ts = Inr tr \<Longrightarrow> tr_AccessToken tr \<noteq> []"
  by (auto simp: sts_exchange_def Let_def split: sum.splits if_splits)

lemma Token_nonempty: "Token e now ts = (Inr t, ts') \<Longrightarrow> t \<noteq> []"
  using sts_exchange_nonempty by (auto simp: Token_def sts_fresh_def split: if_splits sum.splits)

text \<open>
  C16: A token obtained from the STS is served to every later call made while it is
  fresh, without another exchange, and it is never served at or past the end of
  the lifetime the server announced.
\<close>

theorem Token_served_while_valid:
  assumes "\<not> sts_fresh now ts" "sts_exchange e now ts = Inr tr" "0 \<le> tr_ExpiresIn tr"
    and "Token e now ts = (r, ts')" "sts_fresh now' ts'"
  shows "r = Inr (tr_AccessToken tr) \<and> Token e' now' ts' = (r, ts') \<and>
    now' < se_done e + tr_ExpiresIn tr * go_second"
proof -
  have r: "r = Inr (tr_AccessToken tr)"
    "ts' = ts\<lparr>ts_token := tr_AccessToken tr, ts_expiry := se_done e + refreshWindowForExpiresIn (tr_ExpiresIn tr)\<rparr>"
    using assms(1,2,4) by (auto simp: Token_def)
  moreover have "now' < se_done e + tr_ExpiresIn tr * go_second"
    using assms(5) r(2) refreshWindow_bounds(2) [OF assms(3)] by (simp add: sts_fresh_def)
  moreover have "Token e' now' ts' = (r, ts')"
    using sts.served_until_stale [OF assms(4) [unfolded r(1)] assms(5)] r(1) by simp
  ultimately show ?thesis by simp
qed

definition demo_source :: TokenSource where
  "demo_source = \<lparr>ts_cfg = \<lparr>sc_STSEndpoint = ''https://authn:8081/sts/token'', sc_Audience = ''a'', sc_ServiceName = ''s'',
     sc_AssertionAudience = ''b'', sc_KeyPair = Some 0, sc_AssertionTTL = 0\<rparr>, ts_token = [], ts_expiry = 0, ts_assertTTL = 0\<rparr>"

definition demo_sts :: sts_env where
  "demo_sts = \<lparr>se_http = \<lambda>_. Inr \<lparr>hr_Status = 200, hr_Header = Map.empty, hr_Body = Inr ''{}''\<rparr>, se_done = 0,
     se_uuid = Inr ''u'', se_sign = \<lambda>_ _. Inr ''jwt'',
     se_decode = \<lambda>_. Inr \<lparr>tr_AccessToken = ''tok'', tr_TokenType = ''Bearer'', tr_ExpiresIn = 300\<rparr>\<rparr>"

lemma demo_endpoint: "url_Parse ''https://authn:8081/sts/token'' \<noteq> None"
  by (simp add: url_Parse_def parse_no_fragment_def cut_before_def getScheme_def byte_def is_alpha_def is_digit_def
      has_prefix_def parseAuthority_def parseHost_def last_index_def validOptionalPort_def host_byte_def Let_def lower_byte_def)

lemma demo_exchange:
  "sts_exchange demo_sts now demo_source = Inr \<lparr>tr_AccessToken = ''tok'', tr_TokenType = ''Bearer'', tr_ExpiresIn = 300\<rparr>"
  using demo_endpoint
  by (auto simp: sts_exchange_def signAssertion_def demo_sts_def demo_source_def wrap_res_def NewRequest_def sts_body_def Let_def)

lemma demo_done: "se_done demo_sts = 0"
  by (simp add: demo_sts_def)

theorem Token_served_while_valid_witness:
  "\<exists>ts'. Token demo_sts 0 demo_source = (Inr ''tok'', ts') \<and> Token demo_sts 5 ts' = (Inr ''tok'', ts') \<and> sts_fresh 5 ts'"
proof -
  have stale: "\<not> sts_fresh 0 demo_source" by (simp add: sts_fresh_def demo_source_def)
  obtain r ts' where t: "Token demo_sts 0 demo_source = (r, ts')" by fastforce
  have f: "sts_fresh 5 ts'"
    using t stale demo_done
    by (auto simp: Token_def demo_exchange sts_fresh_def refreshWindowForExpiresIn_def wrap64_def)
  show ?thesis
    using Token_served_while_valid [OF stale demo_exchange _ t f, of demo_sts] t f by auto
qed

text \<open>
  C31: The bearer transport sends a request only with a non-empty token in
  \<open>X-Csar-Authorization\<close>, leaves every other header (\<open>Authorization\<close> among them) as
  the caller set it, and when no token can be had it sends nothing and keeps the
  cached state.
\<close>

theorem bearer_RoundTrip_authorised:
  "(\<exists>x. \<forall>base. bearer_RoundTrip base e now req ts = (Inl x, ts)) \<or>
   (\<exists>t ts' req'. t \<noteq> [] \<and> (\<forall>base. bearer_RoundTrip base e now req ts = (base req', ts')) \<and>
      Header_Get (hq_Header req') ''X-Csar-Authorization'' = ''Bearer '' @ t \<and>
      (\<forall>k. canonical_key k \<noteq> canonical_key ''X-Csar-Authorization'' \<longrightarrow>
         Header_Get (hq_Header req') k = Header_Get (hq_Header req) k) \<and>
      hq_Method req' = hq_Method req \<and> hq_URL req' = hq_URL req \<and> hq_Body req' = hq_Body req)"
proof (cases "Token e now ts")
  case (Pair r ts')
  show ?thesis
  proof (cases r)
    case (Inl x)
    with Pair sts.failure have "ts' = ts" by blast
    with Inl Pair show ?thesis by (auto simp: bearer_RoundTrip_def)
  next
    case (Inr t)
    with Pair have "t \<noteq> []" using Token_nonempty by blast
    with Inr Pair show ?thesis
      by (intro disjI2 exI [of _ t] exI [of _ ts']
          exI [of _ "req\<lparr>hq_Header := Header_Set ''X-Csar-Authorization'' (''Bearer '' @ t) (hq_Header req)\<rparr>"])
        (simp add: bearer_RoundTrip_def Header_Get_Set)
  qed
qed

theorem bearer_RoundTrip_authorised_witness:
  "\<exists>ts' req'. bearer_RoundTrip (\<lambda>q. Inl (New (Header_Get (hq_Header q) ''Authorization''))) demo_sts 0
     \<lparr>hq_Method = ''GET'', hq_URL = ''/x'', hq_Header = Header_Set ''Authorization'' ''Basic z'' Map.empty, hq_Body = None, hq_GetBody = None\<rparr>
     demo_source = (Inl (New ''Basic z''), ts') \<and> ts_token ts' = ''tok''"
proof -
  let ?q = "\<lparr>hq_Method = ''GET'', hq_URL = ''/x'', hq_Header = Header_Set ''Authorization'' ''Basic z'' Map.empty, hq_Body = None, hq_GetBody = None\<rparr>"
  have k: "canonical_key ''Authorization'' \<noteq> canonical_key ''X-Csar-Authorization''"
    by (simp add: canonical_key_def token_byte_def is_alpha_def byte_def upper_byte_def lower_byte_def)
  have g: "Header_Get (Header_Set ''Authorization'' ''Basic z'' Map.empty) ''Authorization'' = ''Basic z''"
    by (simp add: Header_Get_Set canonical_key_def token_byte_def is_alpha_def byte_def upper_byte_def lower_byte_def)
  obtain r ts' where t: "Token demo_sts 0 demo_source = (r, ts')" by fastforce
  moreover have "\<not> sts_fresh 0 demo_source" by (simp add: sts_fresh_def demo_source_def)
  ultimately have r: "r = Inr ''tok''" "ts_token ts' = ''tok''"
    by (auto simp: Token_def demo_exchange)
  show ?thesis
    using bearer_RoundTrip_authorised [of demo_sts 0 ?q demo_source] t r k g
    by (auto simp: bearer_RoundTrip_def Header_Get_Set)
qed

definition demo_metadata_auth :: AuthConfig where
  "demo_metadata_auth = \<lparr>ya_AuthMode = ''metadata'', ya_IAMToken = Secret [], ya_OAuthToken = Secret [], ya_SAKeyFile = [],
     ya_AccessKeyID = Secret [], ya_SecretAccessKey = Secret []\<rparr>"

definition demo_metadata_env :: iam_env where
  "demo_metadata_env = \<lparr>ie_http = \<lambda>_. Inr \<lparr>hr_Status = 200, hr_Header = Map.empty, hr_Body = Inr ''{}''\<rparr>, ie_done = 0,
     ie_marshal = \<lambda>_. [], ie_decode_iam = \<lambda>_. Inl (New ''unused''),
     ie_decode_metadata = \<lambda>_. Inr \<lparr>mt_AccessToken = [], mt_ExpiresIn = 0, mt_TokenType = []\<rparr>,
     ie_sign = \<lambda>_ _. Inl (New ''unused'')\<rparr>"

lemma demo_metadata_url:
  "url_Parse ''http://169.254.169.254/computeMetadata/v1/instance/service-accounts/default/token'' \<noteq> None"
  by (simp add: url_Parse_def parse_no_fragment_def cut_before_def getScheme_def byte_def is_alpha_def is_digit_def
      has_prefix_def parseAuthority_def parseHost_def last_index_def validOptionalPort_def host_byte_def Let_def lower_byte_def)

text \<open>
  Unlike the STS source, the IAM resolver accepts an exchange whose answer
  carries no token: the caller gets the empty token as a success.
\<close>

theorem ResolveToken_empty_accepted:
  "\<exists>r. NewIAMTokenResolver ke (demo_metadata_auth\<lparr>ya_SAKeyFile := f\<rparr>) = Inr r \<and>
     fst (ResolveToken demo_metadata_env now r) = Inr []"
  using demo_metadata_url
  by (auto simp: NewIAMTokenResolver_def demo_metadata_auth_def demo_metadata_env_def ResolveToken_def refreshToken_def
      iam_fresh_def fetchMetadataToken_def NewRequest_def Let_def)

end
