(* ===== verification/ConfigSource.thy ===== *)
theory ConfigSource
  imports TokenSources
begin

text \<open>
  Configuration sources and the polling watcher (package \<open>configsource\<close>): hash
  policies, the file, HTTP, S3 and manifest sources, the source builder and
  \<open>ConfigWatcher\<close>. A source is a value that \<open>Fetch\<close> maps to a result and its
  successor. What lies outside the program (files, network, object store, JSON
  decoding) is a \<open>world\<close>, given anew for every poll; SHA-256 is the argument
  \<open>sha\<close>. \<open>Data\<close> is \<open>None\<close> where Go has a nil slice.
\<close>

section \<open>Integrity (\<open>hash.go\<close>)\<close>

datatype HashPolicy = HashDisabled | HashTOFU | HashPinned | HashOther int

definition ValidateHash ::
  "HashPolicy \<Rightarrow> string \<Rightarrow> string \<Rightarrow> string \<Rightarrow> string \<Rightarrow> string \<Rightarrow> err" where
  "ValidateHash policy pinnedHash currentHash lastHash currentETag lastETag =
     (case policy of
        HashDisabled \<Rightarrow> None
      | HashTOFU \<Rightarrow>
          (if lastHash = [] then None
           else if currentETag = lastETag \<and> currentHash \<noteq> lastHash then
             Some (Errorf (''config integrity violation: ETag unchanged (%s) but SHA-256 changed (%s '' @
                           [CHR 0xE2, CHR 0x86, CHR 0x92] @ '' %s); possible tampering'')
                     [ArgS currentETag, ArgS lastHash, ArgS currentHash])
           else None)
      | HashPinned \<Rightarrow>
          (if currentHash \<noteq> pinnedHash then
             Some (Errorf ''config SHA-256 mismatch: expected %s, got %s'' [ArgS pinnedHash, ArgS currentHash])
           else None)
      | HashOther n \<Rightarrow> Some (Errorf ''unknown hash policy: %d'' [ArgD n]))"

section \<open>Manifests (\<open>manifest.go\<close>)\<close>

record FetchedConfig =
  fc_Data :: "string option"
  fc_ETag :: string

record ChecksumInfo =
  ci_Algorithm :: string
  ci_Value :: string

record ConfigResource =
  cr_Provider :: string
  cr_Path :: string
  cr_Bucket :: string
  cr_Region :: string
  cr_Endpoint :: string
  cr_Checksum :: "ChecksumInfo option"
  cr_Headers :: "(string \<times> string) list"
  cr_Meta :: "(string \<times> string) list"

record ServiceManifest =
  sm_Version :: string
  sm_Active :: "bool option"
  sm_Config :: ConfigResource

record Manifest =
  mf_ManifestVersion :: string
  mf_Environment :: string
  mf_UpdatedAt :: string
  mf_TraceID :: string
  mf_Services :: "(string \<times> ServiceManifest) list"

definition ServiceManifest_IsActive :: "ServiceManifest \<Rightarrow> bool" where
  "ServiceManifest_IsActive s \<longleftrightarrow> (case sm_Active s of None \<Rightarrow> True | Some b \<Rightarrow> b)"

definition ConfigResource_Validate :: "ConfigResource \<Rightarrow> err" where
  "ConfigResource_Validate cr =
     first_error
      [(if cr_Provider cr = ''s3'' then
          first_error
           [fail_if (cr_Bucket cr = []) (Errorf ''config provider %q requires bucket'' [ArgS (cr_Provider cr)]),
            fail_if (cr_Path cr = []) (Errorf ''config provider %q requires path'' [ArgS (cr_Provider cr)])]
        else if cr_Provider cr = ''file'' then
          fail_if (cr_Path cr = []) (Errorf ''config provider %q requires path'' [ArgS (cr_Provider cr)])
        else if cr_Provider cr = ''http'' then
          fail_if (cr_Path cr = []) (Errorf ''config provider %q requires path (URL)'' [ArgS (cr_Provider cr)])
        else if cr_Provider cr = [] then Some (New ''config provider is required'')
        else Some (Errorf ''unsupported config provider %q; supported: s3, file, http'' [ArgS (cr_Provider cr)])),
       (case cr_Checksum cr of
          None \<Rightarrow> None
        | Some ck \<Rightarrow>
            first_error
             [fail_if (ci_Algorithm ck = []) (New ''checksum.algorithm is required when checksum is present''),
              fail_if (ci_Value ck = []) (New ''checksum.value is required when checksum is present''),
              fail_if (ci_Algorithm ck \<noteq> ''sha256'')
                (Errorf ''unsupported checksum algorithm %q; supported: sha256'' [ArgS (ci_Algorithm ck)])])]"

definition ParseManifest :: "(string \<Rightarrow> Manifest res) \<Rightarrow> string \<Rightarrow> Manifest res" where
  "ParseManifest unmarshal data =
     (case unmarshal data of
        Inl e \<Rightarrow> Inl (Wrapf ''parsing manifest JSON: %w'' [] e)
      | Inr m \<Rightarrow>
          (case first_error
             [fail_if (mf_ManifestVersion m \<notin> {''1'', ''1.0'', ''1.1''})
                (Errorf ''unsupported manifest_version %q; supported: 1, 1.0, 1.1'' [ArgS (mf_ManifestVersion m)]),
              fail_if (mf_Services m = []) (New ''manifest contains no service entries''),
              each_check (\<lambda>(name, svc). first_error
                [fail_if (sm_Version svc = []) (Errorf ''service %q: version is required'' [ArgS name]),
                 wrap_err ''service %q: %w'' [ArgS name] (ConfigResource_Validate (sm_Config svc))]) (mf_Services m)] of
             Some e \<Rightarrow> Inl e
           | None \<Rightarrow> Inr m))"

definition LookupService :: "Manifest \<Rightarrow> string \<Rightarrow> ServiceManifest res" where
  "LookupService m name =
     (case map_of (mf_Services m) name of
        None \<Rightarrow> Inl (Errorf ''service %q not found in manifest; available: [%s]''
                      [ArgS name, ArgS (join_with '', '' (map fst (mf_Services m)))])
      | Some svc \<Rightarrow>
          (if \<not> ServiceManifest_IsActive svc
           then Inl (Errorf ''service %q is marked inactive in manifest (version %s)'' [ArgS name, ArgS (sm_Version svc)])
           else Inr svc))"

section \<open>Object storage clients (\<open>s3store/client.go\<close>)\<close>

record S3Config =
  s3_Bucket :: string
  s3_Endpoint :: string
  s3_Region :: string
  s3_Prefix :: string
  s3_Auth :: AuthConfig

record S3Client =
  s3c_cfg :: S3Config
  s3c_resolver :: "IAMTokenResolver option"

definition S3_NewClient :: "key_env \<Rightarrow> S3Config \<Rightarrow> S3Client res" where
  "S3_NewClient ke cfg0 =
     (if s3_Bucket cfg0 = [] then Inl (New ''s3store: bucket is required'')
      else let cfg = cfg0\<lparr>s3_Endpoint := default_str ''https://storage.yandexcloud.net'' (s3_Endpoint cfg0),
                          s3_Region := default_str ''ru-central1'' (s3_Region cfg0)\<rparr>;
               mode = ya_AuthMode (s3_Auth cfg)
           in if mode = ''static'' \<or> mode = [] then
                (if Secret_IsEmpty (ya_AccessKeyID (s3_Auth cfg)) \<or> Secret_IsEmpty (ya_SecretAccessKey (s3_Auth cfg))
                 then Inl (New ''s3store: static auth requires access_key_id and secret_access_key'')
                 else Inr \<lparr>s3c_cfg = cfg, s3c_resolver = None\<rparr>)
              else if mode \<in> {''iam_token'', ''oauth_token'', ''metadata'', ''service_account''} then
                (case NewIAMTokenResolver ke (s3_Auth cfg) of
                   Inl e \<Rightarrow> Inl (Wrapf ''s3store: %w'' [] e)
                 | Inr r \<Rightarrow> Inr \<lparr>s3c_cfg = cfg, s3c_resolver = Some r\<rparr>)
              else Inl (Errorf ''s3store: unsupported auth_mode %q'' [ArgS mode]))"

section \<open>Sources\<close>

record HTTPSource =
  ht_url :: string
  ht_headers :: "(string \<times> string) list"
  ht_lastETag :: string
  ht_lastModified :: bool

definition NewHTTPSource :: "string \<Rightarrow> (string \<times> string) list \<Rightarrow> HTTPSource" where
  "NewHTTPSource u hs = \<lparr>ht_url = u, ht_headers = hs, ht_lastETag = [], ht_lastModified = False\<rparr>"

record S3Source =
  s3s_client :: S3Client
  s3s_key :: string

record FileSource =
  fs_path :: string

text \<open>The sources other than the manifest source, behind the interface \<open>ConfigSource\<close>.\<close>

datatype leaf_source = SFile FileSource | SHTTP HTTPSource | SS3 S3Source

record ManifestSource =
  ms_bootstrap :: leaf_source
  ms_serviceName :: string
  ms_auth :: AuthConfig
  ms_lastVersion :: string
  ms_lastCksum :: string
  ms_resolvedSrc :: "leaf_source option"
  ms_resolvedCR :: "ConfigResource option"

datatype source = SLeaf leaf_source | SManifest ManifestSource

record world =
  wd_stat :: "string \<Rightarrow> (int \<times> int) res"
  wd_read :: "string \<Rightarrow> string res"
  wd_http :: network
  wd_s3 :: "S3Client \<Rightarrow> string \<Rightarrow> (string \<times> string) res"
  wd_json :: "string \<Rightarrow> Manifest res"
  wd_keys :: key_env

text \<open>\<open>FileSource.Fetch\<close>: the stat gives modification time and size.\<close>

definition File_Fetch :: "world \<Rightarrow> FileSource \<Rightarrow> FetchedConfig res" where
  "File_Fetch w s =
     (case wd_stat w (fs_path s) of
        Inl e \<Rightarrow> Inl (Wrapf ''stat config file %s: %w'' [ArgS (fs_path s)] e)
      | Inr (mtime, len) \<Rightarrow>
          (case wd_read w (fs_path s) of
             Inl e \<Rightarrow> Inl (Wrapf ''reading config file %s: %w'' [ArgS (fs_path s)] e)
           | Inr data \<Rightarrow> Inr \<lparr>fc_Data = Some data, fc_ETag = ''mtime:'' @ itoa mtime @ '':size:'' @ itoa len\<rparr>))"

definition maxConfigSize :: nat where
  "maxConfigSize = 10485760"

text \<open>The conditional request \<open>HTTPSource.Fetch\<close> sends.\<close>

definition conditional_request :: "HTTPSource \<Rightarrow> http_req \<Rightarrow> http_req" where
  "conditional_request s req0 =
     (let h = fold (\<lambda>(k, v). Header_Set k v) (ht_headers s) (hq_Header req0)
      in req0\<lparr>hq_Header :=
           (if ht_lastETag s \<noteq> [] then
              (if ht_lastModified s then Header_Set ''If-Modified-Since'' (ht_lastETag s) h
               else Header_Set ''If-None-Match'' (ht_lastETag s) h)
            else h)\<rparr>)"

definition HTTP_Fetch :: "world \<Rightarrow> HTTPSource \<Rightarrow> FetchedConfig res \<times> HTTPSource" where
  "HTTP_Fetch w s =
     (case NewRequest ''GET'' (ht_url s) None of
        Inl e \<Rightarrow> (Inl (Wrapf ''creating request for %s: %w'' [ArgS (ht_url s)] e), s)
      | Inr req0 \<Rightarrow>
          (case wd_http w (conditional_request s req0) of
             Inl e \<Rightarrow> (Inl (Wrapf ''fetching config from %s: %w'' [ArgS (ht_url s)] e), s)
           | Inr resp \<Rightarrow>
               (if hr_Status resp = 304 then (Inr \<lparr>fc_Data = None, fc_ETag = ht_lastETag s\<rparr>, s)
                else if hr_Status resp = 200 then
                  (case hr_Body resp of
                     Inl e \<Rightarrow> (Inl (Wrapf ''reading response body from %s: %w'' [ArgS (ht_url s)] e), s)
                   | Inr data \<Rightarrow>
                       (if length data > maxConfigSize
                        then (Inl (Errorf ''config from %s exceeds maximum size (%d bytes)'' [ArgS (ht_url s), ArgD (int maxConfigSize)]), s)
                        else let etag0 = Header_Get (hr_Header resp) ''ETag'';
                                 etag = (if etag0 = [] then Header_Get (hr_Header resp) ''Last-Modified'' else etag0);
                                 fromLastModified = (etag0 = [] \<and> etag \<noteq> [])
                             in (Inr \<lparr>fc_Data = Some data, fc_ETag = etag\<rparr>,
                                 s\<lparr>ht_lastETag := etag, ht_lastModified := fromLastModified\<rparr>)))
                else (Inl (Errorf ''unexpected status %d from %s'' [ArgD (hr_Status resp), ArgS (ht_url s)]), s))))"

definition S3_Fetch :: "world \<Rightarrow> S3Source \<Rightarrow> FetchedConfig res" where
  "S3_Fetch w s =
     (case wd_s3 w (s3s_client s) (s3_Prefix (s3c_cfg (s3s_client s)) @ s3s_key s) of
        Inl e \<Rightarrow> Inl (Wrapf ''fetching config from s3://%s: %w'' [ArgS (s3s_key s)] e)
      | Inr (body, etag) \<Rightarrow> Inr \<lparr>fc_Data = Some body, fc_ETag = etag\<rparr>)"

fun leaf_Fetch :: "world \<Rightarrow> leaf_source \<Rightarrow> FetchedConfig res \<times> leaf_source" where
  "leaf_Fetch w (SFile s) = (File_Fetch w s, SFile s)"
| "leaf_Fetch w (SHTTP s) = (case HTTP_Fetch w s of (r, s') \<Rightarrow> (r, SHTTP s'))"
| "leaf_Fetch w (SS3 s) = (S3_Fetch w s, SS3 s)"

section \<open>The manifest source (\<open>source_manifest.go\<close>)\<close>

definition configResourceEqual :: "ConfigResource \<Rightarrow> ConfigResource \<Rightarrow> bool" where
  "configResourceEqual a b \<longleftrightarrow>
     cr_Provider a = cr_Provider b \<and> cr_Path a = cr_Path b \<and> cr_Bucket a = cr_Bucket b \<and>
     cr_Region a = cr_Region b \<and> cr_Endpoint a = cr_Endpoint b"

definition buildSourceFromResource :: "key_env \<Rightarrow> AuthConfig \<Rightarrow> ConfigResource \<Rightarrow> leaf_source res" where
  "buildSourceFromResource ke auth cr =
     (if cr_Provider cr = ''file'' then Inr (SFile \<lparr>fs_path = cr_Path cr\<rparr>)
      else if cr_Provider cr = ''s3'' then
        (case S3_NewClient ke \<lparr>s3_Bucket = cr_Bucket cr,
                 s3_Endpoint = default_str ''https://storage.yandexcloud.net'' (cr_Endpoint cr),
                 s3_Region = default_str ''ru-central1'' (cr_Region cr), s3_Prefix = [], s3_Auth = auth\<rparr> of
           Inl e \<Rightarrow> Inl (Wrapf ''creating S3 client for manifest resource: %w'' [] e)
         | Inr client \<Rightarrow> Inr (SS3 \<lparr>s3s_client = client, s3s_key = cr_Path cr\<rparr>))
      else if cr_Provider cr = ''http'' then
        Inr (SHTTP (NewHTTPSource (if cr_Endpoint cr \<noteq> [] then cr_Endpoint cr @ cr_Path cr else cr_Path cr) (cr_Headers cr)))
      else Inl (Errorf ''unsupported manifest config provider %q'' [ArgS (cr_Provider cr)]))"

definition resolveSource :: "key_env \<Rightarrow> ConfigResource \<Rightarrow> ManifestSource \<Rightarrow> leaf_source res \<times> ManifestSource" where
  "resolveSource ke cr ms =
     (case (ms_resolvedSrc ms, ms_resolvedCR ms) of
        (Some src, Some old) \<Rightarrow>
          (if configResourceEqual old cr then (Inr src, ms)
           else case buildSourceFromResource ke (ms_auth ms) cr of
             Inl e \<Rightarrow> (Inl e, ms)
           | Inr new \<Rightarrow> (Inr new, ms\<lparr>ms_resolvedSrc := Some new, ms_resolvedCR := Some cr\<rparr>))
      | _ \<Rightarrow>
          (case buildSourceFromResource ke (ms_auth ms) cr of
             Inl e \<Rightarrow> (Inl e, ms)
           | Inr new \<Rightarrow> (Inr new, ms\<lparr>ms_resolvedSrc := Some new, ms_resolvedCR := Some cr\<rparr>)))"

text \<open>The second half of \<open>ManifestSource.Fetch\<close>, once the service entry is known to have changed.\<close>

definition fetch_entry ::
  "(string \<Rightarrow> string) \<Rightarrow> world \<Rightarrow> ServiceManifest \<Rightarrow> string \<Rightarrow> string \<Rightarrow> ManifestSource \<Rightarrow> FetchedConfig res \<times> ManifestSource" where
  "fetch_entry sha w svc cksum syntheticETag ms =
     (case resolveSource (wd_keys w) (sm_Config svc) ms of
        (Inl e, ms1) \<Rightarrow> (Inl (Wrapf ''resolving config source for %s: %w'' [ArgS (ms_serviceName ms)] e), ms1)
      | (Inr src, ms1) \<Rightarrow>
          (case leaf_Fetch w src of (r, src') \<Rightarrow>
             (let ms2 = ms1\<lparr>ms_resolvedSrc := Some src'\<rparr> in
              case r of
                Inl e \<Rightarrow> (Inl (Wrapf ''fetching config for %s via %s: %w'' [ArgS (ms_serviceName ms), ArgS (cr_Provider (sm_Config svc))] e), ms2)
              | Inr fc \<Rightarrow>
                  (case fc_Data fc of
                     None \<Rightarrow> (Inr \<lparr>fc_Data = None, fc_ETag = syntheticETag\<rparr>, ms2)
                   | Some data \<Rightarrow>
                       (case cr_Checksum (sm_Config svc) of
                          Some ck \<Rightarrow>
                            (if sha data \<noteq> ci_Value ck
                             then (Inl (Errorf ''config checksum mismatch for %s: manifest expects %s %s, got %s''
                                     [ArgS (ms_serviceName ms), ArgS (ci_Algorithm ck), ArgS (ci_Value ck), ArgS (sha data)]), ms2)
                             else (Inr \<lparr>fc_Data = Some data, fc_ETag = syntheticETag\<rparr>,
                                   ms2\<lparr>ms_lastVersion := sm_Version svc, ms_lastCksum := cksum\<rparr>))
                        | None \<Rightarrow>
                            (Inr \<lparr>fc_Data = Some data, fc_ETag = syntheticETag\<rparr>,
                             ms2\<lparr>ms_lastVersion := sm_Version svc, ms_lastCksum := cksum\<rparr>))))))"

definition entry_checksum :: "ServiceManifest \<Rightarrow> string" where
  "entry_checksum svc = (case cr_Checksum (sm_Config svc) of None \<Rightarrow> [] | Some ck \<Rightarrow> ci_Value ck)"

definition Manifest_Fetch :: "(string \<Rightarrow> string) \<Rightarrow> world \<Rightarrow> ManifestSource \<Rightarrow> FetchedConfig res \<times> ManifestSource" where
  "Manifest_Fetch sha w ms0 =
     (case leaf_Fetch w (ms_bootstrap ms0) of (r, boot) \<Rightarrow>
        (let ms = ms0\<lparr>ms_bootstrap := boot\<rparr> in
         case r of
           Inl e \<Rightarrow> (Inl (Wrapf ''fetching manifest: %w'' [] e), ms)
         | Inr fetched \<Rightarrow>
             (case fc_Data fetched of
                None \<Rightarrow> (Inr \<lparr>fc_Data = None, fc_ETag = fc_ETag fetched\<rparr>, ms)
              | Some doc \<Rightarrow>
                  (case ParseManifest (wd_json w) doc of
                     Inl e \<Rightarrow> (Inl (Wrapf ''manifest parse: %w'' [] e), ms)
                   | Inr manifest \<Rightarrow>
                       (case LookupService manifest (ms_serviceName ms) of
                          Inl e \<Rightarrow> (Inl (Wrapf ''manifest lookup: %w'' [] e), ms)
                        | Inr svc \<Rightarrow>
                            (let cksum = entry_checksum svc;
                                 syntheticETag = ''manifest:'' @ fc_ETag fetched @ '':svc:'' @ sm_Version svc @ '':cksum:'' @ cksum
                             in if sm_Version svc = ms_lastVersion ms \<and> cksum = ms_lastCksum ms \<and> ms_lastVersion ms \<noteq> []
                                then (Inr \<lparr>fc_Data = None, fc_ETag = syntheticETag\<rparr>, ms)
                                else fetch_entry sha w svc cksum syntheticETag ms))))))"

fun Fetch :: "(string \<Rightarrow> string) \<Rightarrow> world \<Rightarrow> source \<Rightarrow> FetchedConfig res \<times> source" where
  "Fetch sha w (SLeaf s) = (case leaf_Fetch w s of (r, s') \<Rightarrow> (r, SLeaf s'))"
| "Fetch sha w (SManifest m) = (case Manifest_Fetch sha w m of (r, m') \<Rightarrow> (r, SManifest m'))"

section \<open>Building a source (\<open>builder.go\<close>)\<close>

record SourceParams =
  sp_Source :: string
  sp_File :: string
  sp_S3Bucket :: string
  sp_S3Key :: string
  sp_S3Endpoint :: string
  sp_S3Region :: string
  sp_S3AuthMode :: string
  sp_S3AccessKeyID :: string
  sp_S3SecretKey :: string
  sp_S3IAMToken :: string
  sp_S3OAuthToken :: string
  sp_S3SAKeyFile :: string
  sp_HTTPURL :: string
  sp_HTTPHeaders :: "(string \<times> string) list"
  sp_ManifestServiceName :: string
  sp_ManifestBootstrap :: string
  sp_ManifestFile :: string

definition s3AuthFromParams :: "SourceParams \<Rightarrow> AuthConfig" where
  "s3AuthFromParams p =
     \<lparr>ya_AuthMode = sp_S3AuthMode p, ya_IAMToken = NewSecret (sp_S3IAMToken p), ya_OAuthToken = NewSecret (sp_S3OAuthToken p),
      ya_SAKeyFile = sp_S3SAKeyFile p, ya_AccessKeyID = NewSecret (sp_S3AccessKeyID p),
      ya_SecretAccessKey = NewSecret (sp_S3SecretKey p)\<rparr>"

text \<open>The branches of \<open>BuildSource\<close> for the plain sources; \<open>None\<close> for any other source type.\<close>

definition build_leaf :: "key_env \<Rightarrow> SourceParams \<Rightarrow> leaf_source res option" where
  "build_leaf ke p =
     (if sp_Source p = ''file'' then
        Some (if sp_File p = [] then Inl (New ''file path is required for file config source'')
              else Inr (SFile \<lparr>fs_path = sp_File p\<rparr>))
      else if sp_Source p = ''s3'' then
        Some (if sp_S3Bucket p = [] then Inl (New ''S3 bucket is required for s3 config source'')
              else case S3_NewClient ke \<lparr>s3_Bucket = sp_S3Bucket p, s3_Endpoint = sp_S3Endpoint p, s3_Region = sp_S3Region p,
                          s3_Prefix = [], s3_Auth = s3AuthFromParams p\<rparr> of
                Inl e \<Rightarrow> Inl (Wrapf ''creating S3 client: %w'' [] e)
              | Inr client \<Rightarrow> Inr (SS3 \<lparr>s3s_client = client, s3s_key = sp_S3Key p\<rparr>))
      else if sp_Source p = ''http'' then
        Some (if sp_HTTPURL p = [] then Inl (New ''URL is required for http config source'')
              else Inr (SHTTP (NewHTTPSource (sp_HTTPURL p) (sp_HTTPHeaders p))))
      else None)"

definition zero_params :: SourceParams where
  "zero_params =
     \<lparr>sp_Source = [], sp_File = [], sp_S3Bucket = [], sp_S3Key = [], sp_S3Endpoint = [], sp_S3Region = [], sp_S3AuthMode = [],
      sp_S3AccessKeyID = [], sp_S3SecretKey = [], sp_S3IAMToken = [], sp_S3OAuthToken = [], sp_S3SAKeyFile = [],
      sp_HTTPURL = [], sp_HTTPHeaders = [], sp_ManifestServiceName = [], sp_ManifestBootstrap = [], sp_ManifestFile = []\<rparr>"

definition bootstrap_params :: "SourceParams \<Rightarrow> SourceParams res" where
  "bootstrap_params p =
     (let b = zero_params\<lparr>sp_Source := sp_ManifestBootstrap p\<rparr> in
      if sp_ManifestBootstrap p = ''file'' then
        (if sp_ManifestFile p = [] then Inl (New ''manifest file path is required when manifest bootstrap is file'')
         else Inr (b\<lparr>sp_File := sp_ManifestFile p\<rparr>))
      else if sp_ManifestBootstrap p = ''s3'' then
        Inr (b\<lparr>sp_S3Bucket := sp_S3Bucket p, sp_S3Key := sp_S3Key p, sp_S3Endpoint := sp_S3Endpoint p,
               sp_S3Region := sp_S3Region p, sp_S3AuthMode := sp_S3AuthMode p, sp_S3AccessKeyID := sp_S3AccessKeyID p,
               sp_S3SecretKey := sp_S3SecretKey p, sp_S3IAMToken := sp_S3IAMToken p,
               sp_S3OAuthToken := sp_S3OAuthToken p, sp_S3SAKeyFile := sp_S3SAKeyFile p\<rparr>)
      else if sp_ManifestBootstrap p = ''http'' then
        Inr (b\<lparr>sp_HTTPURL := sp_HTTPURL p, sp_HTTPHeaders := sp_HTTPHeaders p\<rparr>)
      else Inl (Errorf ''unsupported manifest bootstrap source %q; supported: file, s3, http'' [ArgS (sp_ManifestBootstrap p)]))"

definition NewManifestSource :: "leaf_source \<Rightarrow> string \<Rightarrow> AuthConfig \<Rightarrow> ManifestSource" where
  "NewManifestSource bootstrap serviceName auth =
     \<lparr>ms_bootstrap = bootstrap, ms_serviceName = serviceName, ms_auth = auth, ms_lastVersion = [], ms_lastCksum = [],
      ms_resolvedSrc = None, ms_resolvedCR = None\<rparr>"

text \<open>\<open>BuildSource\<close>; the recursive call for the bootstrap source always gets a plain source type.\<close>

definition BuildSource :: "key_env \<Rightarrow> SourceParams \<Rightarrow> source res" where
  "BuildSource ke p =
     (case build_leaf ke p of
        Some (Inl e) \<Rightarrow> Inl e
      | Some (Inr s) \<Rightarrow> Inr (SLeaf s)
      | None \<Rightarrow>
          (if sp_Source p = ''manifest'' then
             (if sp_ManifestServiceName p = [] then Inl (New ''service name is required for manifest config source'')
              else if sp_ManifestBootstrap p = [] then Inl (New ''manifest bootstrap source type is required (file, s3, http)'')
              else case bootstrap_params p of
                Inl e \<Rightarrow> Inl e
              | Inr bp \<Rightarrow>
                  (case build_leaf ke bp of
                     Some (Inr boot) \<Rightarrow>
                       Inr (SManifest (NewManifestSource boot (sp_ManifestServiceName p) (s3AuthFromParams p)))
                   | Some (Inl e) \<Rightarrow> Inl (Wrapf ''building manifest bootstrap source: %w'' [] e)
                   | None \<Rightarrow> Inl (Wrapf ''building manifest bootstrap source: %w'' []
                       (Errorf ''unknown config source %q; supported: file, s3, http, manifest'' [ArgS (sp_Source bp)]))))
           else Inl (Errorf ''unknown config source %q; supported: file, s3, http, manifest'' [ArgS (sp_Source p)])))"

end
