(* ===== verification/Durations.thy ===== *)
theory Durations
  imports GoStrings
begin

text \<open>
  \<open>configutil/duration.go\<close>: durations with a day suffix. The model has
  \<open>time.ParseDuration\<close> of Go's standard library (unsigned 64-bit accumulation,
  its overflow checks, its unit table), the two regular expressions of the
  package as the scanners they denote, and \<open>parseDuration\<close>, which rewrites
  \<open>Nd\<close> to \<open>(N*24)h\<close> in 64-bit arithmetic and delegates. The one
  floating-point step of \<open>time.ParseDuration\<close>, the nanoseconds of a decimal
  fraction \<open>f/scale\<close> of a unit, is the parameter \<open>frac\<close>; no theorem depends
  on its value.
\<close>

section \<open>time.ParseDuration\<close>

definition unitMap :: "string \<Rightarrow> nat option" where
  "unitMap u =
     (if u = ''ns'' then Some 1
      else if u = ''us'' then Some 1000
      else if u = [CHR 0xC2, CHR 0xB5, CHR ''s''] then Some 1000
      else if u = [CHR 0xCE, CHR 0xBC, CHR ''s''] then Some 1000
      else if u = ''ms'' then Some 1000000
      else if u = ''s'' then Some 1000000000
      else if u = ''m'' then Some 60000000000
      else if u = ''h'' then Some 3600000000000
      else None)"

fun leadingInt :: "nat \<Rightarrow> string \<Rightarrow> (nat \<times> string) option" where
  "leadingInt x [] = Some (x, [])"
| "leadingInt x (c # s) =
     (if \<not> is_digit c then Some (x, c # s)
      else if x > 2 ^ 63 div 10 then None
      else let y = x * 10 + digit_val c in if y > 2 ^ 63 then None else leadingInt y s)"

text \<open>The digits after the point: value, power of ten, rest; digits past the overflow are skipped.\<close>

fun leadingFraction :: "nat \<Rightarrow> nat \<Rightarrow> bool \<Rightarrow> string \<Rightarrow> nat \<times> nat \<times> string" where
  "leadingFraction x scale over [] = (x, scale, [])"
| "leadingFraction x scale over (c # s) =
     (if \<not> is_digit c then (x, scale, c # s)
      else if over then leadingFraction x scale True s
      else if x > (2 ^ 63 - 1) div 10 then leadingFraction x scale True s
      else let y = x * 10 + digit_val c
           in if y > 2 ^ 63 then leadingFraction x scale True s
              else leadingFraction y (scale * 10) False s)"

definition is_num_char :: "char \<Rightarrow> bool" where
  "is_num_char c \<longleftrightarrow> c = CHR ''.'' \<or> is_digit c"

lemma leadingInt_length: "leadingInt x s = Some (v, r) \<Longrightarrow> length r \<le> length s"
  by (induction x s rule: leadingInt.induct) (auto simp: Let_def split: if_splits)

lemma leadingFraction_length: "length (snd (snd (leadingFraction x sc ov s))) \<le> length s"
  by (induction s arbitrary: x sc ov) (auto simp: Let_def le_SucI)

text \<open>
  One pass of the loop body after the sign: the number, the optional fraction
  and the unit, giving the nanoseconds of the component and the rest.
\<close>

definition duration_component ::
  "(nat \<Rightarrow> nat \<Rightarrow> nat \<Rightarrow> nat) \<Rightarrow> string \<Rightarrow> string \<Rightarrow> (nat \<times> string) res" where
  "duration_component frac orig s =
     (if \<not> is_num_char (hd s) then Inl (Errorf ''time: invalid duration %q'' [ArgS orig])
      else case leadingInt 0 s of
        None \<Rightarrow> Inl (Errorf ''time: invalid duration %q'' [ArgS orig])
      | Some (v, s1) \<Rightarrow>
          let pre = (length s \<noteq> length s1);
              (f, scale, s2) = (if take 1 s1 = ''.'' then leadingFraction 0 1 False (drop 1 s1)
                                else (0, 1, s1));
              post = (take 1 s1 = ''.'' \<and> length (drop 1 s1) \<noteq> length s2)
          in if \<not> pre \<and> \<not> post then Inl (Errorf ''time: invalid duration %q'' [ArgS orig])
             else let u = takeWhile (\<lambda>c. \<not> is_num_char c) s2;
                      s3 = dropWhile (\<lambda>c. \<not> is_num_char c) s2
                  in if u = [] then Inl (Errorf ''time: missing unit in duration %q'' [ArgS orig])
                     else case unitMap u of
                       None \<Rightarrow> Inl (Errorf ''time: unknown unit %q in duration %q'' [ArgS u, ArgS orig])
                     | Some unit \<Rightarrow>
                         if v > 2 ^ 63 div unit
                         then Inl (Errorf ''time: invalid duration %q'' [ArgS orig])
                         else let v1 = v * unit;
                                  v2 = (if f > 0 then (v1 + frac f unit scale) mod 2 ^ 64 else v1)
                              in if f > 0 \<and> v2 > 2 ^ 63
                                 then Inl (Errorf ''time: invalid duration %q'' [ArgS orig])
                                 else Inr (v2, s3))"

lemma duration_component_shrinks:
  assumes "duration_component frac orig s = Inr (v, r)"
  shows "length r < length s"
proof -
  from assms obtain v0 s1 where s1: "leadingInt 0 s = Some (v0, s1)"
    by (auto simp: duration_component_def split: if_splits option.splits)
  let ?s2 = "snd (snd (if take 1 s1 = ''.'' then leadingFraction 0 1 False (drop 1 s1) else (0, 1, s1)))"
  have r: "r = dropWhile (\<lambda>c. \<not> is_num_char c) ?s2"
    and u: "takeWhile (\<lambda>c. \<not> is_num_char c) ?s2 \<noteq> []"
    using assms s1
    by (auto simp: duration_component_def Let_def split: if_splits option.splits prod.splits)
  have "length ?s2 \<le> length s"
    using leadingInt_length [OF s1] leadingFraction_length [of 0 1 False "drop 1 s1"] by auto
  moreover have "length ?s2 = length (takeWhile (\<lambda>c. \<not> is_num_char c) ?s2) + length r"
    using r by (metis length_append takeWhile_dropWhile_id)
  moreover have "length (takeWhile (\<lambda>c. \<not> is_num_char c) ?s2) > 0"
    using u by blast
  ultimately show ?thesis by linarith
qed

function duration_loop ::
  "(nat \<Rightarrow> nat \<Rightarrow> nat \<Rightarrow> nat) \<Rightarrow> string \<Rightarrow> nat \<Rightarrow> string \<Rightarrow> nat res" where
  "duration_loop frac orig d s =
     (if s = [] then Inr d
      else case duration_component frac orig s of
        Inl e \<Rightarrow> Inl e
      | Inr (v, r) \<Rightarrow>
          let d' = (d + v) mod 2 ^ 64
          in if d' > 2 ^ 63 then Inl (Errorf ''time: invalid duration %q'' [ArgS orig])
             else duration_loop frac orig d' r)"
  by pat_completeness auto
termination
  by (relation "measure (\<lambda>(_, _, _, s). length s)") (auto simp: duration_component_shrinks)

declare duration_loop.simps [simp del]

definition ParseDuration :: "(nat \<Rightarrow> nat \<Rightarrow> nat \<Rightarrow> nat) \<Rightarrow> string \<Rightarrow> int res" where
  "ParseDuration frac orig =
     (let neg = (take 1 orig = ''-'');
          s = (if take 1 orig = ''-'' \<or> take 1 orig = ''+'' then drop 1 orig else orig)
      in if s = ''0'' then Inr 0
         else if s = [] then Inl (Errorf ''time: invalid duration %q'' [ArgS orig])
         else case duration_loop frac orig 0 s of
           Inl e \<Rightarrow> Inl e
         | Inr d \<Rightarrow>
             if neg then Inr (wrap64 (- int d))
             else if d > 2 ^ 63 - 1 then Inl (Errorf ''time: invalid duration %q'' [ArgS orig])
             else Inr (int d))"

section \<open>The day suffix\<close>

text \<open>\<open>fracDayPattern.MatchString(s)\<close>: a point, digits and \<open>d\<close> somewhere in \<open>s\<close>.\<close>

fun fracDayPattern :: "string \<Rightarrow> bool" where
  "fracDayPattern [] = False"
| "fracDayPattern (c # s) =
     ((c = CHR ''.'' \<and> takeWhile is_digit s \<noteq> [] \<and> take 1 (dropWhile is_digit s) = ''d'')
      \<or> fracDayPattern s)"

text \<open>
  \<open>dayPattern.ReplaceAllStringFunc\<close>: each leftmost maximal run of digits that
  is followed by \<open>d\<close> becomes the hours. \<open>strconv.Atoi\<close>'s error is dropped and
  the product is a 64-bit product, as in the source.
\<close>

definition day_to_hours :: "string \<Rightarrow> string" where
  "day_to_hours ds = itoa (wrap64 (fst (atoi ds) * 24)) @ ''h''"

function replaceDays :: "string \<Rightarrow> string" where
  "replaceDays [] = []"
| "replaceDays (c # s) =
     (if is_digit c then
        (let ds = takeWhile is_digit (c # s); r = dropWhile is_digit (c # s)
         in if take 1 r = ''d'' then day_to_hours ds @ replaceDays (drop 1 r)
            else ds @ replaceDays r)
      else c # replaceDays s)"
  by pat_completeness auto
termination
  by (relation "measure length") (auto simp: length_dropWhile_le le_imp_less_Suc diff_less_Suc
      intro: le_less_trans [OF diff_le_self])

declare replaceDays.simps(2) [simp del]

definition parseDuration :: "(nat \<Rightarrow> nat \<Rightarrow> nat \<Rightarrow> nat) \<Rightarrow> string \<Rightarrow> int res" where
  "parseDuration frac s =
     (if fracDayPattern s
      then Inl (Errorf ''fractional days are not supported in %q; use hours instead (e.g. \"36h\" instead of \"1.5d\")'' [ArgS s])
      else ParseDuration frac (replaceDays s))"

text \<open>
  \<open>Duration.UnmarshalYAML\<close> on the decoded scalar, given as the result of
  \<open>value.Decode(&s)\<close>: the new value of the \<open>Duration\<close>.
\<close>

definition Duration_UnmarshalYAML ::
  "(nat \<Rightarrow> nat \<Rightarrow> nat \<Rightarrow> nat) \<Rightarrow> string res \<Rightarrow> int res" where
  "Duration_UnmarshalYAML frac decoded =
     res_bind decoded (\<lambda>s. wrap_res ''invalid duration %q: %w'' [ArgS s] (parseDuration frac s))"

section \<open>What the parser computes\<close>

text \<open>The canonical spelling of a duration: components of a number and a unit.\<close>

definition unit_nanos :: "string \<Rightarrow> nat option" where
  "unit_nanos u = (if u = ''d'' then Some (24 * 3600000000000) else unitMap u)"

definition render :: "(nat \<times> string) list \<Rightarrow> string" where
  "render cs = concat (map (\<lambda>(v, u). show_nat v @ u) cs)"

definition nanos :: "(nat \<times> string) list \<Rightarrow> nat" where
  "nanos cs = (\<Sum>(v, u) \<leftarrow> cs. v * the (unit_nanos u))"

definition known_units :: "(nat \<times> string) list \<Rightarrow> bool" where
  "known_units cs \<longleftrightarrow> (\<forall>(v, u) \<in> set cs. unit_nanos u \<noteq> None)"

lemma render_simps [simp]:
  "render [] = []" "render ((v, u) # cs) = show_nat v @ u @ render cs"
  by (simp_all add: render_def)

lemma nanos_simps [simp]:
  "nanos [] = 0" "nanos ((v, u) # cs) = v * the (unit_nanos u) + nanos cs"
  by (simp_all add: nanos_def)

lemma known_units_simps [simp]:
  "known_units []" "known_units ((v, u) # cs) \<longleftrightarrow> unit_nanos u \<noteq> None \<and> known_units cs"
  by (auto simp: known_units_def)

lemma unitMap_facts:
  assumes "unitMap u = Some n"
  shows "n > 0" "u \<noteq> []" "\<forall>c \<in> set u. \<not> is_num_char c" "hd u \<noteq> CHR ''d''" "u \<noteq> ''d''"
  using assms
  by (auto simp: unitMap_def is_num_char_def is_digit_def byte_def split: if_splits)

lemma hd_show_nat_digit: "is_digit (hd (show_nat n))"
  using show_nat_digits [of n] by (simp add: hd_in_set)

lemma foldl_digits_ge: "x \<le> foldl (\<lambda>n c. 10 * n + digit_val c) x ds"
proof (induction ds arbitrary: x)
  case (Cons c ds)
  have "x \<le> 10 * x + digit_val c" by simp
  also have "\<dots> \<le> foldl (\<lambda>n c. 10 * n + digit_val c) (10 * x + digit_val c) ds"
    by (rule Cons.IH)
  finally show ?case by simp
qed simp

lemma leadingInt_digits:
  assumes "\<forall>c \<in> set ds. is_digit c" "r = [] \<or> \<not> is_digit (hd r)"
    and "foldl (\<lambda>n c. 10 * n + digit_val c) x ds \<le> 2 ^ 63"
  shows "leadingInt x (ds @ r) = Some (foldl (\<lambda>n c. 10 * n + digit_val c) x ds, r)"
  using assms
proof (induction ds arbitrary: x)
  case Nil
  then show ?case by (cases r) auto
next
  case (Cons c ds)
  have "10 * x + digit_val c \<le> 2 ^ 63"
    using foldl_digits_ge [of "10 * x + digit_val c" ds] Cons.prems(3) by simp
  then have "\<not> x > 2 ^ 63 div 10" "\<not> x * 10 + digit_val c > 2 ^ 63" by auto
  then show ?case
    using Cons.IH [of "10 * x + digit_val c"] Cons.prems
    by (simp add: Let_def mult.commute)
qed

lemma leadingInt_show_nat:
  assumes "n \<le> 2 ^ 63" "r = [] \<or> \<not> is_digit (hd r)"
  shows "leadingInt 0 (show_nat n @ r) = Some (n, r)"
  using leadingInt_digits [OF show_nat_digits [of n] assms(2), of 0]
    digits_val_show_nat [of n] assms(1)
  by (simp add: digits_val_def)

lemma takeWhile_unit:
  assumes "\<forall>c \<in> set u. \<not> P c" "r = [] \<or> P (hd r)"
  shows "takeWhile (\<lambda>c. \<not> P c) (u @ r) = u" "dropWhile (\<lambda>c. \<not> P c) (u @ r) = r"
  using assms by (auto simp: takeWhile_append dropWhile_append takeWhile_eq_Nil_iff)
    (cases r; auto)+

lemma duration_component_render:
  assumes u: "unitMap u = Some n" and le: "v * n \<le> 2 ^ 63" and r: "r = [] \<or> is_num_char (hd r)"
  shows "duration_component frac orig (show_nat v @ u @ r) = Inr (v * n, r)"
proof -
  note facts = unitMap_facts [OF u]
  have "v \<le> 2 ^ 63" using le facts(1) by (metis le_trans mult.right_neutral mult_le_mono2 Suc_leI One_nat_def)
  moreover obtain c t where ct: "u = c # t" using facts(2) by (cases u) auto
  moreover have c: "\<not> is_digit c" "c \<noteq> CHR ''.''" using ct facts(3) by (auto simp: is_num_char_def)
  ultimately have 1: "leadingInt 0 (show_nat v @ u @ r) = Some (v, u @ r)"
    by (intro leadingInt_show_nat) auto
  have 2: "is_num_char (hd (show_nat v @ u @ r))"
    using hd_show_nat_digit [of v] by (simp add: is_num_char_def)
  have 3: "\<not> v > 2 ^ 63 div n" using le facts(1) by (simp add: less_eq_div_iff_mult_less_eq not_less)
  show ?thesis
    using 1 2 3 takeWhile_unit [OF facts(3) r] u ct c
    by (simp add: duration_component_def)
qed

lemma hd_render_num: "render cs = [] \<or> is_num_char (hd (render cs))"
  using hd_show_nat_digit by (cases cs) (auto simp: is_num_char_def)

lemma duration_loop_render:
  assumes "\<forall>(v, u) \<in> set cs. unitMap u \<noteq> None"
    and "d + (\<Sum>(v, u) \<leftarrow> cs. v * the (unitMap u)) \<le> 2 ^ 63"
  shows "duration_loop frac orig d (render cs) = Inr (d + (\<Sum>(v, u) \<leftarrow> cs. v * the (unitMap u)))"
  using assms
proof (induction cs arbitrary: d)
  case Nil
  then show ?case by (simp add: duration_loop.simps)
next
  case (Cons c cs)
  obtain v u n where c: "c = (v, u)" "unitMap u = Some n" using Cons.prems by (cases c) auto
  have le: "v * n \<le> 2 ^ 63" "d + v * n \<le> 2 ^ 63" using Cons.prems(2) c by auto
  have "duration_component frac orig (show_nat v @ u @ render cs) = Inr (v * n, render cs)"
    by (rule duration_component_render [OF c(2) le(1) hd_render_num])
  then have "duration_loop frac orig d (render (c # cs)) = duration_loop frac orig (d + v * n) (render cs)"
    using c le by (simp add: duration_loop.simps [of frac orig d])
  then show ?case using Cons.IH [of "d + v * n"] Cons.prems c by (simp add: add.assoc)
qed

lemma dropWhile_digits:
  assumes "\<forall>c \<in> set ds. is_digit c" "r = [] \<or> \<not> is_digit (hd r)"
  shows "takeWhile is_digit (ds @ r) = ds" "dropWhile is_digit (ds @ r) = r"
  using takeWhile_unit [of ds "\<lambda>c. \<not> is_digit c" r] assms by auto

lemma replaceDays_run:
  assumes "ds \<noteq> []" "\<forall>c \<in> set ds. is_digit c" "r = [] \<or> \<not> is_digit (hd r)"
  shows "replaceDays (ds @ r) =
    (if take 1 r = ''d'' then day_to_hours ds @ replaceDays (drop 1 r) else ds @ replaceDays r)"
proof -
  obtain c t where "ds = c # t" using assms(1) by (cases ds) auto
  then show ?thesis
    using replaceDays.simps(2) [of c "t @ r"] dropWhile_digits [OF assms(2,3)] assms(2)
    by (simp add: Let_def)
qed

lemma replaceDays_nondigits:
  "\<forall>c \<in> set u. \<not> is_digit c \<Longrightarrow> replaceDays (u @ r) = u @ replaceDays r"
  by (induction u) (auto simp: replaceDays.simps(2))

definition days_as_hours :: "nat \<times> string \<Rightarrow> nat \<times> string" where
  "days_as_hours c = (if snd c = ''d'' then (24 * fst c, ''h'') else c)"

lemma days_as_hours_simps [simp]:
  "days_as_hours (v, ''d'') = (24 * v, ''h'')"
  "u \<noteq> ''d'' \<Longrightarrow> days_as_hours (v, u) = (v, u)"
  by (simp_all add: days_as_hours_def)

lemma day_to_hours_show_nat:
  assumes "int (24 * v) \<le> max_int64"
  shows "day_to_hours (show_nat v) = show_nat (24 * v) @ ''h''"
proof -
  have "fst (atoi (show_nat v)) = int v"
    using assms show_nat_digits by (simp add: atoi_digits)
  moreover have "wrap64 (int v * 24) = int (24 * v)"
    using assms by (intro trans [OF wrap64_id]) (auto simp: in_int64_def)
  ultimately show ?thesis by (simp add: day_to_hours_def itoa_def nat_mult_distrib)
qed

lemma replaceDays_render:
  assumes "known_units cs" "\<forall>(v, u) \<in> set cs. u = ''d'' \<longrightarrow> int (24 * v) \<le> max_int64"
  shows "replaceDays (render cs) = render (map days_as_hours cs)"
  using assms
proof (induction cs)
  case (Cons c cs)
  obtain v u where c: "c = (v, u)" by (cases c)
  have IH: "replaceDays (render cs) = render (map days_as_hours cs)"
    using Cons c by simp
  show ?case
  proof (cases "u = ''d''")
    case True
    then have "replaceDays (show_nat v @ u @ render cs) = day_to_hours (show_nat v) @ replaceDays (render cs)"
      using replaceDays_run [of "show_nat v" "u @ render cs"] show_nat_digits [of v]
      by (simp add: is_digit_def byte_def)
    with True c IH Cons.prems show ?thesis
      by (simp add: day_to_hours_show_nat)
  next
    case False
    then obtain n where "unitMap u = Some n" using Cons.prems c by (auto simp: unit_nanos_def)
    note facts = unitMap_facts [OF this]
    obtain d t where u: "u = d # t" using facts(2) by (cases u) auto
    have nd: "\<forall>x \<in> set u. \<not> is_digit x" using facts(3) by (auto simp: is_num_char_def)
    have "replaceDays (show_nat v @ u @ render cs) = show_nat v @ replaceDays (u @ render cs)"
      using replaceDays_run [of "show_nat v" "u @ render cs"] show_nat_digits [of v] u facts(4) nd
      by simp
    with False c IH nd show ?thesis
      by (simp add: replaceDays_nondigits)
  qed
qed simp

lemma no_point_no_fraction: "CHR ''.'' \<notin> set s \<Longrightarrow> \<not> fracDayPattern s"
  by (induction s) auto

lemma render_no_point: "known_units cs \<Longrightarrow> CHR ''.'' \<notin> set (render cs)"
proof (induction cs)
  case (Cons c cs)
  obtain v u where c: "c = (v, u)" by (cases c)
  have "CHR ''.'' \<notin> set (show_nat v)"
    using show_nat_digits [of v] by (auto simp: is_digit_def byte_def)
  moreover have "CHR ''.'' \<notin> set u"
    using Cons.prems c unitMap_facts(3) [of u]
    by (auto simp: unit_nanos_def is_num_char_def split: if_splits)
  ultimately show ?case using Cons c by simp
qed simp

lemma ParseDuration_render:
  assumes "cs \<noteq> []" "\<forall>(v, u) \<in> set cs. unitMap u \<noteq> None"
    and "int (\<Sum>(v, u) \<leftarrow> cs. v * the (unitMap u)) \<le> max_int64"
  shows "ParseDuration frac (render cs) = Inr (int (\<Sum>(v, u) \<leftarrow> cs. v * the (unitMap u)))"
proof -
  let ?n = "\<Sum>(v, u) \<leftarrow> cs. v * the (unitMap u)"
  obtain v u cs' where cs: "cs = (v, u) # cs'" using assms(1) by (cases cs) auto
  then obtain k where k: "unitMap u = Some k" using assms(2) by auto
  have num: "is_digit (hd (render cs))" "render cs \<noteq> []" using hd_show_nat_digit cs by auto
  then have "take 1 (render cs) \<noteq> ''-''" "take 1 (render cs) \<noteq> ''+''"
    by (cases "render cs"; auto simp: is_digit_def byte_def)+
  moreover have "render cs \<noteq> ''0''"
  proof
    assume "render cs = ''0''"
    then have "set u \<subseteq> {CHR ''0''}" using cs by (metis render_simps(2) set_append Un_upper1 Un_upper2 list.simps(15) subset_trans empty_set)
    then show False using unitMap_facts(2,3) [OF k]
      by (cases u) (auto simp: is_num_char_def is_digit_def byte_def)
  qed
  moreover have "duration_loop frac (render cs) 0 (render cs) = Inr ?n"
    using duration_loop_render [OF assms(2), of 0] assms(3) by simp
  ultimately show ?thesis
    using assms(3) num by (simp add: ParseDuration_def Let_def)
qed

lemma nanos_days_as_hours:
  "known_units cs \<Longrightarrow> (\<Sum>(v, u) \<leftarrow> map days_as_hours cs. v * the (unitMap u)) = nanos cs"
  by (induction cs) (auto simp: days_as_hours_def unit_nanos_def unitMap_def)

lemma known_units_hours:
  "known_units cs \<Longrightarrow> \<forall>(v, u) \<in> set (map days_as_hours cs). unitMap u \<noteq> None"
proof (induction cs)
  case (Cons c cs)
  obtain v u where "c = (v, u)" by (cases c)
  with Cons show ?case by (cases "u = ''d''") (simp_all add: unit_nanos_def unitMap_def)
qed simp

lemma days_fit:
  assumes "known_units cs" "int (nanos cs) \<le> max_int64" "(v, ''d'') \<in> set cs"
  shows "int (24 * v) \<le> max_int64"
  using assms by (induction cs) (auto simp: unit_nanos_def)

text \<open>
  C27: A duration written as a sequence of numbers with units (days included)
  parses to the sum of its components, whenever that sum is representable.
\<close>

theorem parseDuration_render:
  assumes "cs \<noteq> []" "known_units cs" "int (nanos cs) \<le> max_int64"
  shows "parseDuration frac (render cs) = Inr (int (nanos cs))"
proof -
  have "ParseDuration frac (render (map days_as_hours cs)) = Inr (int (nanos cs))"
    using ParseDuration_render [OF _ known_units_hours [OF assms(2)], of frac] assms(1,3)
    unfolding nanos_days_as_hours [OF assms(2)] by blast
  moreover have "replaceDays (render cs) = render (map days_as_hours cs)"
    using replaceDays_render [OF assms(2)] days_fit [OF assms(2,3)] by auto
  ultimately show ?thesis
    using assms(2) by (simp add: parseDuration_def no_point_no_fraction render_no_point)
qed

theorem parseDuration_render_witness:
  "parseDuration (\<lambda>f u sc. f * u div sc) (render [(1, ''d''), (12, ''h'')]) = Inr (36 * go_hour)"
  using parseDuration_render [of "[(1, ''d''), (12, ''h'')]" "\<lambda>f u sc. f * u div sc"]
  by (simp add: unit_nanos_def unitMap_def)

lemma fracDayPattern_append: "fracDayPattern s \<Longrightarrow> fracDayPattern (p @ s)"
  by (induction p) auto

text \<open>
  A fractional number of days is rejected wherever it stands in the text.
\<close>

theorem parseDuration_fractional_days:
  assumes "ds \<noteq> []" "\<forall>c \<in> set ds. is_digit c"
  shows "\<exists>e. parseDuration frac (p @ ''.'' @ ds @ ''d'' @ q) = Inl e"
proof -
  have "fracDayPattern (''.'' @ ds @ ''d'' @ q)"
    using assms dropWhile_digits [OF assms(2), of "''d'' @ q"] by (simp add: is_digit_def byte_def)
  then have "fracDayPattern (p @ ''.'' @ ds @ ''d'' @ q)"
    by (rule fracDayPattern_append)
  then show ?thesis by (simp add: parseDuration_def)
qed

theorem parseDuration_fractional_days_witness:
  "\<exists>e. parseDuration (\<lambda>f u sc. f * u div sc) (''1'' @ ''.'' @ ''5'' @ ''d'' @ []) = Inl e"
  by (rule parseDuration_fractional_days) (simp_all add: is_digit_def byte_def)

lemma ParseDuration_in_int64: "ParseDuration frac s = Inr d \<Longrightarrow> in_int64 d"
  using wrap64_range
  by (auto simp: ParseDuration_def Let_def in_int64_def
      split: if_splits sum.splits)

lemma show_nat_8: "show_nat 8 = ''8''"
  using char_of_char [of "CHR ''8''"] by (simp add: show_nat.simps [of 8] digit_char_def)

text \<open>
  The 64-bit product of the day count and 24 can wrap: an over-long day
  count (2.1 thousand trillion years) is accepted and means eight hours.
\<close>

theorem parseDuration_day_overflow:
  "parseDuration frac ''768614336404564651d'' = Inr (8 * go_hour)"
proof -
  have digits: "\<forall>c \<in> set ''768614336404564651''. is_digit c"
    by (simp add: is_digit_def byte_def)
  have val: "digits_val ''768614336404564651'' = 768614336404564651"
    by (simp add: digits_val_def digit_val_def byte_def)
  have "day_to_hours ''768614336404564651'' = ''8h''"
    using atoi_digits [OF _ digits] val
    by (simp add: day_to_hours_def wrap64_def itoa_def show_nat_8)
  moreover have "replaceDays (''768614336404564651'' @ ''d'') = day_to_hours ''768614336404564651''"
    using replaceDays_run [OF _ digits, of "''d''"] by (simp add: is_digit_def byte_def)
  ultimately have "replaceDays ''768614336404564651d'' = render [(8, ''h'')]"
    by (simp add: show_nat_8)
  then show ?thesis
    using ParseDuration_render [of "[(8, ''h'')]" frac]
    by (simp add: parseDuration_def no_point_no_fraction unitMap_def)
qed

end
