(* ===== verification/ConfigWatch.thy ===== *)
theory ConfigWatch
  imports ConfigSource Durations
begin

text \<open>
  The polling watcher (\<open>configsource/watcher.go\<close>), over any source that offers
  \<open>Fetch\<close>, and the loading helpers of package \<open>configload\<close>. The locale
  \<open>quiet_source\<close> is the contract under which a poll without news leaves no
  trace; the file, HTTP and S3 sources fulfil it, the manifest source does not,
  and two theorems show what the watcher loses by that.
\<close>

section \<open>The watcher\<close>

record 's ConfigWatcher =
  cw_source :: 's
  cw_lastETag :: string
  cw_lastHash :: string
  cw_hashPolicy :: HashPolicy
  cw_pinnedHash :: string

datatype WatcherOption = WithHashPolicy HashPolicy | WithPinnedHash string

fun apply_option :: "WatcherOption \<Rightarrow> 's ConfigWatcher \<Rightarrow> 's ConfigWatcher" where
  "apply_option (WithHashPolicy p) w = w\<lparr>cw_hashPolicy := p\<rparr>"
| "apply_option (WithPinnedHash h) w = w\<lparr>cw_pinnedHash := h\<rparr>"

definition NewConfigWatcher :: "'s \<Rightarrow> WatcherOption list \<Rightarrow> 's ConfigWatcher" where
  "NewConfigWatcher src opts =
     fold apply_option opts
       \<lparr>cw_source = src, cw_lastETag = [], cw_lastHash = [], cw_hashPolicy = HashTOFU, cw_pinnedHash = []\<rparr>"

text \<open>
  One poll: the verdict, the bytes handed to the apply function if it was called,
  and the watcher after it. \<open>f\<close> is the caller's apply function.
\<close>

definition Apply ::
  "(string \<Rightarrow> string) \<Rightarrow> ('w \<Rightarrow> 's \<Rightarrow> FetchedConfig res \<times> 's) \<Rightarrow> 'w \<Rightarrow> (string \<Rightarrow> bool res) \<Rightarrow>
   's ConfigWatcher \<Rightarrow> (bool res \<times> string option) \<times> 's ConfigWatcher" where
  "Apply sha fetch wd f w0 =
     (case fetch wd (cw_source w0) of (r, src) \<Rightarrow>
        (let w = w0\<lparr>cw_source := src\<rparr> in
         case r of
           Inl e \<Rightarrow> ((Inl (Wrapf ''fetching config: %w'' [] e), None), w)
         | Inr fetched \<Rightarrow>
             (case fc_Data fetched of
                None \<Rightarrow> ((Inr False, None), w)
              | Some data \<Rightarrow>
                  (let currentHash = sha data in
                   case ValidateHash (cw_hashPolicy w) (cw_pinnedHash w) currentHash (cw_lastHash w) (fc_ETag fetched) (cw_lastETag w) of
                     Some e \<Rightarrow> ((Inl (Wrapf ''hash validation: %w'' [] e), None), w)
                   | None \<Rightarrow>
                       (if fc_ETag fetched \<noteq> [] \<and> fc_ETag fetched = cw_lastETag w \<and> currentHash = cw_lastHash w
                        then ((Inr False, None), w)
                        else case f data of
                          Inl e \<Rightarrow> ((Inl (Wrapf ''applying config: %w'' [] e), Some data), w\<lparr>cw_lastETag := []\<rparr>)
                        | Inr changed \<Rightarrow>
                            ((Inr changed, Some data), w\<lparr>cw_lastETag := fc_ETag fetched, cw_lastHash := currentHash\<rparr>))))))"

text \<open>\<open>RunPeriodicWatch\<close>: one poll per tick until the context ends; errors do not stop it.\<close>

fun RunPeriodicWatch ::
  "(string \<Rightarrow> string) \<Rightarrow> ('w \<Rightarrow> 's \<Rightarrow> FetchedConfig res \<times> 's) \<Rightarrow> ('w \<times> (string \<Rightarrow> bool res)) list \<Rightarrow>
   's ConfigWatcher \<Rightarrow> (bool res \<times> string option) list \<times> 's ConfigWatcher" where
  "RunPeriodicWatch sha fetch [] w = ([], w)"
| "RunPeriodicWatch sha fetch ((wd, f) # ticks) w =
     (case Apply sha fetch wd f w of (out, w') \<Rightarrow>
        (case RunPeriodicWatch sha fetch ticks w' of (outs, w'') \<Rightarrow> (out # outs, w'')))"

section \<open>Loading (\<open>configload\<close>)\<close>

definition LoadInitial ::
  "(string \<Rightarrow> string) \<Rightarrow> world \<Rightarrow> (string \<Rightarrow> 'c res) \<Rightarrow> SourceParams \<Rightarrow> 'c res" where
  "LoadInitial sha wd parse params =
     (case BuildSource (wd_keys wd) params of
        Inl e \<Rightarrow> Inl e
      | Inr src \<Rightarrow>
          (case fst (Fetch sha wd src) of
             Inl e \<Rightarrow> Inl (Wrapf ''fetching config: %w'' [] e)
           | Inr fetched \<Rightarrow>
               (case fc_Data fetched of
                  None \<Rightarrow> Inl (New ''config source returned empty data'')
                | Some data \<Rightarrow> parse data)))"

text \<open>The apply function of \<open>NewValidatingWatcher\<close>: it validates and never changes anything.\<close>

definition validating_apply :: "(string \<Rightarrow> err) \<Rightarrow> string \<Rightarrow> bool res" where
  "validating_apply validate data = (case validate data of Some e \<Rightarrow> Inl e | None \<Rightarrow> Inr False)"

definition EnvOrDefault :: "envmap \<Rightarrow> string \<Rightarrow> string \<Rightarrow> string" where
  "EnvOrDefault env key d = (if Getenv env key \<noteq> [] then Getenv env key else d)"

definition ParseInterval :: "(nat \<Rightarrow> nat \<Rightarrow> nat \<Rightarrow> nat) \<Rightarrow> string \<Rightarrow> int" where
  "ParseInterval frac s =
     (if s = [] \<or> s = ''0'' then 0
      else case ParseDuration frac s of Inl e \<Rightarrow> 0 | Inr d \<Rightarrow> d)"

record SourceFlags =
  sf_params :: SourceParams
  sf_httpHeader :: string
  sf_httpBearer :: string
  sf_RefreshInterval :: string
  sf_HashPolicy :: string
  sf_PinnedHash :: string

definition NewSourceFlags :: "envmap \<Rightarrow> SourceFlags" where
  "NewSourceFlags env =
     (let get = EnvOrDefault env in
      \<lparr>sf_params =
         \<lparr>sp_Source = get ''CONFIG_SOURCE'' ''file'', sp_File = get ''CONFIG_FILE'' ''config.yaml'',
          sp_S3Bucket = get ''CONFIG_S3_BUCKET'' [], sp_S3Key = get ''CONFIG_S3_KEY'' ''config.yaml'',
          sp_S3Endpoint = get ''CONFIG_S3_ENDPOINT'' ''https://storage.yandexcloud.net'',
          sp_S3Region = get ''CONFIG_S3_REGION'' ''ru-central1'', sp_S3AuthMode = get ''CONFIG_S3_AUTH_MODE'' ''static'',
          sp_S3AccessKeyID = get ''CONFIG_S3_ACCESS_KEY_ID'' [], sp_S3SecretKey = get ''CONFIG_S3_SECRET_ACCESS_KEY'' [],
          sp_S3IAMToken = get ''CONFIG_S3_IAM_TOKEN'' [], sp_S3OAuthToken = get ''CONFIG_S3_OAUTH_TOKEN'' [],
          sp_S3SAKeyFile = get ''CONFIG_S3_SA_KEY_FILE'' [], sp_HTTPURL = get ''CONFIG_HTTP_URL'' [], sp_HTTPHeaders = [],
          sp_ManifestServiceName = get ''CONFIG_MANIFEST_SERVICE'' [],
          sp_ManifestBootstrap = get ''CONFIG_MANIFEST_BOOTSTRAP'' [], sp_ManifestFile = get ''CONFIG_MANIFEST_FILE'' []\<rparr>,
       sf_httpHeader = [], sf_httpBearer = [],
       sf_RefreshInterval = get ''CONFIG_REFRESH_INTERVAL'' ''0'', sf_HashPolicy = get ''CONFIG_HASH_POLICY'' [],
       sf_PinnedHash = get ''CONFIG_PINNED_HASH'' []\<rparr>)"

definition parseHTTPHeaders :: "SourceFlags \<Rightarrow> (string \<times> string) list" where
  "parseHTTPHeaders sf =
     (let base = (if sf_httpBearer sf \<noteq> [] then [(''Authorization'', ''Bearer '' @ sf_httpBearer sf)] else [])
      in if sf_httpHeader sf \<noteq> [] then
           fold (\<lambda>pair m. case cut (CHR ''='') (trim_space pair) of
                   None \<Rightarrow> m
                 | Some (k, v) \<Rightarrow> put (trim_space k) (trim_space v) m) (split_on (CHR '','') (sf_httpHeader sf)) base
         else base)"

definition SourceFlags_SourceParams :: "SourceFlags \<Rightarrow> SourceParams" where
  "SourceFlags_SourceParams sf = (sf_params sf)\<lparr>sp_HTTPHeaders := parseHTTPHeaders sf\<rparr>"

definition WatcherOptions :: "SourceFlags \<Rightarrow> WatcherOption list" where
  "WatcherOptions sf =
     (if sf_HashPolicy sf = ''pinned'' then
        WithHashPolicy HashPinned # (if sf_PinnedHash sf \<noteq> [] then [WithPinnedHash (sf_PinnedHash sf)] else [])
      else if sf_HashPolicy sf = ''tofu'' \<or> sf_HashPolicy sf = [] then [WithHashPolicy HashTOFU]
      else [])"

section \<open>Sources that are quiet\<close>

locale quiet_source =
  fixes fetch :: "'w \<Rightarrow> 's \<Rightarrow> FetchedConfig res \<times> 's"
  assumes quiet_error: "fetch wd s = (Inl e, s') \<Longrightarrow> s' = s"
    and quiet_empty: "fetch wd s = (Inr fc, s') \<Longrightarrow> fc_Data fc = None \<Longrightarrow> s' = s"
begin

text \<open>A poll that fails to fetch or fetches nothing leaves the watcher exactly as it was.\<close>

lemma quiet_poll:
  assumes "\<And>fc s'. fetch wd (cw_source w) = (Inr fc, s') \<Longrightarrow> fc_Data fc = None"
  shows "snd (Apply sha fetch wd f w) = w \<and> snd (fst (Apply sha fetch wd f w)) = None"
proof (cases "fetch wd (cw_source w)")
  case (Pair r s')
  show ?thesis
  proof (cases r)
    case (Inl e)
    with Pair quiet_error have "s' = cw_source w" by blast
    with Inl Pair show ?thesis by (simp add: Apply_def)
  next
    case (Inr fc)
    with Pair assms have "fc_Data fc = None" by blast
    moreover from this Inr Pair quiet_empty have "s' = cw_source w" by blast
    ultimately show ?thesis using Inr Pair by (simp add: Apply_def)
  qed
qed

lemma quiet_run:
  assumes "\<And>wd f fc s'. (wd, f) \<in> set ticks \<Longrightarrow> fetch wd (cw_source w) = (Inr fc, s') \<Longrightarrow> fc_Data fc = None"
  shows "snd (RunPeriodicWatch sha fetch ticks w) = w"
  using assms
proof (induction ticks)
  case (Cons t ticks)
  obtain wd f where t: "t = (wd, f)" by fastforce
  have "snd (Apply sha fetch wd f w) = w" using quiet_poll [of wd w sha f] Cons.prems t by auto
  moreover have "snd (RunPeriodicWatch sha fetch ticks w) = w"
    by (rule Cons.IH) (use Cons.prems in auto)
  ultimately show ?case using t by (auto split: prod.splits)
qed simp

end

lemma leaf_Fetch_error: "leaf_Fetch w s = (Inl e, s') \<Longrightarrow> s' = s"
  by (cases s) (auto simp: HTTP_Fetch_def Let_def split: sum.splits if_splits prod.splits)

lemma leaf_Fetch_empty: "leaf_Fetch w s = (Inr fc, s') \<Longrightarrow> fc_Data fc = None \<Longrightarrow> s' = s"
  by (cases s)
    (auto simp: File_Fetch_def HTTP_Fetch_def S3_Fetch_def Let_def split: sum.splits if_splits prod.splits)

interpretation leaf: quiet_source leaf_Fetch
  by unfold_locales (fact leaf_Fetch_error, fact leaf_Fetch_empty)

section \<open>Integrity of what is applied\<close>

lemma Apply_applied:
  assumes "Apply sha fetch wd f w = ((r, Some d), w')"
  shows "\<exists>fc src. fetch wd (cw_source w) = (Inr fc, src) \<and> fc_Data fc = Some d \<and>
    ValidateHash (cw_hashPolicy w) (cw_pinnedHash w) (sha d) (cw_lastHash w) (fc_ETag fc) (cw_lastETag w) = None \<and>
    (fc_ETag fc = [] \<or> fc_ETag fc \<noteq> cw_lastETag w \<or> sha d \<noteq> cw_lastHash w) \<and>
    (case f d of
       Inl e \<Rightarrow> w' = w\<lparr>cw_source := src, cw_lastETag := []\<rparr>
     | Inr b \<Rightarrow> r = Inr b \<and> w' = w\<lparr>cw_source := src, cw_lastETag := fc_ETag fc, cw_lastHash := sha d\<rparr>)"
  using assms by (auto simp: Apply_def Let_def split: prod.splits sum.splits option.splits if_splits)

lemma Apply_config [simp]:
  "cw_hashPolicy (snd (Apply sha fetch wd f w)) = cw_hashPolicy w"
  "cw_pinnedHash (snd (Apply sha fetch wd f w)) = cw_pinnedHash w"
  by (auto simp: Apply_def Let_def split: prod.splits sum.splits option.splits)

text \<open>
  C1: Under the pinned policy no bytes ever reach the apply function, over any run
  of polls of any source, unless their SHA-256 is the pinned one.
\<close>

theorem watch_pinned:
  assumes "cw_hashPolicy w = HashPinned" "(r, Some d) \<in> set (fst (RunPeriodicWatch sha fetch ticks w))"
  shows "sha d = cw_pinnedHash w"
  using assms
proof (induction ticks arbitrary: w)
  case (Cons t ticks)
  obtain wd f where t: "t = (wd, f)" by fastforce
  obtain out w1 where a: "Apply sha fetch wd f w = (out, w1)" by fastforce
  have c: "cw_hashPolicy w1 = HashPinned" "cw_pinnedHash w1 = cw_pinnedHash w"
    using Apply_config [of sha fetch wd f w] a Cons.prems(1) by auto
  show ?case
  proof (cases "out = (r, Some d)")
    case True
    with Apply_applied [of sha fetch wd f w r d w1] a Cons.prems(1) show ?thesis
      by (auto simp: ValidateHash_def split: if_splits)
  next
    case False
    with Cons.prems(2) t a have "(r, Some d) \<in> set (fst (RunPeriodicWatch sha fetch ticks w1))"
      by (auto split: prod.splits)
    with Cons.IH [OF c(1)] c(2) show ?thesis by simp
  qed
qed simp

definition const_fetch :: "FetchedConfig res \<Rightarrow> unit \<Rightarrow> FetchedConfig res \<times> unit" where
  "const_fetch r s = (r, s)"

theorem watch_pinned_witness:
  "fst (RunPeriodicWatch rev const_fetch
      [(Inr \<lparr>fc_Data = Some ''ba'', fc_ETag = []\<rparr>, \<lambda>_. Inr True), (Inr \<lparr>fc_Data = Some ''xx'', fc_ETag = []\<rparr>, \<lambda>_. Inr True)]
      (NewConfigWatcher () [WithHashPolicy HashPinned, WithPinnedHash ''ab'']))
   = [(Inr True, Some ''ba''),
      (Inl (Wrapf ''hash validation: %w'' [] (Errorf ''config SHA-256 mismatch: expected %s, got %s'' [ArgS ''ab'', ArgS ''xx''])), None)]
   \<and> rev ''ba'' = ''ab''"
  using watch_pinned [of "NewConfigWatcher () [WithHashPolicy HashPinned, WithPinnedHash ''ab'']" "Inr True" "''ba''" rev const_fetch
      "[(Inr \<lparr>fc_Data = Some ''ba'', fc_ETag = []\<rparr>, \<lambda>_. Inr True)]"]
  by (simp add: NewConfigWatcher_def Apply_def const_fetch_def ValidateHash_def Let_def)

text \<open>The latest bytes applied without an error, over a run.\<close>

fun last_applied :: "(bool res \<times> string option) list \<Rightarrow> string option \<Rightarrow> string option" where
  "last_applied [] d = d"
| "last_applied ((Inr b, Some x) # outs) d = last_applied outs (Some x)"
| "last_applied (_ # outs) d = last_applied outs d"

lemma Apply_last_hash:
  assumes "Apply sha fetch wd f w = (out, w')" "cw_lastHash w = (case d of None \<Rightarrow> [] | Some x \<Rightarrow> sha x)"
  shows "cw_lastHash w' = (case last_applied [out] d of None \<Rightarrow> [] | Some x \<Rightarrow> sha x)"
  using assms by (auto simp: Apply_def Let_def split: prod.splits sum.splits option.splits if_splits)

lemma last_applied_Cons: "last_applied (x # xs) d = last_applied xs (last_applied [x] d)"
  by (cases x rule: prod.exhaust; cases "fst x"; cases "snd x") auto

text \<open>
  C19: The watcher's record of what is in force is right: after any run of polls,
  failures included, its last hash is that of the bytes last applied without error.
\<close>

theorem watch_last_hash:
  assumes "cw_lastHash w = []" "RunPeriodicWatch sha fetch ticks w = (outs, w')"
  shows "cw_lastHash w' = (case last_applied outs None of None \<Rightarrow> [] | Some x \<Rightarrow> sha x)"
proof -
  have "cw_lastHash w' = (case last_applied outs d of None \<Rightarrow> [] | Some x \<Rightarrow> sha x)"
    if "cw_lastHash w = (case d of None \<Rightarrow> [] | Some x \<Rightarrow> sha x)" for d
    using that assms(2)
  proof (induction ticks arbitrary: w d outs)
    case (Cons t ticks)
    obtain wd f where t: "t = (wd, f)" by fastforce
    obtain out w1 where a: "Apply sha fetch wd f w = (out, w1)" by fastforce
    obtain outs1 w2 where b: "RunPeriodicWatch sha fetch ticks w1 = (outs1, w2)" by fastforce
    have o: "outs = out # outs1" "w' = w2" using Cons.prems(2) t a b by auto
    show ?case
      using Cons.IH [OF Apply_last_hash [OF a Cons.prems(1)] b [folded o(2)]] last_applied_Cons [of out outs1 d] o by simp
  qed auto
  from this [of None] assms(1) show ?thesis by simp
qed

theorem watch_last_hash_witness:
  "cw_lastHash (snd (RunPeriodicWatch rev const_fetch
      [(Inr \<lparr>fc_Data = Some ''ba'', fc_ETag = ''1''\<rparr>, \<lambda>_. Inr True), (Inr \<lparr>fc_Data = Some ''dc'', fc_ETag = ''2''\<rparr>, \<lambda>_. Inl (New ''bad''))]
      (NewConfigWatcher () []))) = ''ab''"
proof -
  let ?ticks = "[(Inr \<lparr>fc_Data = Some ''ba'', fc_ETag = ''1''\<rparr>, \<lambda>_. Inr True), (Inr \<lparr>fc_Data = Some ''dc'', fc_ETag = ''2''\<rparr>, \<lambda>_. Inl (New ''bad''))]"
  obtain outs w' where r: "RunPeriodicWatch rev const_fetch ?ticks (NewConfigWatcher () []) = (outs, w')" by fastforce
  have o: "outs = [(Inr True, Some ''ba''), (Inl (Wrapf ''applying config: %w'' [] (New ''bad'')), Some ''dc'')]"
    using r by (auto simp: NewConfigWatcher_def Apply_def const_fetch_def ValidateHash_def Let_def)
  show ?thesis
    using watch_last_hash [OF _ r] r o by (simp add: NewConfigWatcher_def)
qed

section \<open>The manifest source\<close>

lemma ParseManifest_entry:
  assumes "ParseManifest unmarshal data = Inr m" "(n, svc) \<in> set (mf_Services m)"
  shows "sm_Version svc \<noteq> [] \<and> ConfigResource_Validate (sm_Config svc) = None"
  using assms by (auto simp: ParseManifest_def check_simps split: sum.splits option.splits)

lemma LookupService_entry:
  "LookupService m n = Inr svc \<Longrightarrow> (n, svc) \<in> set (mf_Services m) \<and> ServiceManifest_IsActive svc"
  by (auto simp: LookupService_def dest: map_of_SomeD split: option.splits if_splits)

lemma fetch_entry_data:
  assumes "fetch_entry sha w svc cksum tag ms = (Inr fc, ms')" "fc_Data fc = Some d"
  shows "ms_lastVersion ms' = sm_Version svc \<and> ms_lastCksum ms' = cksum \<and>
    (\<forall>ck. cr_Checksum (sm_Config svc) = Some ck \<longrightarrow> sha d = ci_Value ck)"
  using assms
  by (auto simp: fetch_entry_def Let_def split: prod.splits sum.splits option.splits if_splits)

lemma resolveSource_bootstrap:
  "resolveSource ke cr ms = (r, ms') \<Longrightarrow> ms_bootstrap ms' = ms_bootstrap ms \<and> ms_serviceName ms' = ms_serviceName ms"
  by (auto simp: resolveSource_def split: option.splits sum.splits if_splits)

lemma fetch_entry_bootstrap:
  assumes "fetch_entry sha w svc cksum tag ms = (r, ms')"
  shows "ms_bootstrap ms' = ms_bootstrap ms \<and> ms_serviceName ms' = ms_serviceName ms"
proof -
  obtain s ms1 where rs: "resolveSource (wd_keys w) (sm_Config svc) ms = (s, ms1)" by fastforce
  note b = resolveSource_bootstrap [OF rs]
  show ?thesis
  proof (cases s)
    case (Inl e)
    with assms rs b show ?thesis by (auto simp: fetch_entry_def)
  next
    case (Inr src)
    obtain q src' where lf: "leaf_Fetch w src = (q, src')" by fastforce
    from assms rs Inr lf b show ?thesis
      by (auto simp: fetch_entry_def Let_def split: sum.splits option.splits if_splits)
  qed
qed

lemma ConfigResource_Validate_checksum:
  "ConfigResource_Validate cr = None \<Longrightarrow> cr_Checksum cr = Some ck \<Longrightarrow> ci_Algorithm ck = ''sha256''"
  by (simp add: ConfigResource_Validate_def first_error_Cons_None fail_if_None)

text \<open>What a manifest fetch that hands over data went through.\<close>

lemma Manifest_Fetch_data:
  assumes "Manifest_Fetch sha w ms = (Inr fc, ms')" "fc_Data fc = Some d"
  obtains boot fetched doc m svc where
    "leaf_Fetch w (ms_bootstrap ms) = (Inr fetched, boot)" "fc_Data fetched = Some doc"
    "ParseManifest (wd_json w) doc = Inr m" "LookupService m (ms_serviceName ms) = Inr svc"
    "fetch_entry sha w svc (entry_checksum svc)
       (''manifest:'' @ fc_ETag fetched @ '':svc:'' @ sm_Version svc @ '':cksum:'' @ entry_checksum svc)
       (ms\<lparr>ms_bootstrap := boot\<rparr>) = (Inr fc, ms')"
  using assms
  by (auto simp: Manifest_Fetch_def Let_def split: prod.splits sum.splits option.splits if_splits)


definition demo_resource :: ConfigResource where
  "demo_resource = \<lparr>cr_Provider = ''file'', cr_Path = ''svc.yaml'', cr_Bucket = [], cr_Region = [], cr_Endpoint = [],
     cr_Checksum = Some \<lparr>ci_Algorithm = ''sha256'', ci_Value = ''lmay''\<rparr>, cr_Headers = [], cr_Meta = []\<rparr>"

definition demo_manifest :: Manifest where
  "demo_manifest = \<lparr>mf_ManifestVersion = ''1'', mf_Environment = [], mf_UpdatedAt = [], mf_TraceID = [],
     mf_Services = [(''authn'', \<lparr>sm_Version = ''v1'', sm_Active = None, sm_Config = demo_resource\<rparr>)]\<rparr>"

definition demo_world :: "key_env \<Rightarrow> world" where
  "demo_world ke = \<lparr>wd_stat = \<lambda>_. Inr (1, 4), wd_read = \<lambda>_. Inr ''yaml'', wd_http = \<lambda>_. Inl (New ''down''),
     wd_s3 = \<lambda>_ _. Inl (New ''down''), wd_json = \<lambda>_. Inr demo_manifest, wd_keys = ke\<rparr>"

definition demo_ms :: ManifestSource where
  "demo_ms = NewManifestSource (SFile \<lparr>fs_path = ''manifest.json''\<rparr>) ''authn'' demo_metadata_auth"

definition no_keys :: key_env where
  "no_keys = \<lparr>ke_ReadFile = \<lambda>_. Inl (New ''none''), ke_Unmarshal = \<lambda>_. Inl (New ''none''), ke_PEM = \<lambda>_. None,
     ke_PKCS8 = \<lambda>_. Inl (New ''none''), ke_PKCS1 = \<lambda>_. Inl (New ''none'')\<rparr>"

lemma demo_Manifest_Fetch:
  "\<exists>tag ms'. Manifest_Fetch rev (demo_world no_keys) demo_ms = (Inr \<lparr>fc_Data = Some ''yaml'', fc_ETag = tag\<rparr>, ms')"
  by (simp add: Manifest_Fetch_def demo_world_def demo_ms_def NewManifestSource_def File_Fetch_def ParseManifest_def
      demo_manifest_def demo_resource_def ConfigResource_Validate_def LookupService_def ServiceManifest_IsActive_def
      entry_checksum_def fetch_entry_def resolveSource_def buildSourceFromResource_def Let_def fail_if_def each_check_def wrap_err_def)


section \<open>What the watcher loses\<close>

lemma Manifest_Fetch_once:
  assumes "Manifest_Fetch sha w ms = (Inr fc, ms')" "fc_Data fc = Some d" "ms_bootstrap ms = SFile p"
  shows "\<exists>fc'. Manifest_Fetch sha w ms' = (Inr fc', ms') \<and> fc_Data fc' = None"
proof -
  obtain boot fetched doc m svc where
    h: "leaf_Fetch w (ms_bootstrap ms) = (Inr fetched, boot)" "fc_Data fetched = Some doc"
    "ParseManifest (wd_json w) doc = Inr m" "LookupService m (ms_serviceName ms) = Inr svc"
    and e: "fetch_entry sha w svc (entry_checksum svc)
       (''manifest:'' @ fc_ETag fetched @ '':svc:'' @ sm_Version svc @ '':cksum:'' @ entry_checksum svc)
       (ms\<lparr>ms_bootstrap := boot\<rparr>) = (Inr fc, ms')"
    by (rule Manifest_Fetch_data [OF assms(1,2)])
  have boot: "boot = SFile p" "File_Fetch w p = Inr fetched" using h(1) assms(3) by auto
  have ms': "ms_bootstrap ms' = SFile p" "ms_serviceName ms' = ms_serviceName ms"
    using fetch_entry_bootstrap [OF e] boot(1) by auto
  have last: "ms_lastVersion ms' = sm_Version svc" "ms_lastCksum ms' = entry_checksum svc"
    using fetch_entry_data [OF e assms(2)] by auto
  have "sm_Version svc \<noteq> []"
    using ParseManifest_entry [OF h(3)] LookupService_entry [OF h(4)] by blast
  moreover have "ms'\<lparr>ms_bootstrap := SFile p\<rparr> = ms'" using ms'(1) by (cases ms') simp
  ultimately show ?thesis
    using h boot ms' last by (simp add: Manifest_Fetch_def Let_def)
qed

text \<open>
  A configuration that the apply function rejects is not offered to it again
  when it came through a manifest: the watcher forgets the ETag in order to retry,
  but the manifest source has already recorded the version as delivered, so the
  next poll of the same world reports success without applying anything.
\<close>

theorem manifest_failed_apply_lost:
  assumes "cw_source w = SManifest ms" "ms_bootstrap ms = SFile p"
    and "Apply sha (Fetch sha) wd f w = ((Inl e, Some d), w')"
  shows "fst (Apply sha (Fetch sha) wd f' w') = (Inr False, None)"
proof -
  from Apply_applied [OF assms(3)] obtain fc src where
    fetch: "Fetch sha wd (cw_source w) = (Inr fc, src)" "fc_Data fc = Some d" and
    w': "case f d of Inl x \<Rightarrow> w' = w\<lparr>cw_source := src, cw_lastETag := []\<rparr>
       | Inr b \<Rightarrow> Inl e = Inr b \<and> w' = w\<lparr>cw_source := src, cw_lastETag := fc_ETag fc, cw_lastHash := sha d\<rparr>"
    by blast
  from w' have src: "cw_source w' = src" by (auto split: sum.splits)
  from fetch(1) assms(1) obtain ms' where m: "Manifest_Fetch sha wd ms = (Inr fc, ms')" "src = SManifest ms'"
    by (auto split: prod.splits)
  from Manifest_Fetch_once [OF m(1) fetch(2) assms(2)] obtain fc' where
    "Manifest_Fetch sha wd ms' = (Inr fc', ms')" "fc_Data fc' = None"
    by blast
  with src m(2) show ?thesis by (simp add: Apply_def)
qed

theorem manifest_failed_apply_lost_witness:
  "\<exists>e w'. Apply rev (Fetch rev) (demo_world no_keys) (\<lambda>_. Inl (New ''bad'')) (NewConfigWatcher (SManifest demo_ms) [])
       = ((Inl e, Some ''yaml''), w') \<and>
     fst (Apply rev (Fetch rev) (demo_world no_keys) (\<lambda>_. Inr True) w') = (Inr False, None)"
proof -
  obtain tag ms' where "Manifest_Fetch rev (demo_world no_keys) demo_ms = (Inr \<lparr>fc_Data = Some ''yaml'', fc_ETag = tag\<rparr>, ms')"
    using demo_Manifest_Fetch by blast
  then obtain e w' where a: "Apply rev (Fetch rev) (demo_world no_keys) (\<lambda>_. Inl (New ''bad'')) (NewConfigWatcher (SManifest demo_ms) [])
       = ((Inl e, Some ''yaml''), w')"
    by (simp add: Apply_def NewConfigWatcher_def ValidateHash_def)
  have s: "cw_source (NewConfigWatcher (SManifest demo_ms) []) = SManifest demo_ms"
    "ms_bootstrap demo_ms = SFile \<lparr>fs_path = ''manifest.json''\<rparr>"
    by (simp_all add: NewConfigWatcher_def demo_ms_def NewManifestSource_def)
  from a manifest_failed_apply_lost [OF s a, of "\<lambda>_. Inr True"] show ?thesis by blast
qed

text \<open>
  Under trust-on-first-use, a source that sends no version marker can never
  update: with an empty ETag on both sides every later change of content is
  reported as tampering and is not applied.
\<close>

theorem tofu_without_etag_stuck:
  assumes "cw_hashPolicy w = HashTOFU" "cw_lastHash w \<noteq> []" "cw_lastETag w = []"
    and "fetch wd (cw_source w) = (Inr fc, src)" "fc_Data fc = Some d" "fc_ETag fc = []" "sha d \<noteq> cw_lastHash w"
  shows "\<exists>e. Apply sha fetch wd f w = ((Inl e, None), w\<lparr>cw_source := src\<rparr>)"
  using assms by (simp add: Apply_def ValidateHash_def Let_def)

theorem tofu_without_etag_stuck_witness:
  "\<exists>e. fst (RunPeriodicWatch rev const_fetch
      [(Inr \<lparr>fc_Data = Some ''ba'', fc_ETag = []\<rparr>, \<lambda>_. Inr True), (Inr \<lparr>fc_Data = Some ''dc'', fc_ETag = []\<rparr>, \<lambda>_. Inr True)]
      (NewConfigWatcher () [])) = [(Inr True, Some ''ba''), (Inl e, None)]"
  using tofu_without_etag_stuck [of "\<lparr>cw_source = (), cw_lastETag = [], cw_lastHash = ''ab'', cw_hashPolicy = HashTOFU, cw_pinnedHash = []\<rparr>"
      const_fetch "Inr \<lparr>fc_Data = Some ''dc'', fc_ETag = []\<rparr>" "\<lparr>fc_Data = Some ''dc'', fc_ETag = []\<rparr>" "()" "''dc''" rev "\<lambda>_. Inr True"]
  by (auto simp: NewConfigWatcher_def Apply_def const_fetch_def ValidateHash_def Let_def)

text \<open>A rotated HTTP header in the manifest does not reach the source that was resolved before.\<close>

lemma resolveSource_keeps_headers:
  assumes "resolveSource ke cr ms = (Inr src, ms1)" "ms_resolvedSrc ms1 = Some src" "ms_resolvedCR ms1 = Some cr"
  shows "resolveSource ke (cr\<lparr>cr_Headers := hs\<rparr>) ms1 = (Inr src, ms1)"
  using assms by (simp add: resolveSource_def configResourceEqual_def)

section \<open>Loading\<close>

lemma build_leaf_plain: "build_leaf ke p = None \<Longrightarrow> sp_Source p \<notin> {''file'', ''s3'', ''http''}"
  by (auto simp: build_leaf_def split: if_splits)

lemma bootstrap_params_plain: "bootstrap_params p = Inr bp \<Longrightarrow> sp_Source bp \<in> {''file'', ''s3'', ''http''}"
  by (auto simp: bootstrap_params_def zero_params_def Let_def split: if_splits)

text \<open>The recursive call of \<open>BuildSource\<close> never meets an unknown source type: its last error branch is dead.\<close>

lemma bootstrap_known: "bootstrap_params p = Inr bp \<Longrightarrow> build_leaf ke bp \<noteq> None"
  using build_leaf_plain bootstrap_params_plain by blast

end
