(* ===== verification/ReadCache.thy ===== *)
theory ReadCache
  imports Prelude
begin

text \<open>
  Package \<open>readcache\<close>: the in-flight group (\<open>group.go\<close>) and the bounded scope
  that memoizes results over it (\<open>scope.go\<close>). Every critical section of the code
  is one atomic operation; what concurrent callers can do is a step relation
  over these operations. The scope relies on the group only through the contract
  \<open>single_flight\<close> (one leader per key), which the group is shown to fulfil.
\<close>

section \<open>The group (\<open>group.go\<close>)\<close>

definition ErrCapacity :: go_error where "ErrCapacity = New ''readcache capacity exhausted''"
definition ErrKey :: go_error where "ErrKey = New ''readcache key is empty or too long''"
definition ErrAborted :: go_error where "ErrAborted = New ''readcache leader aborted''"

record Limits =
  li_MaxKeys :: int
  li_MaxFollowers :: int
  li_MaxKeyBytes :: int

text \<open>A call: \<open>ca_done\<close> is whether its channel is closed. Before that, value and error are zero.\<close>

record 'v Call =
  ca_done :: bool
  ca_value :: "'v option"
  ca_err :: err
  ca_followers :: int

text \<open>Calls are shared by pointer, so they live in a heap; the map of live keys holds their addresses.\<close>

record 'v Group =
  g_limits :: Limits
  g_calls :: "(string \<times> nat) list"
  g_heap :: "nat \<Rightarrow> 'v Call option"
  g_next :: nat

definition NewGroup :: "Limits \<Rightarrow> 'v Group res" where
  "NewGroup l =
     (if li_MaxKeys l \<le> 0 \<or> li_MaxFollowers l \<le> 0 \<or> li_MaxKeyBytes l \<le> 0
      then Inl (New ''readcache limits must be positive'')
      else Inr \<lparr>g_limits = l, g_calls = [], g_heap = (\<lambda>_. None), g_next = 0\<rparr>)"

text \<open>\<open>Begin\<close>: an error, or whether the caller leads and the address of the call.\<close>

definition Begin :: "string \<Rightarrow> 'v Group \<Rightarrow> (bool \<times> nat) res \<times> 'v Group" where
  "Begin key g =
     (if key = [] \<or> int (length key) > li_MaxKeyBytes (g_limits g) then (Inl ErrKey, g)
      else case map_of (g_calls g) key of
        Some a \<Rightarrow>
          (case g_heap g a of
             None \<Rightarrow> (Inl ErrKey, g)
           | Some c \<Rightarrow>
               (if ca_followers c \<ge> li_MaxFollowers (g_limits g) then (Inl ErrCapacity, g)
                else (Inr (False, a), g\<lparr>g_heap := (g_heap g)(a \<mapsto> c\<lparr>ca_followers := ca_followers c + 1\<rparr>)\<rparr>)))
      | None \<Rightarrow>
          (if int (length (g_calls g)) \<ge> li_MaxKeys (g_limits g) then (Inl ErrCapacity, g)
           else let a = g_next g
                in (Inr (True, a),
                    g\<lparr>g_calls := (key, a) # g_calls g,
                      g_heap := (g_heap g)(a \<mapsto> \<lparr>ca_done = False, ca_value = None, ca_err = None, ca_followers = 0\<rparr>),
                      g_next := Suc a\<rparr>)))"

text \<open>The release function of a follower (its \<open>sync.Once\<close> lets it run once).\<close>

definition release :: "nat \<Rightarrow> 'v Group \<Rightarrow> 'v Group" where
  "release a g =
     (case g_heap g a of
        None \<Rightarrow> g
      | Some c \<Rightarrow> g\<lparr>g_heap := (g_heap g)(a \<mapsto> c\<lparr>ca_followers := ca_followers c - 1\<rparr>)\<rparr>)"

definition Finish :: "string \<Rightarrow> nat option \<Rightarrow> 'v option \<Rightarrow> err \<Rightarrow> 'v Group \<Rightarrow> bool \<times> 'v Group" where
  "Finish key call v e g =
     (case call of
        None \<Rightarrow> (False, g)
      | Some a \<Rightarrow>
          (if map_of (g_calls g) key \<noteq> Some a then (False, g)
           else (True,
                 g\<lparr>g_calls := filter (\<lambda>(k, _). k \<noteq> key) (g_calls g),
                   g_heap := (g_heap g)(a := map_option (\<lambda>c. c\<lparr>ca_value := v, ca_err := e, ca_done := True\<rparr>) (g_heap g a))\<rparr>)))"

text \<open>\<open>Wait\<close>: \<open>None\<close> while it blocks; \<open>ctx_err\<close> is the error of the waiter's own context.\<close>

definition Wait :: "err \<Rightarrow> 'v Call \<Rightarrow> ('v option \<times> err) option" where
  "Wait ctx_err c =
     (case ctx_err of
        Some e \<Rightarrow> Some (None, Some e)
      | None \<Rightarrow> if ca_done c then Some (ca_value c, ca_err c) else None)"

text \<open>
  \<open>Do\<close>, run to its end without interference: \<open>None\<close> is a follower that would
  block. \<open>load\<close> returns \<open>None\<close> where it panics, which the deferred second
  \<open>Finish\<close> turns into \<open>ErrAborted\<close> for the followers.
\<close>

definition Do :: "err \<Rightarrow> string \<Rightarrow> ('v option \<times> err) option \<Rightarrow> 'v Group \<Rightarrow> ('v option \<times> err) option \<times> 'v Group" where
  "Do ctx_err key load g =
     (case ctx_err of
        Some e \<Rightarrow> (Some (None, Some e), g)
      | None \<Rightarrow>
          (case Begin key g of
             (Inl e, g1) \<Rightarrow> (Some (None, Some e), g1)
           | (Inr (False, a), g1) \<Rightarrow>
               (case g_heap g1 a of
                  None \<Rightarrow> (None, release a g1)
                | Some c \<Rightarrow> (Wait ctx_err c, release a g1))
           | (Inr (True, a), g1) \<Rightarrow>
               (case load of
                  Some (v, e) \<Rightarrow> (Some (v, e), snd (Finish key (Some a) None (Some ErrAborted) (snd (Finish key (Some a) v e g1))))
                | None \<Rightarrow> (None, snd (Finish key (Some a) None (Some ErrAborted) g1)))))"

section \<open>Concurrent use of the group\<close>

text \<open>
  The system: the group, the outstanding follower tickets, and the outstanding
  leader tickets.
\<close>

record 'v gsys =
  gs_group :: "'v Group"
  gs_followers :: "nat list"
  gs_leaders :: "(string \<times> nat) list"

inductive gstep :: "'v gsys \<Rightarrow> 'v gsys \<Rightarrow> bool" where
  lead: "Begin key (gs_group s) = (Inr (True, a), g') \<Longrightarrow>
     gstep s (s\<lparr>gs_group := g', gs_leaders := (key, a) # gs_leaders s\<rparr>)"
| follow: "Begin key (gs_group s) = (Inr (False, a), g') \<Longrightarrow>
     gstep s (s\<lparr>gs_group := g', gs_followers := a # gs_followers s\<rparr>)"
| refused: "Begin key (gs_group s) = (Inl e, g') \<Longrightarrow> gstep s (s\<lparr>gs_group := g'\<rparr>)"
| leave: "a \<in> set (gs_followers s) \<Longrightarrow>
     gstep s (s\<lparr>gs_group := release a (gs_group s), gs_followers := remove1 a (gs_followers s)\<rparr>)"
| finish: "Finish key call v e (gs_group s) = (True, g') \<Longrightarrow>
     gstep s (s\<lparr>gs_group := g', gs_leaders := filter (\<lambda>(k, _). k \<noteq> key) (gs_leaders s)\<rparr>)"
| stale: "Finish key call v e (gs_group s) = (False, g') \<Longrightarrow> gstep s (s\<lparr>gs_group := g'\<rparr>)"

definition ginit :: "Limits \<Rightarrow> 'v gsys" where
  "ginit l = \<lparr>gs_group = \<lparr>g_limits = l, g_calls = [], g_heap = (\<lambda>_. None), g_next = 0\<rparr>, gs_followers = [], gs_leaders = []\<rparr>"

text \<open>The shape of a group between critical sections.\<close>

definition group_ok :: "'v Group \<Rightarrow> bool" where
  "group_ok g \<longleftrightarrow>
     distinct (map fst (g_calls g)) \<and> distinct (map snd (g_calls g)) \<and>
     int (length (g_calls g)) \<le> max 0 (li_MaxKeys (g_limits g)) \<and>
     (\<forall>(k, a) \<in> set (g_calls g). k \<noteq> [] \<and> int (length k) \<le> li_MaxKeyBytes (g_limits g) \<and>
        (\<exists>c. g_heap g a = Some c \<and> \<not> ca_done c)) \<and>
     (\<forall>a. g_heap g a \<noteq> None \<longleftrightarrow> a < g_next g)"

text \<open>Follower counts are exact: they are the outstanding tickets of the call.\<close>

definition followers_ok :: "'v Group \<Rightarrow> nat list \<Rightarrow> bool" where
  "followers_ok g fs \<longleftrightarrow>
     (\<forall>a c. g_heap g a = Some c \<longrightarrow>
        ca_followers c = int (count_list fs a) \<and> int (count_list fs a) \<le> max 0 (li_MaxFollowers (g_limits g))) \<and>
     (\<forall>a \<in> set fs. g_heap g a \<noteq> None)"

definition gsys_ok :: "'v gsys \<Rightarrow> bool" where
  "gsys_ok s \<longleftrightarrow> group_ok (gs_group s) \<and> followers_ok (gs_group s) (gs_followers s) \<and>
     gs_leaders s = g_calls (gs_group s)"

lemma group_okD:
  assumes "group_ok g"
  shows "distinct (map fst (g_calls g))" "distinct (map snd (g_calls g))"
    "int (length (g_calls g)) \<le> max 0 (li_MaxKeys (g_limits g))"
    "\<And>k a. (k, a) \<in> set (g_calls g) \<Longrightarrow> k \<noteq> [] \<and> int (length k) \<le> li_MaxKeyBytes (g_limits g)"
    "\<And>k a. (k, a) \<in> set (g_calls g) \<Longrightarrow> \<exists>c. g_heap g a = Some c \<and> \<not> ca_done c"
    "\<And>a. g_heap g a \<noteq> None \<longleftrightarrow> a < g_next g"
  using assms unfolding group_ok_def by (blast, blast, blast, blast, blast, blast)

text \<open>The three outcomes of \<open>Begin\<close>.\<close>

lemma Begin_cases:
  assumes "Begin key g = (r, g')"
  obtains (err) e where "r = Inl e" "g' = g"
  | (follower) a c where "r = Inr (False, a)" "map_of (g_calls g) key = Some a" "g_heap g a = Some c"
      "ca_followers c < li_MaxFollowers (g_limits g)"
      "g' = g\<lparr>g_heap := (g_heap g)(a \<mapsto> c\<lparr>ca_followers := ca_followers c + 1\<rparr>)\<rparr>"
  | (leader) "r = Inr (True, g_next g)" "map_of (g_calls g) key = None" "key \<noteq> []"
      "int (length key) \<le> li_MaxKeyBytes (g_limits g)" "int (length (g_calls g)) < li_MaxKeys (g_limits g)"
      "g' = g\<lparr>g_calls := (key, g_next g) # g_calls g,
              g_heap := (g_heap g)(g_next g \<mapsto> \<lparr>ca_done = False, ca_value = None, ca_err = None, ca_followers = 0\<rparr>),
              g_next := Suc (g_next g)\<rparr>"
proof (cases "key = [] \<or> int (length key) > li_MaxKeyBytes (g_limits g)")
  case True
  show thesis by (rule err [of ErrKey]) (use True assms in \<open>simp_all add: Begin_def\<close>)
next
  case key: False
  show thesis
  proof (cases "map_of (g_calls g) key")
    case None
    show thesis
    proof (cases "int (length (g_calls g)) \<ge> li_MaxKeys (g_limits g)")
      case True
      show thesis by (rule err [of ErrCapacity]) (use True None key assms in \<open>simp_all add: Begin_def\<close>)
    next
      case False
      show thesis by (rule leader) (use False None key assms in \<open>simp_all add: Begin_def Let_def\<close>)
    qed
  next
    case a: (Some a)
    show thesis
    proof (cases "g_heap g a")
      case None
      show thesis by (rule err [of ErrKey]) (use None a key assms in \<open>simp_all add: Begin_def\<close>)
    next
      case c: (Some c)
      show thesis
      proof (cases "ca_followers c \<ge> li_MaxFollowers (g_limits g)")
        case True
        show thesis by (rule err [of ErrCapacity]) (use True c a key assms in \<open>simp_all add: Begin_def\<close>)
      next
        case False
        show thesis by (rule follower [OF _ a c]) (use False c a key assms in \<open>simp_all add: Begin_def\<close>)
      qed
    qed
  qed
qed

lemma Begin_group_ok:
  assumes ok: "group_ok g" and b: "Begin key g = (r, g')"
  shows "group_ok g'"
  using b
proof (cases rule: Begin_cases)
  case err
  with ok show ?thesis by simp
next
  case (follower a c)
  with ok show ?thesis unfolding group_ok_def by (auto split: if_splits)
next
  case leader
  have fresh: "key \<notin> fst ` set (g_calls g)" using leader(2) by (simp add: map_of_eq_None_iff)
  have new: "g_next g \<notin> snd ` set (g_calls g)"
    using group_okD(5,6) [OF ok] by fastforce
  show ?thesis
    unfolding group_ok_def
  proof (intro conjI)
    show "distinct (map fst (g_calls g'))" using leader(6) fresh group_okD(1) [OF ok] by simp
    show "distinct (map snd (g_calls g'))" using leader(6) new group_okD(2) [OF ok] by simp
    show "int (length (g_calls g')) \<le> max 0 (li_MaxKeys (g_limits g'))" using leader by simp
    show "\<forall>(k, a) \<in> set (g_calls g'). k \<noteq> [] \<and> int (length k) \<le> li_MaxKeyBytes (g_limits g') \<and>
        (\<exists>c. g_heap g' a = Some c \<and> \<not> ca_done c)"
      using leader group_okD(4,5) [OF ok] new by force
    show "\<forall>a. g_heap g' a \<noteq> None \<longleftrightarrow> a < g_next g'"
      using leader(6) group_okD(6) [OF ok] by (auto simp: less_Suc_eq)
  qed
qed

lemma release_group_ok: "group_ok g \<Longrightarrow> group_ok (release a g)"
  unfolding group_ok_def release_def by (auto split: option.splits)

lemma Finish_cases:
  assumes "Finish key call v e g = (b, g')"
  obtains (stale) "b = False" "g' = g"
  | (current) a where "b = True" "call = Some a" "map_of (g_calls g) key = Some a"
      "g' = g\<lparr>g_calls := filter (\<lambda>(k, _). k \<noteq> key) (g_calls g),
              g_heap := (g_heap g)(a := map_option (\<lambda>c. c\<lparr>ca_value := v, ca_err := e, ca_done := True\<rparr>) (g_heap g a))\<rparr>"
proof (cases "\<exists>a. call = Some a \<and> map_of (g_calls g) key = Some a")
  case True
  with assms current show thesis by (auto simp: Finish_def)
next
  case False
  with assms stale show thesis by (cases call) (auto simp: Finish_def)
qed

lemma map_of_snd_inj:
  "distinct (map snd xs) \<Longrightarrow> (k, a) \<in> set xs \<Longrightarrow> (k', a) \<in> set xs \<Longrightarrow> k = k'"
  by (induction xs) (auto simp: image_iff)

lemma Finish_group_ok:
  assumes ok: "group_ok g" and f: "Finish key call v e g = (b, g')"
  shows "group_ok g'"
  using f
proof (cases rule: Finish_cases)
  case stale
  with ok show ?thesis by simp
next
  case (current a)
  have ka: "(key, a) \<in> set (g_calls g)" using current(3) by (rule map_of_SomeD)
  have other: "a' \<noteq> a" if "(k, a') \<in> set (g_calls g)" "k \<noteq> key" for k a'
    using that ka map_of_snd_inj [OF group_okD(2) [OF ok]] by blast
  have len: "int (length (filter (\<lambda>(k, _). k \<noteq> key) (g_calls g))) \<le> int (length (g_calls g))" by simp
  show ?thesis
    unfolding group_ok_def
  proof (intro conjI)
    show "distinct (map fst (g_calls g'))"
      using current(4) group_okD(1) [OF ok] by (simp add: distinct_map_filter)
    show "distinct (map snd (g_calls g'))"
      using current(4) group_okD(2) [OF ok] by (simp add: distinct_map_filter)
    show "int (length (g_calls g')) \<le> max 0 (li_MaxKeys (g_limits g'))"
      using current(4) order_trans [OF len group_okD(3) [OF ok]] by simp
    show "\<forall>(k, a) \<in> set (g_calls g'). k \<noteq> [] \<and> int (length k) \<le> li_MaxKeyBytes (g_limits g') \<and>
        (\<exists>c. g_heap g' a = Some c \<and> \<not> ca_done c)"
      using current(4) group_okD(4,5) [OF ok] other by fastforce
    show "\<forall>a. g_heap g' a \<noteq> None \<longleftrightarrow> a < g_next g'"
      using current(4) group_okD(6) [OF ok] by auto
  qed
qed

lemma followers_okD:
  assumes "followers_ok g fs" "g_heap g a = Some c"
  shows "ca_followers c = int (count_list fs a)" "ca_followers c \<le> max 0 (li_MaxFollowers (g_limits g))"
  using assms unfolding followers_ok_def by auto

lemma count_list_remove1:
  "count_list (remove1 a xs) b = (if b = a then count_list xs a - 1 else count_list xs b)"
  by (induction xs) (auto simp: count_list_0_iff)

lemma followers_ok_new:
  "followers_ok g fs \<Longrightarrow> a \<notin> set fs \<Longrightarrow> ca_followers c = 0 \<Longrightarrow>
     followers_ok (g\<lparr>g_calls := cs, g_heap := (g_heap g)(a \<mapsto> c), g_next := n\<rparr>) fs"
  by (simp add: followers_ok_def)

lemma followers_ok_add:
  "followers_ok g fs \<Longrightarrow> g_heap g a = Some c \<Longrightarrow> ca_followers c < li_MaxFollowers (g_limits g) \<Longrightarrow>
     followers_ok (g\<lparr>g_heap := (g_heap g)(a \<mapsto> c\<lparr>ca_followers := ca_followers c + 1\<rparr>)\<rparr>) (a # fs)"
  by (auto simp: followers_ok_def)

lemma followers_ok_drop:
  assumes "followers_ok g fs" "a \<in> set fs"
  shows "followers_ok (release a g) (remove1 a fs)"
proof -
  obtain c where c: "g_heap g a = Some c" using assms by (auto simp: followers_ok_def)
  have "count_list fs a > 0" using assms(2) by (metis count_list_0_iff gr0I)
  moreover have "int (count_list fs a) - 1 \<le> max 0 (li_MaxFollowers (g_limits g))"
    using followers_okD [OF assms(1) c] by linarith
  ultimately show ?thesis
    using assms(1) c set_remove1_subset [of a fs]
    by (auto simp: followers_ok_def release_def count_list_remove1 of_nat_diff)
qed

lemma followers_ok_finish:
  "followers_ok g fs \<Longrightarrow>
     followers_ok (g\<lparr>g_calls := cs, g_heap := (g_heap g)(a := map_option (\<lambda>c. c\<lparr>ca_value := v, ca_err := e, ca_done := True\<rparr>) (g_heap g a))\<rparr>) fs"
  by (auto simp: followers_ok_def)

lemma Begin_leaderD:
  assumes "Begin key g = (Inr (True, a), g')"
  shows "a = g_next g" "g' = g\<lparr>g_calls := (key, a) # g_calls g,
     g_heap := (g_heap g)(a \<mapsto> \<lparr>ca_done = False, ca_value = None, ca_err = None, ca_followers = 0\<rparr>), g_next := Suc a\<rparr>"
  using assms by (rule Begin_cases; simp)+

lemma Begin_followerD:
  assumes "Begin key g = (Inr (False, a), g')"
  obtains c where "g_heap g a = Some c" "ca_followers c < li_MaxFollowers (g_limits g)"
    "g' = g\<lparr>g_heap := (g_heap g)(a \<mapsto> c\<lparr>ca_followers := ca_followers c + 1\<rparr>)\<rparr>"
  using assms by (rule Begin_cases) (use that in simp_all)

lemma gstep_ok: "gstep s s' \<Longrightarrow> gsys_ok s \<Longrightarrow> gsys_ok s'"
proof (induction rule: gstep.induct)
  case (lead key s a g')
  then have ok: "group_ok (gs_group s)" "followers_ok (gs_group s) (gs_followers s)" "gs_leaders s = g_calls (gs_group s)"
    by (simp_all add: gsys_ok_def)
  have "g_next (gs_group s) \<notin> set (gs_followers s)"
    using ok(2) group_okD(6) [OF ok(1), of "g_next (gs_group s)"] by (auto simp: followers_ok_def)
  with Begin_leaderD [OF lead(1)] followers_ok_new [OF ok(2)] have "followers_ok g' (gs_followers s)" by simp
  moreover have "g_calls g' = (key, a) # g_calls (gs_group s)" using Begin_leaderD(2) [OF lead(1)] by simp
  ultimately show ?case using ok Begin_group_ok [OF ok(1) lead(1)] by (simp add: gsys_ok_def)
next
  case (follow key s a g')
  then have ok: "group_ok (gs_group s)" "followers_ok (gs_group s) (gs_followers s)" "gs_leaders s = g_calls (gs_group s)"
    by (simp_all add: gsys_ok_def)
  from follow(1) obtain c where c: "g_heap (gs_group s) a = Some c" "ca_followers c < li_MaxFollowers (g_limits (gs_group s))"
    "g' = gs_group s\<lparr>g_heap := (g_heap (gs_group s))(a \<mapsto> c\<lparr>ca_followers := ca_followers c + 1\<rparr>)\<rparr>"
    by (rule Begin_followerD)
  with followers_ok_add [OF ok(2) c(1,2)] ok Begin_group_ok [OF ok(1) follow(1)] show ?case by (simp add: gsys_ok_def)
next
  case (refused key s e g')
  from refused(1) have "g' = gs_group s" by (cases rule: Begin_cases) auto
  with refused show ?case by (simp add: gsys_ok_def)
next
  case (leave a s)
  then have ok: "group_ok (gs_group s)" "followers_ok (gs_group s) (gs_followers s)" "gs_leaders s = g_calls (gs_group s)"
    by (simp_all add: gsys_ok_def)
  have "g_calls (release a (gs_group s)) = g_calls (gs_group s)" by (simp add: release_def split: option.splits)
  with ok release_group_ok [OF ok(1), of a] followers_ok_drop [OF ok(2) leave(1)] show ?case by (simp add: gsys_ok_def)
next
  case (finish key call v e s g')
  then have ok: "group_ok (gs_group s)" "followers_ok (gs_group s) (gs_followers s)" "gs_leaders s = g_calls (gs_group s)"
    by (simp_all add: gsys_ok_def)
  from finish(1) have "followers_ok g' (gs_followers s) \<and> g_calls g' = filter (\<lambda>(k, _). k \<noteq> key) (g_calls (gs_group s))"
    by (cases rule: Finish_cases) (simp_all add: followers_ok_finish [OF ok(2)])
  with ok Finish_group_ok [OF ok(1) finish(1)] show ?case by (simp add: gsys_ok_def)
next
  case (stale key call v e s g')
  from stale(1) have "g' = gs_group s" by (cases rule: Finish_cases) auto
  with stale show ?case by (simp add: gsys_ok_def)
qed

lemma ginit_ok: "gsys_ok (ginit l)"
  by (simp add: gsys_ok_def ginit_def group_ok_def followers_ok_def)

lemma greachable_ok: "gstep\<^sup>*\<^sup>* (ginit l) s \<Longrightarrow> gsys_ok s"
  by (induction rule: rtranclp_induct) (auto intro: gstep_ok ginit_ok)

lemma gstep_limits: "gstep s s' \<Longrightarrow> g_limits (gs_group s') = g_limits (gs_group s)"
  by (induction rule: gstep.induct)
    (auto simp: release_def elim!: Begin_cases Finish_cases split: option.splits)

lemma greachable_limits: "gstep\<^sup>*\<^sup>* (ginit l) s \<Longrightarrow> g_limits (gs_group s) = l"
  by (induction rule: rtranclp_induct) (auto simp: gstep_limits ginit_def)

text \<open>
  C22: Whatever callers do concurrently, a group with positive limits keeps within
  them: live keys are distinct and at most \<open>MaxKeys\<close>, each has exactly one
  leader whose call is unfinished, and every call's follower count is exactly its
  outstanding followers and at most \<open>MaxFollowers\<close>.
\<close>

theorem group_bounded:
  assumes "NewGroup l = Inr g0" "gstep\<^sup>*\<^sup>* (ginit l) s"
  shows "gs_group (ginit l) = g0 \<and> distinct (map fst (gs_leaders s)) \<and> gs_leaders s = g_calls (gs_group s) \<and>
    int (length (gs_leaders s)) \<le> li_MaxKeys l \<and>
    (\<forall>(k, a) \<in> set (gs_leaders s). \<exists>c. g_heap (gs_group s) a = Some c \<and> \<not> ca_done c) \<and>
    (\<forall>a c. g_heap (gs_group s) a = Some c \<longrightarrow>
       ca_followers c = int (count_list (gs_followers s) a) \<and> ca_followers c \<le> li_MaxFollowers l)"
proof -
  have l: "0 < li_MaxKeys l" "0 < li_MaxFollowers l" and g0: "gs_group (ginit l) = g0"
    using assms(1) by (auto simp: NewGroup_def ginit_def split: if_splits)
  have ok: "group_ok (gs_group s)" "followers_ok (gs_group s) (gs_followers s)" "gs_leaders s = g_calls (gs_group s)"
    using greachable_ok [OF assms(2)] by (simp_all add: gsys_ok_def)
  have lim: "g_limits (gs_group s) = l" by (rule greachable_limits [OF assms(2)])
  show ?thesis
  proof (intro conjI)
    show "gs_group (ginit l) = g0" by (rule g0)
    show "distinct (map fst (gs_leaders s))" using group_okD(1) [OF ok(1)] ok(3) by simp
    show "gs_leaders s = g_calls (gs_group s)" by (rule ok(3))
    show "int (length (gs_leaders s)) \<le> li_MaxKeys l" using group_okD(3) [OF ok(1)] ok(3) lim l by simp
    show "\<forall>(k, a) \<in> set (gs_leaders s). \<exists>c. g_heap (gs_group s) a = Some c \<and> \<not> ca_done c"
      using group_okD(5) [OF ok(1)] ok(3) by auto
    show "\<forall>a c. g_heap (gs_group s) a = Some c \<longrightarrow>
       ca_followers c = int (count_list (gs_followers s) a) \<and> ca_followers c \<le> li_MaxFollowers l"
      using followers_okD [OF ok(2)] lim l by auto
  qed
qed

definition demo_limits :: Limits where
  "demo_limits = \<lparr>li_MaxKeys = 1, li_MaxFollowers = 1, li_MaxKeyBytes = 8\<rparr>"

theorem group_bounded_witness:
  "\<exists>s. gstep\<^sup>*\<^sup>* (ginit demo_limits :: string gsys) s \<and> gs_leaders s = [(''k'', 0)] \<and> int (length (gs_leaders s)) \<le> 1"
proof -
  obtain g' where b: "Begin ''k'' (gs_group (ginit demo_limits :: string gsys)) = (Inr (True, 0), g')"
    by (simp add: Begin_def ginit_def demo_limits_def)
  let ?i = "ginit demo_limits :: string gsys"
  let ?s = "?i\<lparr>gs_group := g', gs_leaders := (''k'', 0) # gs_leaders ?i\<rparr>"
  have r: "gstep\<^sup>*\<^sup>* ?i ?s" by (rule r_into_rtranclp) (rule gstep.lead [OF b])
  have n: "NewGroup demo_limits = Inr (gs_group (ginit demo_limits :: string gsys))"
    by (simp add: NewGroup_def demo_limits_def ginit_def)
  have "int (length (gs_leaders ?s)) \<le> li_MaxKeys demo_limits" using group_bounded [OF n r] by blast
  then have "int (length (gs_leaders ?s)) \<le> 1" by (simp add: demo_limits_def)
  moreover have "gs_leaders ?s = [(''k'', 0)]" by (simp add: ginit_def)
  ultimately show ?thesis using r by blast
qed

lemma gstep_result_stable:
  assumes "gstep s s'" "gsys_ok s" "g_heap (gs_group s) a = Some c" "ca_done c"
  shows "\<exists>c'. g_heap (gs_group s') a = Some c' \<and> ca_done c' \<and> ca_value c' = ca_value c \<and> ca_err c' = ca_err c"
  using assms
proof (induction rule: gstep.induct)
  case (lead key s b g')
  have "g_heap (gs_group s) (g_next (gs_group s)) = None"
    using lead(2) group_okD(6) unfolding gsys_ok_def by blast
  with lead show ?case by (auto elim!: Begin_cases)
next
  case (follow key s b g')
  then show ?case by (auto elim!: Begin_cases)
next
  case (refused key s e g')
  then show ?case by (auto elim!: Begin_cases)
next
  case (leave b s)
  then show ?case by (auto simp: release_def split: option.splits)
next
  case (finish key call v e s g')
  from finish(1) show ?case
  proof (cases rule: Finish_cases)
    case (current b)
    then have "(key, b) \<in> set (g_calls (gs_group s))" by (auto dest: map_of_SomeD)
    then obtain c0 where "g_heap (gs_group s) b = Some c0" "\<not> ca_done c0"
      using finish(2) group_okD(5) unfolding gsys_ok_def by blast
    with finish current have "b \<noteq> a" by auto
    with finish current show ?thesis by simp
  qed simp
next
  case (stale key call v e s g')
  then show ?case by (auto elim!: Finish_cases)
qed

text \<open>
  C24: A finished call's result never changes: every follower that attached to it,
  whenever it gets to run, reads the value and error the leader finished with,
  unless its own context ended first.
\<close>

theorem group_result_shared:
  assumes "gstep\<^sup>*\<^sup>* (ginit l) s" "Finish key (Some a) v e (gs_group s) = (True, g1)"
    and "gstep\<^sup>*\<^sup>* (s\<lparr>gs_group := g1, gs_leaders := filter (\<lambda>(k, _). k \<noteq> key) (gs_leaders s)\<rparr>) s'"
  shows "\<exists>c. g_heap (gs_group s') a = Some c \<and> Wait None c = Some (v, e) \<and> (\<forall>x. Wait (Some x) c = Some (None, Some x))"
proof -
  let ?s1 = "s\<lparr>gs_group := g1, gs_leaders := filter (\<lambda>(k, _). k \<noteq> key) (gs_leaders s)\<rparr>"
  have ok: "gsys_ok s" by (rule greachable_ok [OF assms(1)])
  have "\<exists>c. g_heap g1 a = Some c \<and> ca_done c \<and> ca_value c = v \<and> ca_err c = e"
    using assms(2)
  proof (cases rule: Finish_cases)
    case (current b)
    then have "(key, a) \<in> set (g_calls (gs_group s))" by (auto dest: map_of_SomeD)
    then obtain c0 where "g_heap (gs_group s) a = Some c0"
      using ok group_okD(5) unfolding gsys_ok_def by blast
    with current show ?thesis by simp
  qed simp
  then have init: "\<exists>c. g_heap (gs_group ?s1) a = Some c \<and> ca_done c \<and> ca_value c = v \<and> ca_err c = e" by simp
  have ok1: "gsys_ok ?s1" using gstep_ok gstep.finish [OF assms(2)] ok by blast
  have "gsys_ok s' \<and> (\<exists>c. g_heap (gs_group s') a = Some c \<and> ca_done c \<and> ca_value c = v \<and> ca_err c = e)"
    using assms(3)
  proof (induction rule: rtranclp_induct)
    case base
    show ?case using ok1 init by blast
  next
    case (step x y)
    then obtain c where c: "g_heap (gs_group x) a = Some c" "ca_done c" "ca_value c = v" "ca_err c = e" by blast
    then show ?case using gstep_result_stable [OF step(2) _ c(1,2)] gstep_ok [OF step(2)] step.IH by auto
  qed
  then show ?thesis by (auto simp: Wait_def)
qed

theorem group_result_shared_witness:
  "\<exists>g1 c. Finish ''k'' (Some 0) (Some (7 :: int)) None (snd (Begin ''k'' (gs_group (ginit demo_limits)))) = (True, g1) \<and>
     g_heap g1 0 = Some c \<and> Wait None c = Some (Some 7, None)"
proof -
  obtain g' where b: "Begin ''k'' (gs_group (ginit demo_limits :: int gsys)) = (Inr (True, 0), g')" and
    g': "map_of (g_calls g') ''k'' = Some 0"
    by (simp add: Begin_def ginit_def demo_limits_def)
  let ?i = "ginit demo_limits :: int gsys"
  let ?s = "?i\<lparr>gs_group := g', gs_leaders := (''k'', 0) # gs_leaders ?i\<rparr>"
  have r: "gstep\<^sup>*\<^sup>* ?i ?s" by (rule r_into_rtranclp) (rule gstep.lead [OF b])
  obtain g1 where f: "Finish ''k'' (Some 0) (Some (7 :: int)) None (gs_group ?s) = (True, g1)"
    using g' by (simp add: Finish_def)
  from group_result_shared [OF r f rtranclp.rtrancl_refl] b f show ?thesis by auto
qed

section \<open>The scope (\<open>scope.go\<close>)\<close>

record ScopeLimits =
  sl_Flights :: Limits
  sl_MaxEntries :: int
  sl_MaxBytes :: int
  sl_MaxValueBytes :: int
  sl_MaxAge :: int

text \<open>
  \<open>sco_expired\<close> is the error of the scope's context: \<open>None\<close> until it has ended. An entry is \<open>None\<close>
  while it is reserved (a nil slice in the code) and \<open>Some\<close> once committed.
\<close>

record Scope =
  sco_limits :: ScopeLimits
  sco_expired :: err
  sco_entries :: "(string \<times> string option) list"
  sco_bytes :: int

definition NewScope :: "err \<Rightarrow> ScopeLimits \<Rightarrow> (Scope \<times> string Group) res" where
  "NewScope parent_err l =
     (if sl_MaxEntries l \<le> 0 \<or> sl_MaxBytes l \<le> 0 \<or> sl_MaxValueBytes l \<le> 0 \<or> sl_MaxValueBytes l > sl_MaxBytes l \<or> sl_MaxAge l \<le> 0
      then Inl (New ''readcache scope requires positive bounded storage and lifetime'')
      else case NewGroup (sl_Flights l) of
        Inl e \<Rightarrow> Inl e
      | Inr g \<Rightarrow> Inr (\<lparr>sco_limits = l, sco_expired = parent_err, sco_entries = [], sco_bytes = 0\<rparr>, g))"

datatype reserved = Hit string | Full | Reserved

text \<open>The first critical section of the load function of \<open>Resolve\<close>.\<close>

definition reserve :: "string \<Rightarrow> Scope \<Rightarrow> reserved \<times> Scope" where
  "reserve key s =
     (case map_of (sco_entries s) key of
        Some (Some existing) \<Rightarrow> (Hit existing, s)
      | _ \<Rightarrow>
          (if int (length (sco_entries s)) \<ge> sl_MaxEntries (sco_limits s) then (Full, s)
           else (Reserved, s\<lparr>sco_entries := put key None (sco_entries s)\<rparr>)))"

text \<open>The part after a successful load, with its own critical section.\<close>

definition commit :: "string \<Rightarrow> string \<Rightarrow> Scope \<Rightarrow> err \<times> Scope" where
  "commit key data s =
     (if int (length data) > sl_MaxValueBytes (sco_limits s) then (Some ErrCapacity, s)
      else if sco_expired s \<noteq> None then (sco_expired s, s)
      else if int (length data) > sl_MaxBytes (sco_limits s) - sco_bytes s then (Some ErrCapacity, s)
      else (None, s\<lparr>sco_entries := put key (Some data) (sco_entries s), sco_bytes := sco_bytes s + int (length data)\<rparr>))"

text \<open>The deferred clean-up of a load that did not commit.\<close>

definition unreserve :: "string \<Rightarrow> Scope \<Rightarrow> Scope" where
  "unreserve key s = s\<lparr>sco_entries := filter (\<lambda>(k, _). k \<noteq> key) (sco_entries s)\<rparr>"

text \<open>\<open>Close\<close> cancels the context and then, in its critical section, clears the storage.\<close>

definition scope_clear :: "Scope \<Rightarrow> Scope" where
  "scope_clear s = s\<lparr>sco_entries := [], sco_bytes := 0\<rparr>"

text \<open>
  The load function \<open>Resolve\<close> hands to the group, run without interference;
  \<open>load\<close> is what the caller's provider returns, or the error of the caller's
  context after it.
\<close>

definition scope_load :: "string \<Rightarrow> string res \<Rightarrow> Scope \<Rightarrow> (string option \<times> err) \<times> Scope" where
  "scope_load key load s =
     (case reserve key s of
        (Hit v, s1) \<Rightarrow> ((Some v, None), s1)
      | (Full, s1) \<Rightarrow> ((None, Some ErrCapacity), s1)
      | (Reserved, s1) \<Rightarrow>
          (case load of
             Inl e \<Rightarrow> ((None, Some e), unreserve key s1)
           | Inr d \<Rightarrow>
               (case commit key d s1 of
                  (Some e, s2) \<Rightarrow> ((None, Some e), unreserve key s2)
                | (None, s2) \<Rightarrow> ((Some d, None), s2))))"

text \<open>\<open>Resolve\<close>; as in \<open>Do\<close>, the outcome \<open>None\<close> is a follower that blocks.\<close>

definition Resolve ::
  "err \<Rightarrow> string \<Rightarrow> string res \<Rightarrow> Scope \<times> string Group \<Rightarrow> (string option \<times> err) option \<times> Scope \<times> string Group" where
  "Resolve ctx_err key load st =
     (case st of (s, g) \<Rightarrow>
        if sco_expired s \<noteq> None then (Some (None, sco_expired s), s, g)
        else
          let leads = (ctx_err = None \<and> (case fst (Begin key g) of Inr (True, _) \<Rightarrow> True | _ \<Rightarrow> False));
              (r, s') = (if leads then scope_load key load s else ((None, None), s));
              (out, g') = Do ctx_err key (Some r) g
          in ((case out of Some (_, Some e) \<Rightarrow> Some (None, Some e) | _ \<Rightarrow> out), s', g'))"

section \<open>Concurrent use of a scope\<close>

text \<open>
  The steps of \<open>sstep\<close> are the critical sections and the calls between them.
  The check of the scope's context at the start of \<open>Resolve\<close> may be arbitrarily
  old when the flight begins, so \<open>enter\<close> has no guard; \<open>load_failed\<close> covers an
  error, a panic and a context that ended.
\<close>

text \<open>Where a leader is inside \<open>Resolve\<close>; \<open>Failing\<close> has an error but has not cleaned up, \<open>Done\<close> has not finished its flight.\<close>

datatype phase = Fresh | Loading | Failing go_error | Done "string option \<times> err"

type_synonym thread = "string \<times> nat \<times> phase"

record 'g ssys =
  ss_group :: 'g
  ss_scope :: Scope
  ss_threads :: "thread list"

definition advance :: "string \<Rightarrow> phase \<Rightarrow> thread list \<Rightarrow> thread list" where
  "advance key ph ts = map (\<lambda>(k, a, p). if k = key then (k, a, ph) else (k, a, p)) ts"

inductive sstep ::
  "(string \<Rightarrow> 'g \<Rightarrow> (bool \<times> nat) res \<times> 'g) \<Rightarrow> (string \<Rightarrow> nat option \<Rightarrow> string option \<Rightarrow> err \<Rightarrow> 'g \<Rightarrow> bool \<times> 'g) \<Rightarrow>
   (nat \<Rightarrow> 'g \<Rightarrow> 'g) \<Rightarrow> 'g ssys \<Rightarrow> 'g ssys \<Rightarrow> bool"
  for bg fin rel where
  enter: "bg key (ss_group s) = (Inr (True, a), g') \<Longrightarrow>
     sstep bg fin rel s (s\<lparr>ss_group := g', ss_threads := (key, a, Fresh) # ss_threads s\<rparr>)"
| attach: "bg key (ss_group s) = (r, g') \<Longrightarrow> (\<forall>a. r \<noteq> Inr (True, a)) \<Longrightarrow> sstep bg fin rel s (s\<lparr>ss_group := g'\<rparr>)"
| detach: "sstep bg fin rel s (s\<lparr>ss_group := rel a (ss_group s)\<rparr>)"
| hit: "(key, a, Fresh) \<in> set (ss_threads s) \<Longrightarrow> reserve key (ss_scope s) = (Hit v, sc) \<Longrightarrow>
     sstep bg fin rel s (s\<lparr>ss_scope := sc, ss_threads := advance key (Done (Some v, None)) (ss_threads s)\<rparr>)"
| full: "(key, a, Fresh) \<in> set (ss_threads s) \<Longrightarrow> reserve key (ss_scope s) = (Full, sc) \<Longrightarrow>
     sstep bg fin rel s (s\<lparr>ss_scope := sc, ss_threads := advance key (Done (None, Some ErrCapacity)) (ss_threads s)\<rparr>)"
| load: "(key, a, Fresh) \<in> set (ss_threads s) \<Longrightarrow> reserve key (ss_scope s) = (Reserved, sc) \<Longrightarrow>
     sstep bg fin rel s (s\<lparr>ss_scope := sc, ss_threads := advance key Loading (ss_threads s)\<rparr>)"
| load_failed: "(key, a, Loading) \<in> set (ss_threads s) \<Longrightarrow>
     sstep bg fin rel s (s\<lparr>ss_threads := advance key (Failing e) (ss_threads s)\<rparr>)"
| refused: "(key, a, Loading) \<in> set (ss_threads s) \<Longrightarrow> commit key d (ss_scope s) = (Some e, sc) \<Longrightarrow>
     sstep bg fin rel s (s\<lparr>ss_scope := sc, ss_threads := advance key (Failing e) (ss_threads s)\<rparr>)"
| committed: "(key, a, Loading) \<in> set (ss_threads s) \<Longrightarrow> commit key d (ss_scope s) = (None, sc) \<Longrightarrow>
     sstep bg fin rel s (s\<lparr>ss_scope := sc, ss_threads := advance key (Done (Some d, None)) (ss_threads s)\<rparr>)"
| cleanup: "(key, a, Failing e) \<in> set (ss_threads s) \<Longrightarrow>
     sstep bg fin rel s (s\<lparr>ss_scope := unreserve key (ss_scope s), ss_threads := advance key (Done (None, Some e)) (ss_threads s)\<rparr>)"
| finish: "(key, a, Done (v, e)) \<in> set (ss_threads s) \<Longrightarrow> fin key (Some a) v e (ss_group s) = (b, g') \<Longrightarrow>
     sstep bg fin rel s (s\<lparr>ss_group := g', ss_threads := filter (\<lambda>(k, _). k \<noteq> key) (ss_threads s)\<rparr>)"
| expire: "sco_expired (ss_scope s) = None \<Longrightarrow> sstep bg fin rel s (s\<lparr>ss_scope := (ss_scope s)\<lparr>sco_expired := Some e\<rparr>\<rparr>)"
| clear: "sco_expired (ss_scope s) \<noteq> None \<Longrightarrow> sstep bg fin rel s (s\<lparr>ss_scope := scope_clear (ss_scope s)\<rparr>)"

section \<open>What the scope needs of the group\<close>

locale single_flight =
  fixes bg :: "string \<Rightarrow> 'g \<Rightarrow> (bool \<times> nat) res \<times> 'g"
    and fin :: "string \<Rightarrow> nat option \<Rightarrow> string option \<Rightarrow> err \<Rightarrow> 'g \<Rightarrow> bool \<times> 'g"
    and rel :: "nat \<Rightarrow> 'g \<Rightarrow> 'g"
    and live :: "'g \<Rightarrow> (string \<times> nat) list"
    and ok :: "'g \<Rightarrow> bool"
  assumes live_distinct: "ok g \<Longrightarrow> distinct (map fst (live g))"
    and lead: "ok g \<Longrightarrow> bg k g = (Inr (True, a), g') \<Longrightarrow> ok g' \<and> live g' = (k, a) # live g"
    and not_lead: "ok g \<Longrightarrow> bg k g = (r, g') \<Longrightarrow> (\<forall>a. r \<noteq> Inr (True, a)) \<Longrightarrow> ok g' \<and> live g' = live g"
    and leave: "ok g \<Longrightarrow> ok (rel a g) \<and> live (rel a g) = live g"
    and finish: "ok g \<Longrightarrow> (k, a) \<in> set (live g) \<Longrightarrow> fin k (Some a) v e g = (b, g') \<Longrightarrow>
      b \<and> ok g' \<and> live g' = filter (\<lambda>(k', _). k' \<noteq> k) (live g)"

text \<open>The stored bytes of a scope, and its shape between critical sections.\<close>

fun stored :: "(string \<times> string option) list \<Rightarrow> int" where
  "stored [] = 0"
| "stored ((k, None) # es) = stored es"
| "stored ((k, Some d) # es) = int (length d) + stored es"

definition scope_ok :: "Scope \<Rightarrow> bool" where
  "scope_ok s \<longleftrightarrow>
     distinct (map fst (sco_entries s)) \<and> int (length (sco_entries s)) \<le> max 0 (sl_MaxEntries (sco_limits s)) \<and>
     (\<forall>k d. (k, Some d) \<in> set (sco_entries s) \<longrightarrow> int (length d) \<le> sl_MaxValueBytes (sco_limits s)) \<and>
     sco_bytes s = stored (sco_entries s) \<and> sco_bytes s \<le> max 0 (sl_MaxBytes (sco_limits s))"

text \<open>A key that a leader is loading holds a reservation, unless the scope was closed under it.\<close>

definition reservation :: "Scope \<Rightarrow> thread \<Rightarrow> bool" where
  "reservation s t \<longleftrightarrow>
     (case t of (k, a, ph) \<Rightarrow>
        (case ph of Loading \<Rightarrow> True | Failing e \<Rightarrow> True | _ \<Rightarrow> False) \<longrightarrow>
        (case map_of (sco_entries s) k of None \<Rightarrow> sco_expired s \<noteq> None | Some None \<Rightarrow> True | Some (Some d) \<Rightarrow> False))"

lemma stored_nonneg: "0 \<le> stored es"
  by (induction es rule: stored.induct) auto

lemma stored_absent: "k \<notin> fst ` set es \<Longrightarrow> filter (\<lambda>(k', _). k' \<noteq> k) es = es"
  by (induction es) auto

lemma stored_remove:
  "distinct (map fst es) \<Longrightarrow>
     stored (filter (\<lambda>(k', _). k' \<noteq> k) es) =
     stored es - (case map_of es k of Some (Some d) \<Rightarrow> int (length d) | _ \<Rightarrow> 0)"
proof (induction es rule: stored.induct)
  case (2 k' es)
  then show ?case using stored_absent [of k' es] by (cases "k' = k") auto
next
  case (3 k' d es)
  then show ?case using stored_absent [of k' es] by (cases "k' = k") auto
qed simp

lemma length_remove:
  "distinct (map fst es) \<Longrightarrow> length (filter (\<lambda>(k', _). k' \<noteq> k) es) = length es - (if map_of es k = None then 0 else 1)"
proof (induction es)
  case (Cons e es)
  obtain k' v where e: "e = (k', v)" by fastforce
  show ?case
  proof (cases "k' = k")
    case True
    with Cons.prems e stored_absent [of k es] show ?thesis by simp
  next
    case False
    with Cons e have "length (filter (\<lambda>(k', _). k' \<noteq> k) es) = length es - (if map_of es k = None then 0 else 1)" by simp
    moreover have "map_of es k \<noteq> None \<Longrightarrow> length es > 0" by (cases es) auto
    ultimately show ?thesis using False e by auto
  qed
qed simp

lemma distinct_remove: "distinct (map fst es) \<Longrightarrow> distinct (map fst (filter P es))"
  by (rule distinct_map_filter)

lemma scope_okD:
  assumes "scope_ok s"
  shows "distinct (map fst (sco_entries s))" "int (length (sco_entries s)) \<le> max 0 (sl_MaxEntries (sco_limits s))"
    "\<And>k d. (k, Some d) \<in> set (sco_entries s) \<Longrightarrow> int (length d) \<le> sl_MaxValueBytes (sco_limits s)"
    "sco_bytes s = stored (sco_entries s)" "sco_bytes s \<le> max 0 (sl_MaxBytes (sco_limits s))"
  using assms unfolding scope_ok_def by blast+

lemma unreserve_ok:
  assumes "scope_ok s" "\<forall>d. map_of (sco_entries s) key \<noteq> Some (Some d)"
  shows "scope_ok (unreserve key s)"
proof -
  let ?es = "filter (\<lambda>(k, _). k \<noteq> key) (sco_entries s)"
  have "stored ?es = stored (sco_entries s)"
    using stored_remove [OF scope_okD(1) [OF assms(1)], of key] assms(2) by (simp split: option.splits)
  moreover have "int (length ?es) \<le> max 0 (sl_MaxEntries (sco_limits s))"
    using order_trans [OF _ scope_okD(2) [OF assms(1)], of "int (length ?es)"] by simp
  moreover have "distinct (map fst ?es)" by (rule distinct_remove [OF scope_okD(1) [OF assms(1)]])
  ultimately show ?thesis
    using scope_okD(3-5) [OF assms(1)] by (auto simp: scope_ok_def unreserve_def)
qed

lemma reserve_ok:
  assumes "scope_ok s" "reserve key s = (r, s')"
  shows "scope_ok s'" "sco_limits s' = sco_limits s" "sco_expired s' = sco_expired s"
    "r \<noteq> Reserved \<Longrightarrow> s' = s"
    "r = Reserved \<Longrightarrow> sco_entries s' = put key None (sco_entries s)"
proof -
  have u: "scope_ok (unreserve key s)" if "\<forall>d. map_of (sco_entries s) key \<noteq> Some (Some d)"
    by (rule unreserve_ok [OF assms(1) that])
  have new: "scope_ok (s\<lparr>sco_entries := put key None (sco_entries s)\<rparr>)"
    if m: "\<forall>d. map_of (sco_entries s) key \<noteq> Some (Some d)" and l: "int (length (sco_entries s)) < sl_MaxEntries (sco_limits s)"
  proof -
    let ?es = "filter (\<lambda>(k, _). k \<noteq> key) (sco_entries s)"
    have "int (length ?es) \<le> int (length (sco_entries s))" by simp
    from order.strict_trans1 [OF this l] have "int (length ((key, None) # ?es)) \<le> sl_MaxEntries (sco_limits s)" by simp
    moreover have "key \<notin> fst ` set ?es" by auto
    ultimately show ?thesis using scope_okD [OF u [OF m]] by (simp add: scope_ok_def put_def unreserve_def)
  qed
  consider (hit) d where "map_of (sco_entries s) key = Some (Some d)"
    | (other) "\<forall>d. map_of (sco_entries s) key \<noteq> Some (Some d)" by blast
  note cs = this
  show "scope_ok s'" "sco_limits s' = sco_limits s" "sco_expired s' = sco_expired s"
    "r \<noteq> Reserved \<Longrightarrow> s' = s" "r = Reserved \<Longrightarrow> sco_entries s' = put key None (sco_entries s)"
    using cs assms new by (cases; force simp: reserve_def split: option.splits if_splits)+
qed

lemma commit_ok:
  assumes "scope_ok s" "commit key d s = (e, s')" "map_of (sco_entries s) key = Some None \<or> sco_expired s \<noteq> None"
  shows "scope_ok s'" "sco_limits s' = sco_limits s" "sco_expired s' = sco_expired s"
    "e \<noteq> None \<Longrightarrow> s' = s"
    "e = None \<Longrightarrow> sco_entries s' = put key (Some d) (sco_entries s)"
proof -
  let ?es = "filter (\<lambda>(k, _). k \<noteq> key) (sco_entries s)"
  have new: "scope_ok (s\<lparr>sco_entries := put key (Some d) (sco_entries s), sco_bytes := sco_bytes s + int (length d)\<rparr>)"
    if m: "map_of (sco_entries s) key = Some None" and v: "int (length d) \<le> sl_MaxValueBytes (sco_limits s)"
      and b: "int (length d) \<le> sl_MaxBytes (sco_limits s) - sco_bytes s"
  proof -
    have st: "stored ?es = sco_bytes s"
      using stored_remove [OF scope_okD(1) [OF assms(1)], of key] m scope_okD(4) [OF assms(1)] by simp
    have "length (sco_entries s) > 0" using m by (cases "sco_entries s") auto
    then have "int (length ((key, Some d) # ?es)) = int (length (sco_entries s))"
      using length_remove [OF scope_okD(1) [OF assms(1)], of key] m by simp
    moreover have "key \<notin> fst ` set ?es" by auto
    moreover have "distinct (map fst ?es)" by (rule distinct_remove [OF scope_okD(1) [OF assms(1)]])
    ultimately show ?thesis
      using scope_okD(2,3) [OF assms(1)] st v b by (auto simp: scope_ok_def put_def)
  qed
  show "scope_ok s'" "sco_limits s' = sco_limits s" "sco_expired s' = sco_expired s"
    "e \<noteq> None \<Longrightarrow> s' = s" "e = None \<Longrightarrow> sco_entries s' = put key (Some d) (sco_entries s)"
    using assms new by (auto simp: commit_def split: if_splits)
qed

lemma reservation_other:
  "reservation s t \<Longrightarrow> fst t \<noteq> key \<Longrightarrow> map_of (sco_entries s') (fst t) = map_of (sco_entries s) (fst t) \<Longrightarrow>
     sco_expired s' = sco_expired s \<Longrightarrow> reservation s' t"
  by (cases t) (auto simp: reservation_def split: option.splits)


text \<open>The invariant of a scope in use: one thread for each live flight.\<close>

definition ssys_ok :: "('g \<Rightarrow> bool) \<Rightarrow> ('g \<Rightarrow> (string \<times> nat) list) \<Rightarrow> 'g ssys \<Rightarrow> bool" where
  "ssys_ok ok live s \<longleftrightarrow>
     ok (ss_group s) \<and> map (\<lambda>(k, a, _). (k, a)) (ss_threads s) = live (ss_group s) \<and>
     scope_ok (ss_scope s) \<and> (\<forall>t \<in> set (ss_threads s). reservation (ss_scope s) t)"

lemma advance_keys: "map (\<lambda>(k, a, _). (k, a)) (advance key ph ts) = map (\<lambda>(k, a, _). (k, a)) ts"
  by (induction ts) (auto simp: advance_def)

lemma advance_member:
  "t \<in> set (advance key ph ts) \<Longrightarrow> (\<exists>a. t = (key, a, ph)) \<or> (t \<in> set ts \<and> fst t \<noteq> key)"
  by (auto simp: advance_def split: if_splits)

lemma reservation_settled [simp]: "reservation s (k, a, Done r)" "reservation s (k, a, Fresh)"
  by (simp_all add: reservation_def)

lemma ssys_advance:
  assumes "ssys_ok ok live s" "scope_ok sc" "\<And>a. reservation sc (key, a, ph)"
    and "\<And>j. j \<noteq> key \<Longrightarrow> map_of (sco_entries sc) j = map_of (sco_entries (ss_scope s)) j"
    and "sco_expired sc = sco_expired (ss_scope s)"
  shows "ssys_ok ok live (s\<lparr>ss_scope := sc, ss_threads := advance key ph (ss_threads s)\<rparr>)"
proof -
  have "reservation sc t" if "t \<in> set (advance key ph (ss_threads s))" for t
    using advance_member [OF that] assms reservation_other [of "ss_scope s" t key sc]
    unfolding ssys_ok_def by auto
  with assms(1,2) show ?thesis by (simp add: ssys_ok_def advance_keys)
qed

lemma threads_remove:
  "map (\<lambda>(k, a, _). (k, a)) (filter (\<lambda>(k, _). k \<noteq> key) ts) =
     filter (\<lambda>(k, _). k \<noteq> key) (map (\<lambda>(k, a, _). (k, a)) ts)"
  by (induction ts) auto

lemma reservationD:
  assumes "ssys_ok ok live s" "(key, a, ph) \<in> set (ss_threads s)" "ph = Loading \<or> (\<exists>e. ph = Failing e)"
  shows "map_of (sco_entries (ss_scope s)) key = Some None \<or>
    map_of (sco_entries (ss_scope s)) key = None \<and> sco_expired (ss_scope s) \<noteq> None"
  using assms unfolding ssys_ok_def reservation_def by (fastforce split: option.splits)

context single_flight
begin

lemma sstep_ok: "sstep bg fin rel s s' \<Longrightarrow> ssys_ok ok live s \<Longrightarrow> ssys_ok ok live s'"
proof (induction rule: sstep.induct)
  case (enter key s a g')
  then show ?case using lead [of "ss_group s" key a g'] by (simp add: ssys_ok_def)
next
  case (attach key s r g')
  then show ?case using not_lead [of "ss_group s" key r g'] by (simp add: ssys_ok_def)
next
  case (detach s a)
  then show ?case using leave [of "ss_group s" a] by (simp add: ssys_ok_def)
next
  case (hit key a s v sc)
  from hit have ok: "scope_ok (ss_scope s)" by (simp add: ssys_ok_def)
  show ?case by (rule ssys_advance [OF hit(3)]) (use reserve_ok [OF ok hit(2)] ok in simp_all)
next
  case (full key a s sc)
  from full have ok: "scope_ok (ss_scope s)" by (simp add: ssys_ok_def)
  show ?case by (rule ssys_advance [OF full(3)]) (use reserve_ok [OF ok full(2)] ok in simp_all)
next
  case (load key a s sc)
  from load have ok: "scope_ok (ss_scope s)" by (simp add: ssys_ok_def)
  note r = reserve_ok [OF ok load(2)]
  show ?case
    by (rule ssys_advance [OF load(3)]) (use r in \<open>simp_all add: map_of_put reservation_def\<close>)
next
  case (load_failed key a s e)
  then have ok: "scope_ok (ss_scope s)" by (simp add: ssys_ok_def)
  have "ssys_ok ok live (s\<lparr>ss_scope := ss_scope s, ss_threads := advance key (Failing e) (ss_threads s)\<rparr>)"
    by (rule ssys_advance [OF load_failed(2) ok])
      (use reservationD [OF load_failed(2,1)] in \<open>auto simp: reservation_def\<close>)
  then show ?case by simp
next
  case (refused key a s d e sc)
  then have ok: "scope_ok (ss_scope s)" by (simp add: ssys_ok_def)
  note r = reservationD [OF refused(3,1)]
  then have "map_of (sco_entries (ss_scope s)) key = Some None \<or> sco_expired (ss_scope s) \<noteq> None" by blast
  note c = commit_ok [OF ok refused(2) this]
  then have sc: "sc = ss_scope s" by simp
  show ?case
    by (rule ssys_advance [OF refused(3)]) (use ok r sc in \<open>auto simp: reservation_def\<close>)
next
  case (committed key a s d sc)
  then have ok: "scope_ok (ss_scope s)" by (simp add: ssys_ok_def)
  note r = reservationD [OF committed(3,1)]
  then have "map_of (sco_entries (ss_scope s)) key = Some None \<or> sco_expired (ss_scope s) \<noteq> None" by blast
  note c = commit_ok [OF ok committed(2) this]
  show ?case
    by (rule ssys_advance [OF committed(3)]) (use c in \<open>simp_all add: map_of_put\<close>)
next
  case (cleanup key a e s)
  then have ok: "scope_ok (ss_scope s)" by (simp add: ssys_ok_def)
  have "\<forall>d. map_of (sco_entries (ss_scope s)) key \<noteq> Some (Some d)"
    using reservationD [OF cleanup(2,1)] by auto
  note u = unreserve_ok [OF ok this]
  show ?case
    by (rule ssys_advance [OF cleanup(2) u]) (simp_all add: unreserve_def map_of_remove)
next
  case (finish key a v e s b g')
  then have "(key, a) \<in> set (map (\<lambda>(k, a, _). (k, a)) (ss_threads s))" by force
  then have "(key, a) \<in> set (live (ss_group s))" using finish(3) by (simp only: ssys_ok_def)
  then show ?case
    using finish single_flight.finish [OF single_flight_axioms, of "ss_group s" key a v e b g']
    by (simp add: ssys_ok_def threads_remove)
next
  case (expire s e)
  have "reservation (ss_scope s\<lparr>sco_expired := Some e\<rparr>) t" if "reservation (ss_scope s) t" for t
    using that by (cases t) (auto simp: reservation_def split: option.splits)
  with expire show ?case by (simp add: ssys_ok_def scope_ok_def)
next
  case (clear s)
  then show ?case by (auto simp: ssys_ok_def scope_ok_def scope_clear_def reservation_def split: option.splits)
qed

lemma reachable_ok:
  assumes "(sstep bg fin rel)\<^sup>*\<^sup>* s s'" "ssys_ok ok live s"
  shows "ssys_ok ok live s'"
  using assms by (induction rule: rtranclp_induct) (auto intro: sstep_ok)

end

interpretation group: single_flight Begin Finish release g_calls group_ok
proof
  fix g g' :: "string Group" and k a
  show "distinct (map fst (g_calls g))" if "group_ok g" by (rule group_okD(1) [OF that])
  show "group_ok g' \<and> g_calls g' = (k, a) # g_calls g" if "group_ok g" "Begin k g = (Inr (True, a), g')"
    using Begin_group_ok [OF that] Begin_leaderD(2) [OF that(2)] by simp
  show "group_ok g' \<and> g_calls g' = g_calls g"
    if "group_ok g" "Begin k g = (r, g')" "\<forall>a. r \<noteq> Inr (True, a)" for r
    using Begin_group_ok [OF that(1,2)] that(2,3) by (auto elim!: Begin_cases)
  show "group_ok (release a g) \<and> g_calls (release a g) = g_calls g" if "group_ok g"
    using release_group_ok [OF that] by (simp add: release_def split: option.splits)
  show "b \<and> group_ok g' \<and> g_calls g' = filter (\<lambda>(k', _). k' \<noteq> k) (g_calls g)"
    if "group_ok g" "(k, a) \<in> set (g_calls g)" "Finish k (Some a) v e g = (b, g')" for v e b
    using Finish_group_ok [OF that(1,3)] that(2,3) map_of_is_SomeI [OF group_okD(1) [OF that(1)] that(2)]
    by (auto simp: Finish_def)
qed

lemma sstep_limits: "sstep bg fin rel s s' \<Longrightarrow> sco_limits (ss_scope s') = sco_limits (ss_scope s)"
proof (induction rule: sstep.induct)
qed (auto simp: reserve_def commit_def unreserve_def scope_clear_def split: option.splits if_splits)

lemma sreachable_limits:
  "(sstep bg fin rel)\<^sup>*\<^sup>* s s' \<Longrightarrow> sco_limits (ss_scope s') = sco_limits (ss_scope s)"
  by (induction rule: rtranclp_induct) (auto simp: sstep_limits)

lemma NewScope_ok:
  assumes "NewScope d l = Inr (sc, g)"
  shows "ssys_ok group_ok g_calls \<lparr>ss_group = g, ss_scope = sc, ss_threads = []\<rparr>" "sco_limits sc = l"
    "0 < sl_MaxEntries l" "0 < sl_MaxBytes l"
  using assms
  by (auto simp: NewScope_def NewGroup_def ssys_ok_def group_ok_def scope_ok_def split: if_splits sum.splits)

text \<open>
  C13: Whatever its users do concurrently, and whenever it expires or is closed, a
  scope keeps within its limits: it holds at most \<open>MaxEntries\<close> entries, loads in
  progress included, its byte count is exactly what it stores and at most
  \<open>MaxBytes\<close>, no value is longer than \<open>MaxValueBytes\<close>, and no key is loaded twice
  at the same time.
\<close>

theorem scope_bounded:
  assumes "NewScope d l = Inr (sc, g)"
    and "(sstep Begin Finish release)\<^sup>*\<^sup>* \<lparr>ss_group = g, ss_scope = sc, ss_threads = []\<rparr> s"
  shows "int (length (sco_entries (ss_scope s))) \<le> sl_MaxEntries l \<and>
    sco_bytes (ss_scope s) = stored (sco_entries (ss_scope s)) \<and> sco_bytes (ss_scope s) \<le> sl_MaxBytes l \<and>
    (\<forall>k v. (k, Some v) \<in> set (sco_entries (ss_scope s)) \<longrightarrow> int (length v) \<le> sl_MaxValueBytes l) \<and>
    distinct (map fst (ss_threads s))"
proof -
  note new = NewScope_ok [OF assms(1)]
  have ok: "ssys_ok group_ok g_calls s" by (rule group.reachable_ok [OF assms(2) new(1)])
  have lim: "sco_limits (ss_scope s) = l" using sreachable_limits [OF assms(2)] new(2) by simp
  have "distinct (map fst (map (\<lambda>(k, a, _). (k, a)) (ss_threads s)))"
    using ok group_okD(1) [of "ss_group s"] by (simp only: ssys_ok_def)
  moreover have "map fst (map (\<lambda>(k, a, _). (k, a)) (ss_threads s)) = map fst (ss_threads s)"
    by (simp add: case_prod_beta)
  ultimately have "distinct (map fst (ss_threads s))" by (simp only:)
  moreover have "scope_ok (ss_scope s)" using ok by (simp add: ssys_ok_def)
  ultimately show ?thesis using scope_okD [of "ss_scope s"] lim new(3,4) by simp
qed

definition demo_scope_limits :: ScopeLimits where
  "demo_scope_limits = \<lparr>sl_Flights = demo_limits, sl_MaxEntries = 1, sl_MaxBytes = 4, sl_MaxValueBytes = 2, sl_MaxAge = 10\<rparr>"

lemma NewScope_demo:
  obtains sc g where "NewScope None demo_scope_limits = Inr (sc, g)" "sco_entries sc = []" "sco_bytes sc = 0"
    "sco_expired sc = None" "sco_limits sc = demo_scope_limits" "g_limits g = demo_limits" "g_calls g = []"
proof -
  let ?sc = "\<lparr>sco_limits = demo_scope_limits, sco_expired = None, sco_entries = [], sco_bytes = 0\<rparr>"
  let ?g = "\<lparr>g_limits = demo_limits, g_calls = [], g_heap = (\<lambda>_. None), g_next = 0\<rparr>"
  have "NewScope None demo_scope_limits = Inr (?sc, ?g)"
    by (simp add: NewScope_def demo_scope_limits_def NewGroup_def demo_limits_def)
  then show thesis by (rule that) simp_all
qed

text \<open>A leader that has begun a flight and reserved its entry.\<close>

theorem scope_bounded_witness:
  "\<exists>sc g s. NewScope None demo_scope_limits = Inr (sc, g) \<and>
     (sstep Begin Finish release)\<^sup>*\<^sup>* \<lparr>ss_group = g, ss_scope = sc, ss_threads = []\<rparr> s \<and>
     sco_entries (ss_scope s) = [(''k'', None)] \<and> int (length (sco_entries (ss_scope s))) \<le> 1"
proof -
  obtain sc g where n: "NewScope None demo_scope_limits = Inr (sc, g)" and e: "sco_entries sc = []"
      "sco_limits sc = demo_scope_limits" "g_limits g = demo_limits" "g_calls g = []"
    by (rule NewScope_demo)
  obtain a g' where b: "Begin ''k'' g = (Inr (True, a), g')"
    using e by (simp add: Begin_def demo_limits_def Let_def)
  let ?i = "\<lparr>ss_group = g, ss_scope = sc, ss_threads = []\<rparr>"
  let ?s1 = "?i\<lparr>ss_group := g', ss_threads := (''k'', a, Fresh) # ss_threads ?i\<rparr>"
  let ?sc = "sc\<lparr>sco_entries := [(''k'', None)]\<rparr>"
  let ?s2 = "?s1\<lparr>ss_scope := ?sc, ss_threads := advance ''k'' Loading (ss_threads ?s1)\<rparr>"
  have "sstep Begin Finish release ?i ?s1" by (rule sstep.enter) (use b in simp)
  moreover have "sstep Begin Finish release ?s1 ?s2"
    by (rule sstep.load [where a = a]) (use e in \<open>simp_all add: reserve_def put_def demo_scope_limits_def\<close>)
  ultimately have r: "(sstep Begin Finish release)\<^sup>*\<^sup>* ?i ?s2" by (rule converse_rtranclp_into_rtranclp [OF _ r_into_rtranclp])
  have "int (length (sco_entries (ss_scope ?s2))) \<le> 1"
    using scope_bounded [OF n r] by (simp add: demo_scope_limits_def)
  with n r show ?thesis by force
qed

text \<open>What a successful resolution leaves behind.\<close>

lemma scope_load_stores:
  assumes "scope_load key load s = ((Some v, None), s')"
  shows "map_of (sco_entries s') key = Some (Some v)" "sco_expired s' = sco_expired s"
  using assms
  by (auto simp: scope_load_def reserve_def commit_def map_of_put split: option.splits if_splits sum.splits)

lemma Begin_led:
  assumes "Begin key g = (Inr (True, a), g1)"
  shows "map_of (g_calls g) key = None" "key \<noteq> []" "int (length key) \<le> li_MaxKeyBytes (g_limits g)"
    "int (length (g_calls g)) < li_MaxKeys (g_limits g)"
  using assms by (rule Begin_cases; simp)+

lemma Do_leader:
  assumes "Begin key g = (Inr (True, a), g1)"
  shows "\<exists>g2. Do None key (Some r) g = (Some r, g2) \<and> g_calls g2 = g_calls g \<and> g_limits g2 = g_limits g"
proof -
  obtain v e where r: "r = (v, e)" by fastforce
  have "filter (\<lambda>(k, _). k \<noteq> key) (g_calls g) = g_calls g"
    using Begin_led(1) [OF assms] stored_absent [of key "g_calls g"] by (simp add: map_of_eq_None_iff)
  then show ?thesis using assms r Begin_leaderD(2) [OF assms] by (simp add: Do_def Finish_def)
qed

lemma Resolve_leader:
  assumes "sco_expired s = None" "Begin key g = (Inr (True, a), g1)" "scope_load key load s = ((v, e), s')"
  shows "\<exists>g2. Resolve None key load (s, g) = (Some (if e = None then v else None, e), s', g2) \<and>
    g_calls g2 = g_calls g \<and> g_limits g2 = g_limits g"
  using assms Do_leader [OF assms(2), of "(v, e)"] by (auto simp: Resolve_def split: option.splits)

text \<open>
  C38: A key is loaded once: when no flight for the key is under way and a
  resolution succeeds, the next resolution of that key returns the same value
  whatever its own provider would return, and stores nothing more.
\<close>

theorem Resolve_memoizes:
  assumes "map_of (g_calls g) key = None"
    and "Resolve None key load (s, g) = (Some (Some v, None), s', g')"
  shows "\<exists>g2. Resolve None key load2 (s', g') = (Some (Some v, None), s', g2)"
proof -
  have live: "sco_expired s = None" using assms(2) by (cases "sco_expired s") (simp_all add: Resolve_def)
  show ?thesis
  proof (cases "Begin key g")
    case (Pair r g1)
    then show ?thesis
    proof (cases rule: Begin_cases)
      case leader
      then have b: "Begin key g = (Inr (True, g_next g), g1)" using Pair by simp
      obtain v1 e1 s1 where l: "scope_load key load s = ((v1, e1), s1)" by (metis prod.exhaust)
      from Resolve_leader [OF live b l] assms(2) have eq: "v1 = Some v" "e1 = None" "s1 = s'"
        and g': "g_calls g' = g_calls g" "g_limits g' = g_limits g" by (auto split: if_splits)
      obtain a2 g3 where b2: "Begin key g' = (Inr (True, a2), g3)"
        using g' Begin_led [OF b] by (simp add: Begin_def Let_def)
      have "map_of (sco_entries s') key = Some (Some v)" "sco_expired s' = None"
        using scope_load_stores [of key load s v s'] l eq live by simp_all
      moreover from this(1) have "scope_load key load2 s' = ((Some v, None), s')"
        by (simp add: scope_load_def reserve_def)
      ultimately show ?thesis using Resolve_leader [OF _ b2, of s' load2 "Some v" None s'] by auto
    qed (use assms live Pair in \<open>auto simp: Resolve_def Do_def\<close>)
  qed
qed

theorem Resolve_memoizes_witness:
  "\<exists>sc g s' g' g2. NewScope None demo_scope_limits = Inr (sc, g) \<and>
     Resolve None ''k'' (Inr ''v'') (sc, g) = (Some (Some ''v'', None), s', g') \<and>
     Resolve None ''k'' (Inr ''w'') (s', g') = (Some (Some ''v'', None), s', g2)"
proof -
  obtain sc g where n: "NewScope None demo_scope_limits = Inr (sc, g)" and e: "sco_entries sc = []" "sco_bytes sc = 0"
      "sco_expired sc = None" "sco_limits sc = demo_scope_limits" "g_limits g = demo_limits" "g_calls g = []"
    by (rule NewScope_demo)
  obtain a g1 where b: "Begin ''k'' g = (Inr (True, a), g1)"
    using e by (simp add: Begin_def demo_limits_def Let_def)
  obtain s' where l: "scope_load ''k'' (Inr ''v'') sc = ((Some ''v'', None), s')"
    using e by (simp add: scope_load_def reserve_def commit_def put_def demo_scope_limits_def)
  obtain g' where r: "Resolve None ''k'' (Inr ''v'') (sc, g) = (Some (Some ''v'', None), s', g')"
    using Resolve_leader [OF e(3) b l] by auto
  have "map_of (g_calls g) ''k'' = None" using e by simp
  from Resolve_memoizes [OF this r, of "Inr ''w''"] n r show ?thesis by blast
qed

end
