(* ===== verification/GoFloat.thy ===== *)
theory GoFloat
  imports Complex_Main "HOL-Library.Log_Nat" Prelude
begin

text \<open>
  The parts of Go's \<open>float64\<close> the sources use. A finite value is a rational;
  \<open>fl64\<close> rounds a rational to the nearest value with a 53-bit significand, ties
  to even. The exponent range is not limited: the products rounded here lie well
  inside it, or are so small that they truncate to zero either way.
\<close>

datatype f64 = Fin rat | Infinite bool | NaN

text \<open>The binary exponent of a positive rational: \<open>2^e \<le> x < 2^(e+1)\<close>.\<close>

definition exponent2 :: "rat \<Rightarrow> int" where
  "exponent2 x =
     (let (p, q) = quotient_of x;
          e = int (floorlog 2 (nat p)) - int (floorlog 2 (nat q))
      in if x < 2 powi e then e - 1 else e)"

definition round_even :: "rat \<Rightarrow> int" where
  "round_even x =
     (let n = \<lfloor>x\<rfloor>; d = x - of_int n
      in if d < 1 / 2 \<or> (d = 1 / 2 \<and> even n) then n else n + 1)"

definition ulp :: "rat \<Rightarrow> rat" where
  "ulp x = 2 powi (exponent2 x - 52)"

definition fl64 :: "rat \<Rightarrow> rat" where
  "fl64 x =
     (if x = 0 then 0
      else if x < 0 then - (of_int (round_even (- x / ulp (- x))) * ulp (- x))
      else of_int (round_even (x / ulp x)) * ulp x)"

text \<open>
  Conversion to a signed 64-bit integer truncates toward zero; what an
  out-of-range value gives is left to the implementation, the argument \<open>oob\<close>.
\<close>

definition truncate_rat :: "rat \<Rightarrow> int" where
  "truncate_rat x = (if x < 0 then - \<lfloor>- x\<rfloor> else \<lfloor>x\<rfloor>)"

definition f64_to_int64 :: "(f64 \<Rightarrow> int) \<Rightarrow> f64 \<Rightarrow> int" where
  "f64_to_int64 oob x =
     (case x of
        Fin q \<Rightarrow> if in_int64 (truncate_rat q) then truncate_rat q else oob x
      | _ \<Rightarrow> oob x)"

lemma exponent2_bounds:
  assumes "0 < x"
  shows "2 powi exponent2 x \<le> x" "x < 2 powi (exponent2 x + 1)"
proof -
  obtain p q where pq: "quotient_of x = (p, q)" by fastforce
  have q: "0 < q" by (rule quotient_of_denom_pos [OF pq])
  have x: "x = of_int p / of_int q" by (rule quotient_of_div [OF pq])
  with assms q have p: "0 < p" by (simp add: zero_less_divide_iff)
  define a b where "a = floorlog 2 (nat p)" "b = floorlog 2 (nat q)"
  have ab: "0 < a" "0 < b" using p q by (simp_all add: a_b_def floorlog_def)
  have "2 ^ (a - 1) \<le> nat p \<and> nat p < 2 ^ a" "2 ^ (b - 1) \<le> nat q \<and> nat q < 2 ^ b"
    using floorlog_bounds [of "nat p" 2] floorlog_bounds [of "nat q" 2] p q by (simp_all add: a_b_def)
  then have "2 ^ (a - 1) \<le> p \<and> p < 2 ^ a" "2 ^ (b - 1) \<le> q \<and> q < 2 ^ b"
    using p q by (auto simp: le_nat_iff nat_less_iff)
  then have pr: "(2 :: rat) ^ (a - 1) \<le> of_int p" "of_int p < (2 :: rat) ^ a"
    and qr: "(2 :: rat) ^ (b - 1) \<le> of_int q" "of_int q < (2 :: rat) ^ b"
    by (metis of_int_le_iff of_int_less_iff of_int_numeral of_int_power)+
  have e1: "(2 :: rat) powi (int a - int b + 1) = 2 ^ a / 2 ^ (b - 1)"
    using ab by (simp add: power_int_diff power_int_add power_diff field_simps)
  have e2: "(2 :: rat) powi (int a - int b - 1) = 2 ^ (a - 1) / 2 ^ b"
    using ab by (simp add: power_int_diff power_int_add power_diff field_simps)
  have "x < 2 powi (int a - int b + 1)"
    unfolding e1 x using pr qr q p by (intro frac_less) auto
  moreover have "2 powi (int a - int b - 1) \<le> x"
    unfolding e2 x using pr qr q p by (intro frac_le) auto
  moreover have "exponent2 x = (if x < 2 powi (int a - int b) then int a - int b - 1 else int a - int b)"
    by (simp add: exponent2_def pq a_b_def Let_def)
  ultimately show "2 powi exponent2 x \<le> x" "x < 2 powi (exponent2 x + 1)"
    by (auto simp: add.commute)
qed

lemma ulp_pos [simp]: "0 < ulp x"
  by (simp add: ulp_def)

lemma exponent2_unique:
  assumes "2 powi e \<le> y" "y < 2 powi (e + 1)"
  shows "exponent2 y = e"
proof -
  have y: "0 < y" using assms(1) zero_less_power_int [of "2 :: rat" e] by linarith
  note b = exponent2_bounds [OF y]
  have "\<not> exponent2 y < e"
  proof
    assume "exponent2 y < e"
    then have "(2 :: rat) powi (exponent2 y + 1) \<le> 2 powi e" by (intro power_int_increasing) auto
    with b assms show False by linarith
  qed
  moreover have "\<not> e < exponent2 y"
  proof
    assume "e < exponent2 y"
    then have "(2 :: rat) powi (e + 1) \<le> 2 powi exponent2 y" by (intro power_int_increasing) auto
    with b assms show False by linarith
  qed
  ultimately show ?thesis by linarith
qed

lemma round_even_le: "x \<le> of_int n \<Longrightarrow> round_even x \<le> n"
proof -
  assume x: "x \<le> of_int n"
  then have f: "\<lfloor>x\<rfloor> \<le> n" by (simp add: floor_le_iff)
  show ?thesis
  proof (cases "\<lfloor>x\<rfloor> = n")
    case True
    then have "x = of_int n" using x of_int_floor_le [of x] by simp
    then show ?thesis by (simp add: round_even_def)
  next
    case False
    with f show ?thesis by (auto simp: round_even_def Let_def)
  qed
qed

lemma round_even_of_int [simp]: "round_even (of_int n) = n"
  by (simp add: round_even_def)

lemma round_even_nonneg: "0 \<le> x \<Longrightarrow> 0 \<le> round_even x"
  by (simp add: round_even_def Let_def)

lemma fl64_nonneg: "0 \<le> x \<Longrightarrow> 0 \<le> fl64 x"
  using round_even_nonneg [of "x / ulp x"] less_imp_le [OF ulp_pos [of x]] by (simp add: fl64_def)

text \<open>Rounding never passes a representable value.\<close>

lemma fl64_le:
  assumes "0 < x" "x \<le> y" "fl64 y = y"
  shows "fl64 x \<le> y"
proof (cases "y < 2 powi (exponent2 x + 1)")
  case True
  have "exponent2 y = exponent2 x"
    by (rule exponent2_unique) (use True exponent2_bounds(1) [OF assms(1)] assms(2) in linarith)+
  then have u: "ulp y = ulp x" by (simp add: ulp_def)
  have y: "y = of_int (round_even (y / ulp x)) * ulp x" using assms u by (simp add: fl64_def)
  then have "x / ulp x \<le> of_int (round_even (y / ulp x))"
    using assms(2) by (simp add: pos_divide_le_eq)
  then have "round_even (x / ulp x) \<le> round_even (y / ulp x)" by (rule round_even_le)
  then have "of_int (round_even (x / ulp x)) * ulp x \<le> of_int (round_even (y / ulp x)) * ulp x"
    by (intro mult_right_mono) (simp_all add: less_imp_le)
  with y assms(1) show ?thesis by (simp add: fl64_def)
next
  case False
  have p: "(2 :: rat) powi (exponent2 x + 1) = of_int (2 ^ 53) * ulp x"
    by (simp add: ulp_def power_int_diff power_int_add)
  have "x / ulp x \<le> of_int (2 ^ 53)"
    using exponent2_bounds(2) [OF assms(1)] unfolding p by (simp add: pos_divide_le_eq)
  then have "round_even (x / ulp x) \<le> 2 ^ 53" by (rule round_even_le)
  then have "(of_int (round_even (x / ulp x)) :: rat) \<le> of_int (2 ^ 53)" by (simp only: of_int_le_iff)
  then have "of_int (round_even (x / ulp x)) * ulp x \<le> of_int (2 ^ 53) * ulp x"
    by (intro mult_right_mono) (simp_all add: less_imp_le)
  also have "\<dots> \<le> y" using False unfolding p by simp
  finally show ?thesis using assms(1) by (simp add: fl64_def)
qed

text \<open>Integers below \<open>2^53\<close> are representable.\<close>

lemma fl64_of_int:
  assumes "0 < n" "n < 2 ^ 53"
  shows "fl64 (of_int n) = of_int n"
proof -
  let ?x = "of_int n :: rat"
  have x: "0 < ?x" using assms by simp
  have "\<not> 53 \<le> exponent2 ?x"
  proof
    assume "53 \<le> exponent2 ?x"
    then have "(2 :: rat) powi 53 \<le> 2 powi exponent2 ?x" by (intro power_int_increasing) auto
    also have "\<dots> \<le> ?x" by (rule exponent2_bounds(1) [OF x])
    finally have "(of_int (2 ^ 53) :: rat) \<le> of_int n" by simp
    with assms(2) show False by (simp only: of_int_le_iff)
  qed
  then obtain k :: nat where k: "52 - exponent2 ?x = int k" using zero_le_imp_eq_int [of "52 - exponent2 ?x"] by auto
  then have "exponent2 ?x - 52 = - int k" by simp
  then have u: "ulp ?x = 1 / 2 ^ k" by (simp add: ulp_def power_int_minus divide_inverse)
  then have "?x / ulp ?x = of_int (n * 2 ^ k)" by simp
  then have "round_even (?x / ulp ?x) = n * 2 ^ k" by (simp only: round_even_of_int)
  then show ?thesis using x u by (simp add: fl64_def)
qed

end
