(* ===== verification/MintConfig.thy ===== *)
theory MintConfig
  imports GoFloat EnvExpand GoNet
begin

text \<open>
  Package \<open>tokenmint\<close>, what it is told: the stored descriptor (\<open>descriptor.go\<close>)
  and the operator's configuration of grant profiles (\<open>profile.go\<close>). A Go map is
  an association list; durations are nanoseconds.
\<close>

section \<open>Descriptors (\<open>descriptor.go\<close>)\<close>

definition KindOAuth2ClientCredentials :: string where
  "KindOAuth2ClientCredentials = ''oauth2_client_credentials''"

definition ErrUnknownKind :: go_error where
  "ErrUnknownKind = New ''tokenmint: unknown descriptor kind''"

record Descriptor =
  de_Kind :: string
  de_GrantProfile :: string
  de_ClientIDRef :: string
  de_ClientSecretRef :: string

definition Descriptor_Validate :: "Descriptor option \<Rightarrow> err" where
  "Descriptor_Validate od =
     (case od of
        None \<Rightarrow> Some (New ''tokenmint: descriptor is nil'')
      | Some d \<Rightarrow>
          first_error
            [fail_if (de_Kind d \<noteq> KindOAuth2ClientCredentials)
               (Wrapf ''%w: %q (supported: %q)'' [ArgS (de_Kind d), ArgS KindOAuth2ClientCredentials] ErrUnknownKind),
             fail_if (trim_space (de_GrantProfile d) = []) (New ''tokenmint: descriptor requires a non-empty grant_profile''),
             fail_if (trim_space (de_ClientIDRef d) = []) (New ''tokenmint: descriptor requires a non-empty client_id_ref''),
             fail_if (trim_space (de_ClientSecretRef d) = []) (New ''tokenmint: descriptor requires a non-empty client_secret_ref''),
             fail_if (de_ClientIDRef d = de_ClientSecretRef d) (New ''tokenmint: client_id_ref and client_secret_ref must differ'')])"

section \<open>Profiles (\<open>profile.go\<close>)\<close>

definition BodyStyleJSON :: string where "BodyStyleJSON = ''json''"
definition BodyStyleForm :: string where "BodyStyleForm = ''form''"

record Profile =
  pf_TokenURL :: string
  pf_BodyStyle :: string
  pf_StaticParams :: "(string \<times> string) list"
  pf_ClientIDParam :: string
  pf_ClientSecretParam :: string
  pf_AccessTokenPath :: string
  pf_ExpiresInPath :: string
  pf_TokenTypePath :: string
  pf_ExpectedTokenType :: string
  pf_DefaultExpiresIn :: int
  pf_ExpiresInHaircut :: rat
  pf_RefreshMargin :: int
  pf_MinRefreshInterval :: int
  pf_ErrorBackoffBase :: int
  pf_ErrorBackoffMax :: int
  pf_AuthErrorBackoff :: int
  pf_IdleTTL :: int
  pf_Timeout :: int
  pf_MaxResponseBytes :: int
  pf_MaxMintsPerMinute :: rat
  pf_SecretRefScopeSegments :: int

text \<open>\<open>mc_allowed\<close> is the unexported set \<open>allowedHosts\<close> that \<open>Validate\<close> builds.\<close>

record MintConfig =
  mc_AllowedHosts :: "string list"
  mc_AllowPrivate :: bool
  mc_Profiles :: "(string \<times> Profile) list"
  mc_allowed :: "string list"

text \<open>\<open>if x <= 0 { x = d }\<close>.\<close>

definition default_pos :: "'a :: {zero, linorder} \<Rightarrow> 'a \<Rightarrow> 'a" where
  "default_pos d x = (if x \<le> 0 then d else x)"

text \<open>The body of the loop of \<open>applyDefaults\<close>.\<close>

definition mint_profile_defaults :: "Profile \<Rightarrow> Profile" where
  "mint_profile_defaults p = p\<lparr>
     pf_BodyStyle := default_str BodyStyleJSON (pf_BodyStyle p),
     pf_ClientIDParam := default_str ''client_id'' (pf_ClientIDParam p),
     pf_ClientSecretParam := default_str ''client_secret'' (pf_ClientSecretParam p),
     pf_AccessTokenPath := default_str ''access_token'' (pf_AccessTokenPath p),
     pf_ExpiresInPath := default_str ''expires_in'' (pf_ExpiresInPath p),
     pf_TokenTypePath := default_str ''token_type'' (pf_TokenTypePath p),
     pf_DefaultExpiresIn := default_pos (15 * go_minute) (pf_DefaultExpiresIn p),
     pf_ExpiresInHaircut := default_pos (fl64 (9 / 10)) (pf_ExpiresInHaircut p),
     pf_RefreshMargin := default_pos (5 * go_minute) (pf_RefreshMargin p),
     pf_MinRefreshInterval := default_pos go_minute (pf_MinRefreshInterval p),
     pf_ErrorBackoffBase := default_pos (30 * go_second) (pf_ErrorBackoffBase p),
     pf_ErrorBackoffMax := default_pos (5 * go_minute) (pf_ErrorBackoffMax p),
     pf_AuthErrorBackoff := default_pos (15 * go_minute) (pf_AuthErrorBackoff p),
     pf_IdleTTL := default_pos (90 * go_minute) (pf_IdleTTL p),
     pf_Timeout := default_pos (8 * go_second) (pf_Timeout p),
     pf_MaxResponseBytes := default_pos 65536 (pf_MaxResponseBytes p),
     pf_MaxMintsPerMinute := default_pos 30 (pf_MaxMintsPerMinute p),
     pf_SecretRefScopeSegments := default_pos 3 (pf_SecretRefScopeSegments p)\<rparr>"

definition mint_applyDefaults :: "MintConfig \<Rightarrow> MintConfig" where
  "mint_applyDefaults c = c\<lparr>mc_Profiles := map (\<lambda>(n, p). (n, mint_profile_defaults p)) (mc_Profiles c)\<rparr>"

definition HostAllowed :: "MintConfig \<Rightarrow> string \<Rightarrow> bool" where
  "HostAllowed c host \<longleftrightarrow> to_lower (trim_space host) \<in> set (mc_allowed c)"

definition validateProfile :: "MintConfig \<Rightarrow> string \<Rightarrow> Profile \<Rightarrow> err" where
  "validateProfile c name p =
     (if trim_space name = [] then Some (New ''profile name must not be empty'')
      else case url_Parse (pf_TokenURL p) of
        None \<Rightarrow> Some (Errorf ''token_url %q is not a valid URL'' [ArgS (pf_TokenURL p)])
      | Some u \<Rightarrow>
          first_error
            [fail_if (Host u = []) (Errorf ''token_url %q has no host'' [ArgS (pf_TokenURL p)]),
             fail_if (Scheme u \<noteq> ''https'' \<and> \<not> mc_AllowPrivate c)
               (Errorf ''token_url %q must use https (allow_private is off)'' [ArgS (pf_TokenURL p)]),
             fail_if (\<not> HostAllowed c (Hostname u)) (Errorf ''token_url host %q is not in allowed_hosts'' [ArgS (Hostname u)]),
             fail_if (pf_BodyStyle p \<noteq> BodyStyleJSON \<and> pf_BodyStyle p \<noteq> BodyStyleForm)
               (Errorf ''body_style %q must be %q or %q'' [ArgS (pf_BodyStyle p), ArgS BodyStyleJSON, ArgS BodyStyleForm]),
             fail_if (pf_ExpiresInHaircut p \<le> 0 \<or> pf_ExpiresInHaircut p > 1) (Errorf ''expires_in_haircut %v must be in (0, 1]'' []),
             fail_if (pf_Timeout p \<le> 0) (New ''timeout must be positive''),
             fail_if (pf_MaxResponseBytes p \<le> 0) (New ''max_response_bytes must be positive''),
             fail_if (pf_SecretRefScopeSegments p < 1) (New ''secret_ref_scope_segments must be at least 1''),
             fail_if (pf_RefreshMargin p \<ge> pf_DefaultExpiresIn p)
               (Errorf ''refresh_margin %v must be shorter than default_expires_in %v''
                  [ArgD (pf_RefreshMargin p), ArgD (pf_DefaultExpiresIn p)])])"

text \<open>
  \<open>Validate\<close>: the verdict and the configuration as it is left behind. Defaults
  and the allowlist are in place even where a profile is then refused.
\<close>

definition allowed_set :: "string list \<Rightarrow> string list" where
  "allowed_set hs = filter (\<lambda>h. h \<noteq> []) (map (\<lambda>h. to_lower (trim_space h)) hs)"

definition Mint_Validate :: "MintConfig \<Rightarrow> err \<times> MintConfig" where
  "Mint_Validate c =
     (if mc_Profiles c = [] then (Some (New ''at least one profile is required''), c)
      else let c1 = (mint_applyDefaults c)\<lparr>mc_allowed := allowed_set (mc_AllowedHosts c)\<rparr>
           in (each_check (\<lambda>(n, p). wrap_err ''profile %q: %w'' [ArgS n] (validateProfile c1 n p)) (mc_Profiles c1), c1))"

definition Config_Profile :: "MintConfig \<Rightarrow> string \<Rightarrow> Profile option" where
  "Config_Profile c name = map_of (mc_Profiles c) name"

definition ProfileRef :: "MintConfig \<Rightarrow> string \<Rightarrow> Profile option" where
  "ProfileRef c name = (case map_of (mc_Profiles c) name of None \<Rightarrow> None | Some p \<Rightarrow> Some p)"

definition MaxTimeout :: "MintConfig \<Rightarrow> int" where
  "MaxTimeout c = fold (\<lambda>(n, p) m. if pf_Timeout p > m then pf_Timeout p else m) (mc_Profiles c) 0"

text \<open>The walk of \<open>ExpandEnvInStruct\<close> over this type: every string field, element and map value.\<close>

definition profile_expand :: "envmap \<Rightarrow> Profile \<Rightarrow> Profile" where
  "profile_expand env p = p\<lparr>
     pf_TokenURL := SafeExpandEnv env (pf_TokenURL p),
     pf_BodyStyle := SafeExpandEnv env (pf_BodyStyle p),
     pf_StaticParams := map (\<lambda>(k, v). (k, SafeExpandEnv env v)) (pf_StaticParams p),
     pf_ClientIDParam := SafeExpandEnv env (pf_ClientIDParam p),
     pf_ClientSecretParam := SafeExpandEnv env (pf_ClientSecretParam p),
     pf_AccessTokenPath := SafeExpandEnv env (pf_AccessTokenPath p),
     pf_ExpiresInPath := SafeExpandEnv env (pf_ExpiresInPath p),
     pf_TokenTypePath := SafeExpandEnv env (pf_TokenTypePath p),
     pf_ExpectedTokenType := SafeExpandEnv env (pf_ExpectedTokenType p)\<rparr>"

definition mint_expand :: "envmap \<Rightarrow> MintConfig \<Rightarrow> MintConfig" where
  "mint_expand env c = c\<lparr>
     mc_AllowedHosts := map (SafeExpandEnv env) (mc_AllowedHosts c),
     mc_Profiles := map (\<lambda>(n, p). (n, profile_expand env p)) (mc_Profiles c)\<rparr>"

text \<open>\<open>LoadConfigFile\<close>; reading the file and decoding YAML are parameters.\<close>

definition LoadConfigFile ::
  "(string \<Rightarrow> string res) \<Rightarrow> (string \<Rightarrow> MintConfig res) \<Rightarrow> envmap \<Rightarrow> string \<Rightarrow> MintConfig res" where
  "LoadConfigFile read unmarshal env path =
     (case read path of
        Inl e \<Rightarrow> Inl (Wrapf ''tokenmint: read config %q: %w'' [ArgS path] e)
      | Inr data \<Rightarrow>
          (case unmarshal data of
             Inl e \<Rightarrow> Inl (Wrapf ''tokenmint: parse config %q: %w'' [ArgS path] e)
           | Inr c \<Rightarrow>
               (case Mint_Validate (mint_expand env c) of
                  (Some e, _) \<Rightarrow> Inl (Wrapf ''tokenmint: config %q: %w'' [ArgS path] e)
                | (None, c1) \<Rightarrow> Inr c1)))"

section \<open>What validation guarantees\<close>

definition endpoint_ok :: "MintConfig \<Rightarrow> Profile \<Rightarrow> bool" where
  "endpoint_ok c p \<longleftrightarrow>
     (case url_Parse (pf_TokenURL p) of
        None \<Rightarrow> False
      | Some u \<Rightarrow> Host u \<noteq> [] \<and> (Scheme u = ''https'' \<or> mc_AllowPrivate c) \<and> HostAllowed c (Hostname u))"

definition profile_ok :: "Profile \<Rightarrow> bool" where
  "profile_ok p \<longleftrightarrow>
     (pf_BodyStyle p = BodyStyleJSON \<or> pf_BodyStyle p = BodyStyleForm) \<and>
     0 < pf_ExpiresInHaircut p \<and> pf_ExpiresInHaircut p \<le> 1 \<and>
     0 < pf_RefreshMargin p \<and> pf_RefreshMargin p < pf_DefaultExpiresIn p \<and>
     0 < pf_MinRefreshInterval p \<and> 0 < pf_ErrorBackoffBase p \<and> 0 < pf_ErrorBackoffMax p \<and> 0 < pf_AuthErrorBackoff p \<and>
     0 < pf_IdleTTL p \<and> 0 < pf_Timeout p \<and> 0 < pf_MaxResponseBytes p \<and> 0 < pf_MaxMintsPerMinute p \<and>
     1 \<le> pf_SecretRefScopeSegments p"

definition config_ok :: "MintConfig \<Rightarrow> bool" where
  "config_ok c \<longleftrightarrow> mc_Profiles c \<noteq> [] \<and> (\<forall>(n, p) \<in> set (mc_Profiles c). endpoint_ok c p \<and> profile_ok p)"

lemma default_pos_pos [simp]: "0 < d \<Longrightarrow> 0 < default_pos d x"
  by (auto simp: default_pos_def)

lemma validateProfile_ok:
  assumes "validateProfile c n (mint_profile_defaults p) = None"
  shows "endpoint_ok c (mint_profile_defaults p)" "profile_ok (mint_profile_defaults p)"
proof -
  have u: "\<exists>u. url_Parse (pf_TokenURL (mint_profile_defaults p)) = Some u"
    using assms by (auto simp: validateProfile_def split: if_splits option.splits)
  then obtain u where u: "url_Parse (pf_TokenURL (mint_profile_defaults p)) = Some u" by blast
  show "endpoint_ok c (mint_profile_defaults p)"
    using assms u by (auto simp: validateProfile_def endpoint_ok_def check_simps split: if_splits)
  show "profile_ok (mint_profile_defaults p)"
    using assms u by (auto simp: validateProfile_def profile_ok_def check_simps mint_profile_defaults_def split: if_splits)
qed

lemma Mint_Validate_ok:
  assumes "Mint_Validate c = (None, c1)"
  shows "config_ok c1"
proof -
  have ne: "mc_Profiles c \<noteq> []" and c1: "c1 = (mint_applyDefaults c)\<lparr>mc_allowed := allowed_set (mc_AllowedHosts c)\<rparr>"
    and v: "each_check (\<lambda>(n, p). wrap_err ''profile %q: %w'' [ArgS n] (validateProfile c1 n p)) (mc_Profiles c1) = None"
    using assms by (auto simp: Mint_Validate_def Let_def split: if_splits)
  have "endpoint_ok c1 p \<and> profile_ok p" if mem: "(n, p) \<in> set (mc_Profiles c1)" for n p
  proof -
    have "validateProfile c1 n p = None" using v mem by (auto simp: check_simps)
    moreover obtain q where "p = mint_profile_defaults q" using mem by (auto simp: c1 mint_applyDefaults_def)
    ultimately show ?thesis using validateProfile_ok by blast
  qed
  moreover have "mc_Profiles c1 \<noteq> []" using ne c1 by (simp add: mint_applyDefaults_def)
  ultimately show ?thesis by (auto simp: config_ok_def)
qed

end
