(* ===== verification/ClientX.thy ===== *)
theory ClientX
  imports GoHTTP
begin

text \<open>
  Package \<open>httpx/clientx\<close>: the classification of internal addresses
  (\<open>ssrf.go\<close>) and the execution of outbound JSON requests (\<open>clientx.go\<close>). The
  network is a function of the request and of the timeout put on it; decoding
  JSON is a parameter. Every log record a request causes is part of the result.
\<close>

section \<open>Networks\<close>

text \<open>\<open>net.CIDRMask\<close> and \<open>net.ParseCIDR\<close> (the network; its base address is masked).\<close>

definition CIDRMask :: "nat \<Rightarrow> nat \<Rightarrow> ip" where
  "CIDRMask ones n = map (\<lambda>i. word_of_nat (256 - 2 ^ (8 - min 8 (ones - 8 * i)))) [0..<n]"

definition ParseCIDR :: "string \<Rightarrow> (ip \<times> ip) option" where
  "ParseCIDR s =
     (case cut (CHR ''/'') s of
        None \<Rightarrow> None
      | Some (addr, bits) \<Rightarrow>
          (case ParseIP addr of
             None \<Rightarrow> None
           | Some a \<Rightarrow>
               (let x = (case To4 a of Some y \<Rightarrow> if CHR '':'' \<in> set addr then a else y | None \<Rightarrow> a);
                    n = length x
                in if bits = [] \<or> \<not> list_all is_digit bits \<or> digits_val bits > 8 * n then None
                   else let m = CIDRMask (digits_val bits) n
                        in Some (map (\<lambda>(b, k). b AND k) (zip x m), m))))"

text \<open>\<open>mustParseCIDR\<close>: the program panics at start-up where this is empty.\<close>

definition mustParseCIDR :: "string \<Rightarrow> ip \<times> ip" where
  "mustParseCIDR s = (case ParseCIDR s of Some n \<Rightarrow> n | None \<Rightarrow> ([], []))"

definition private10 :: "ip \<times> ip" where "private10 = mustParseCIDR ''10.0.0.0/8''"
definition private172 :: "ip \<times> ip" where "private172 = mustParseCIDR ''172.16.0.0/12''"
definition private192 :: "ip \<times> ip" where "private192 = mustParseCIDR ''192.168.0.0/16''"
definition linkLocal4 :: "ip \<times> ip" where "linkLocal4 = mustParseCIDR ''169.254.0.0/16''"
definition linkLocal6 :: "ip \<times> ip" where "linkLocal6 = mustParseCIDR ''fe80::/10''"
definition metadataAddr :: ip where
  "metadataAddr = (case ParseIP ''169.254.169.254'' of Some a \<Rightarrow> a | None \<Rightarrow> [])"

section \<open>Internal addresses (\<open>ssrf.go\<close>)\<close>

datatype InternalIPClass = ClassMetadata | ClassLoopback | ClassLinkLocal | ClassPrivate

fun class_name :: "InternalIPClass \<Rightarrow> string" where
  "class_name ClassMetadata = ''cloud_metadata''"
| "class_name ClassLoopback = ''loopback''"
| "class_name ClassLinkLocal = ''link_local''"
| "class_name ClassPrivate = ''private''"

definition ErrInternalIP :: go_error where "ErrInternalIP = New ''clientx: address is internal''"

record InternalIPError =
  ie_IP :: ip
  ie_Class :: InternalIPClass

text \<open>The error value, which unwraps to \<open>ErrInternalIP\<close>; the address is kept as its bytes.\<close>

definition InternalIPError_error :: "InternalIPError \<Rightarrow> go_error" where
  "InternalIPError_error e =
     Wrapf ''clientx: %s is a %s address'' (map (\<lambda>b. ArgD (uint b)) (ie_IP e) @ [ArgS (class_name (ie_Class e))]) ErrInternalIP"

record InternalIPClasses =
  ic_Private :: bool
  ic_Loopback :: bool
  ic_LinkLocal :: bool
  ic_Metadata :: bool

definition AllInternalIPClasses :: InternalIPClasses where
  "AllInternalIPClasses = \<lparr>ic_Private = True, ic_Loopback = True, ic_LinkLocal = True, ic_Metadata = True\<rparr>"

definition CheckInternalIP :: "ip \<Rightarrow> InternalIPClasses \<Rightarrow> InternalIPError option" where
  "CheckInternalIP a c =
     (if ic_Metadata c \<and> IP_Equal a metadataAddr then Some \<lparr>ie_IP = a, ie_Class = ClassMetadata\<rparr>
      else if ic_Loopback c \<and> IsLoopback a then Some \<lparr>ie_IP = a, ie_Class = ClassLoopback\<rparr>
      else if ic_LinkLocal c \<and> (Net_Contains linkLocal4 a \<or> Net_Contains linkLocal6 a)
        then Some \<lparr>ie_IP = a, ie_Class = ClassLinkLocal\<rparr>
      else if ic_Private c \<and> (Net_Contains private10 a \<or> Net_Contains private172 a \<or> Net_Contains private192 a)
        then Some \<lparr>ie_IP = a, ie_Class = ClassPrivate\<rparr>
      else if ic_Private c \<and> length a = 16 \<and> (a ! 0) AND 0xfe = 0xfc
        then Some \<lparr>ie_IP = a, ie_Class = ClassPrivate\<rparr>
      else None)"


text \<open>The networks the program starts with.\<close>

lemmas ip_eval = ParseIP_def parseIPv4_def ipv4_field_def is_digit_def byte_def digits_val_def digit_val_def

lemma literal_addresses:
  "ParseIP ''10.0.0.0'' = Some (v4_prefix @ [10, 0, 0, 0])"
  "ParseIP ''172.16.0.0'' = Some (v4_prefix @ [172, 16, 0, 0])"
  "ParseIP ''192.168.0.0'' = Some (v4_prefix @ [192, 168, 0, 0])"
  "ParseIP ''169.254.0.0'' = Some (v4_prefix @ [169, 254, 0, 0])"
  "ParseIP ''169.254.169.254'' = Some (v4_prefix @ [169, 254, 169, 254])"
  by (simp_all add: ip_eval)

lemma replicate_14: "replicate 14 (0 :: 8 word) = [0, 0, 0, 0, 0, 0, 0, 0, 0, 0, 0, 0, 0, 0]"
  by (simp add: eval_nat_numeral)

lemma literal_fe80: "ParseIP ''fe80::'' = Some (254 # 128 # [0, 0, 0, 0, 0, 0, 0, 0, 0, 0, 0, 0, 0, 0])"
proof -
  have "ipv6_loop [] None ''fe80::'' = Some ([254, 128], Some 2)"
    by (subst ipv6_loop.simps) (simp add: is_hex_def is_digit_def byte_def hex_val_def unhex_def Let_def)
  then have "parseIPv6 ''fe80::'' = Some (254 # 128 # [0, 0, 0, 0, 0, 0, 0, 0, 0, 0, 0, 0, 0, 0])"
    by (simp add: parseIPv6_def has_prefix_def replicate_14)
  then show ?thesis by (simp add: ParseIP_def)
qed

lemmas cidr_eval = ParseCIDR_def cut_def literal_addresses literal_fe80 To4_def v4_prefix_def CIDRMask_def
  is_digit_def byte_def digits_val_def digit_val_def Let_def upt_rec

lemma networks:
  "private10 = ([10, 0, 0, 0], [255, 0, 0, 0])"
  "private172 = ([172, 16, 0, 0], [255, 240, 0, 0])"
  "private192 = ([192, 168, 0, 0], [255, 255, 0, 0])"
  "linkLocal4 = ([169, 254, 0, 0], [255, 255, 0, 0])"
  "linkLocal6 = (254 # 128 # [0, 0, 0, 0, 0, 0, 0, 0, 0, 0, 0, 0, 0, 0], 255 # 192 # [0, 0, 0, 0, 0, 0, 0, 0, 0, 0, 0, 0, 0, 0])"
  "metadataAddr = v4_prefix @ [169, 254, 169, 254]"
  by (simp_all add: private10_def private172_def private192_def linkLocal4_def linkLocal6_def metadataAddr_def
      mustParseCIDR_def cidr_eval)

lemma unat_and_high: "unat ((x :: 8 word) AND NOT (mask k)) = unat x div 2 ^ k * 2 ^ k"
proof -
  have "x AND NOT (mask k) = push_bit k (drop_bit k x)"
    by (rule bit_word_eqI) (auto simp: bit_simps)
  then have "unat (x AND NOT (mask k)) = take_bit 8 (push_bit k (drop_bit k (unat x)))"
    by (simp only: unsigned_push_bit_eq unat_drop_bit_eq) simp
  then have "unat (x AND NOT (mask k)) = (unat x div 2 ^ k * 2 ^ k) mod 256"
    by (simp only: push_bit_eq_mult drop_bit_eq_div take_bit_eq_mod) simp
  moreover have "unat x div 2 ^ k * 2 ^ k \<le> unat x" by simp
  moreover have "unat x < 256" using unsigned_less [of x, where 'a = nat] by simp
  ultimately show ?thesis by simp
qed

lemma div_block: "n div d * d = q * d \<longleftrightarrow> q * d \<le> n \<and> n < q * d + d" if "0 < d" for n d q :: nat
proof -
  have "n div d * d = q * d \<longleftrightarrow> n div d = q" using that by simp
  also have "\<dots> \<longleftrightarrow> q * d \<le> n \<and> n < q * d + d"
    using that div_nat_eqI [of d q n] dividend_less_div_times [OF that, of n] div_times_less_eq_dividend [of n d]
    by (auto simp: mult.commute)
  finally show ?thesis .
qed

lemma high_bits:
  fixes x :: "8 word"
  shows "x AND 255 = x" 
    "x AND 240 = 16 \<longleftrightarrow> 16 \<le> unat x \<and> unat x \<le> 31"
    "x AND 192 = 128 \<longleftrightarrow> 128 \<le> unat x \<and> unat x \<le> 191"
    "x AND 254 = 252 \<longleftrightarrow> unat x = 252 \<or> unat x = 253"
proof -
  have m: "(255 :: 8 word) = - 1" "(240 :: 8 word) = NOT (mask 4)" "(192 :: 8 word) = NOT (mask 6)" "(254 :: 8 word) = NOT (mask 1)"
    by (simp_all add: mask_eq_exp_minus_1)
  have e: "a = b \<longleftrightarrow> unat a = unat b" for a b :: "8 word" by (rule word_unat_eq_iff)
  show "x AND 255 = x" by (simp add: m(1))
  show "x AND 240 = 16 \<longleftrightarrow> 16 \<le> unat x \<and> unat x \<le> 31"
    unfolding m(2) e unat_and_high using div_block [of "2 ^ 4" "unat x" 1] by auto
  show "x AND 192 = 128 \<longleftrightarrow> 128 \<le> unat x \<and> unat x \<le> 191"
    unfolding m(3) e unat_and_high using div_block [of "2 ^ 6" "unat x" 2] by auto
  show "x AND 254 = 252 \<longleftrightarrow> unat x = 252 \<or> unat x = 253"
    unfolding m(4) e unat_and_high using div_block [of "2 ^ 1" "unat x" 126] by auto
qed

text \<open>
  What the classification means, on the octets of an address: an IPv4 address
  (also one in IPv6 form) by its leading octets, any other by its IPv6 prefix.
\<close>

definition v4_class :: "nat list \<Rightarrow> InternalIPClass option" where
  "v4_class x =
     (let a = x ! 0; b = x ! 1
      in if x = [169, 254, 169, 254] then Some ClassMetadata
         else if a = 127 then Some ClassLoopback
         else if a = 169 \<and> b = 254 then Some ClassLinkLocal
         else if a = 10 \<or> (a = 172 \<and> 16 \<le> b \<and> b \<le> 31) \<or> (a = 192 \<and> b = 168) then Some ClassPrivate
         else None)"

definition v6_class :: "nat list \<Rightarrow> InternalIPClass option" where
  "v6_class x =
     (if x = replicate 15 0 @ [1] then Some ClassLoopback
      else if x ! 0 = 0xfe \<and> 0x80 \<le> x ! 1 \<and> x ! 1 \<le> 0xbf then Some ClassLinkLocal
      else if x ! 0 = 0xfc \<or> x ! 0 = 0xfd then Some ClassPrivate
      else None)"

definition ip_class :: "ip \<Rightarrow> InternalIPClass option" where
  "ip_class a =
     (case To4 a of
        Some x \<Rightarrow> v4_class (map unat x)
      | None \<Rightarrow> if length a = 16 then v6_class (map unat a) else None)"

lemma length_To4: "To4 a = Some x \<Longrightarrow> length x = 4"
  by (auto simp: To4_def v4_prefix_def split: if_splits)

lemma length_4_cases: "length x = 4 \<Longrightarrow> \<exists>a b c d. x = [a, b, c, d]"
  by (auto simp: numeral_eq_Suc length_Suc_conv)

lemma length_v4_prefix [simp]: "length v4_prefix = 12"
  by (simp add: v4_prefix_def)

lemma v4_prefix_append: "a = v4_prefix @ x \<longleftrightarrow> take 12 a = v4_prefix \<and> drop 12 a = x"
  using append_eq_conv_conj [of v4_prefix x a] by auto

lemma IP_Equal_metadata: "IP_Equal a metadataAddr \<longleftrightarrow> To4 a = Some [169, 254, 169, 254]"
  by (cases "length a = 16"; cases "length a = 4") (auto simp: IP_Equal_def To4_def networks(6) v4_prefix_append)

lemma byte_numeral: "(x :: 8 word) = y \<longleftrightarrow> unat x = unat y"
  by (rule word_unat_eq_iff)

lemma Contains_v4:
  assumes "To4 a = Some [p, q, r, s]"
  shows "Net_Contains private10 a \<longleftrightarrow> p = 10"
    "Net_Contains private172 a \<longleftrightarrow> p = 172 \<and> q AND 240 = 16"
    "Net_Contains private192 a \<longleftrightarrow> p = 192 \<and> q = 168"
    "Net_Contains linkLocal4 a \<longleftrightarrow> p = 169 \<and> q = 254"
    "\<not> Net_Contains linkLocal6 a"
  using assms by (auto simp: Net_Contains_def networks high_bits(1))

lemma To4_None_net:
  assumes "To4 a = None"
  shows "\<not> Net_Contains private10 a" "\<not> Net_Contains private172 a" "\<not> Net_Contains private192 a" "\<not> Net_Contains linkLocal4 a"
  using assms by (auto simp: Net_Contains_def networks(1-4) To4_def split: if_splits)

lemma class_v4:
  assumes "To4 a = Some x"
  shows "map_option ie_Class (CheckInternalIP a AllInternalIPClasses) = v4_class (map unat x)"
proof -
  obtain p q r t where x: "x = [p, q, r, t]" using length_4_cases [OF length_To4 [OF assms]] by blast
  note c = Contains_v4 [OF assms [unfolded x], unfolded high_bits(2) byte_numeral [of p] byte_numeral [of q]]
  have ula: "\<not> (length a = 16 \<and> (a ! 0) AND 0xfe = 0xfc)"
  proof
    assume l: "length a = 16 \<and> (a ! 0) AND 0xfe = 0xfc"
    with assms have "take 12 a = v4_prefix" by (simp add: To4_def split: if_splits)
    then have "take 12 a ! 0 = v4_prefix ! 0" by (simp only:)
    then have "a ! 0 = 0" by (simp add: v4_prefix_def nth_append)
    with l show False by simp
  qed
  have m: "IP_Equal a metadataAddr \<longleftrightarrow> map unat x = [169, 254, 169, 254]"
    using assms by (simp add: IP_Equal_metadata x byte_numeral)
  have l: "IsLoopback a \<longleftrightarrow> unat p = 127" using assms by (simp add: IsLoopback_def x byte_numeral)
  show ?thesis
    unfolding CheckInternalIP_def v4_class_def AllInternalIPClasses_def
    using c l m ula by (auto simp: x Let_def)
qed

lemma class_v6:
  assumes "To4 a = None"
  shows "map_option ie_Class (CheckInternalIP a AllInternalIPClasses) = (if length a = 16 then v6_class (map unat a) else None)"
proof (cases "length a = 16")
  case True
  then obtain p q r where a: "a = p # q # r" by (cases a; cases "tl a") auto
  have len: "length r = 14" using True a by simp
  have tail: "list_all (\<lambda>(b, m, y). b AND m = y AND m) (zip (replicate 14 0) (zip (replicate 14 0) r))"
    by (auto simp: list_all_iff set_zip)
  have "Net_Contains linkLocal6 a \<longleftrightarrow> p = 254 \<and> q AND 192 = 128"
    using assms tail len unfolding Net_Contains_def networks(5) a replicate_14 by (auto simp: high_bits(1))
  then have l6: "Net_Contains linkLocal6 a \<longleftrightarrow> unat p = 254 \<and> 128 \<le> unat q \<and> unat q \<le> 191"
    unfolding high_bits(3) by (simp add: byte_numeral [of p])
  have m: "\<not> IP_Equal a metadataAddr" using assms by (simp add: IP_Equal_metadata)
  have "IsLoopback a \<longleftrightarrow> a = replicate 15 0 @ [1]" using assms True by (simp add: IsLoopback_def IP_Equal_def IPv6loopback_def)
  also have "\<dots> \<longleftrightarrow> map unat a = map unat (replicate 15 0 @ [1 :: 8 word])"
    by (rule inj_map_eq_map [symmetric]) (simp add: inj_def byte_numeral)
  finally have l: "IsLoopback a \<longleftrightarrow> map unat a = replicate 15 0 @ [1]" by simp
  show ?thesis
    unfolding CheckInternalIP_def v6_class_def AllInternalIPClasses_def
    using To4_None_net [OF assms] l6 l m True high_bits(4) [of p] by (simp add: a)
next
  case False
  then have "length a \<noteq> 4" using assms by (auto simp: To4_def)
  then have "\<not> IsLoopback a" "\<not> Net_Contains linkLocal6 a"
    using False assms by (simp_all add: IsLoopback_def IP_Equal_def IPv6loopback_def Net_Contains_def networks(5))
  with False assms To4_None_net [OF assms] show ?thesis
    by (simp add: CheckInternalIP_def AllInternalIPClasses_def IP_Equal_metadata)
qed

lemma internal_class: "map_option ie_Class (CheckInternalIP a AllInternalIPClasses) = ip_class a"
  by (cases "To4 a") (simp_all add: class_v4 class_v6 ip_class_def)

text \<open>
  C17: With every class enabled, \<open>CheckInternalIP\<close> is exactly the classification by
  octets: an IPv4 address, also in its IPv6 form, is metadata, loopback,
  link-local or private by its leading octets, any other address by its IPv6
  prefix. The unspecified addresses \<open>0.0.0.0\<close> and \<open>::\<close>, which reach the local
  host on common systems, are in none of the classes and are accepted.
\<close>

theorem CheckInternalIP_reference:
  "map_option ie_Class (CheckInternalIP a AllInternalIPClasses) = ip_class a \<and>
   CheckInternalIP [0, 0, 0, 0] AllInternalIPClasses = None \<and>
   CheckInternalIP (replicate 16 0) AllInternalIPClasses = None"
proof (intro conjI)
  note c = internal_class
  show "map_option ie_Class (CheckInternalIP a AllInternalIPClasses) = ip_class a" by (rule c)
  have "ip_class [0, 0, 0, 0] = None" by (simp add: ip_class_def To4_def v4_class_def)
  with c [of "[0, 0, 0, 0]"] show "CheckInternalIP [0, 0, 0, 0] AllInternalIPClasses = None" by simp
  have "replicate 12 (0 :: 8 word) ! 10 \<noteq> v4_prefix ! 10" by (simp add: v4_prefix_def nth_append)
  then have "replicate 12 (0 :: 8 word) \<noteq> v4_prefix" by (metis (no_types))
  then have "To4 (replicate 16 0) = None" by (simp add: To4_def)
  then have "ip_class (replicate 16 0) = None" by (simp add: ip_class_def v6_class_def eval_nat_numeral)
  with c [of "replicate 16 0"] show "CheckInternalIP (replicate 16 0) AllInternalIPClasses = None" by simp
qed

section \<open>Outbound JSON requests (\<open>clientx.go\<close>)\<close>

definition ErrResponseTooLarge :: string where
  "ErrResponseTooLarge = ''clientx: response exceeds MaxResponseBytes''"

definition defaultMaxResponseBytes :: int where "defaultMaxResponseBytes = 1048576"
definition logBodyCap :: nat where "logBodyCap = 4096"

text \<open>A transport error: its text, and whether it is (wraps) \<open>context.DeadlineExceeded\<close>.\<close>

record transport_err =
  te_text :: string
  te_deadline :: bool

datatype cx_cause = RequestFailed transport_err | ReadBody string | TooLarge | DecodeBody string

text \<open>\<open>Options\<close>, without the client (the network argument) and the logger (the returned records).\<close>

record Options =
  op_Timeout :: int
  op_MaxResponseBytes :: int
  op_SuccessStatuses :: "int list"

text \<open>\<open>Error\<close>; a body is \<open>None\<close> where it is nil.\<close>

record cx_Error =
  ce_Status :: int
  ce_Path :: string
  ce_Method :: string
  ce_Body :: "string option"
  ce_Origin :: string
  ce_Err :: "cx_cause option"

definition cause_text :: "cx_cause \<Rightarrow> string" where
  "cause_text c =
     (case c of
        RequestFailed e \<Rightarrow> ''clientx: request failed: '' @ te_text e
      | ReadBody e \<Rightarrow> ''clientx: read body: '' @ e
      | TooLarge \<Rightarrow> ErrResponseTooLarge
      | DecodeBody e \<Rightarrow> ''clientx: decode body: '' @ e)"

definition cause_deadline :: "cx_cause \<Rightarrow> bool" where
  "cause_deadline c = (case c of RequestFailed e \<Rightarrow> te_deadline e | _ \<Rightarrow> False)"

definition Error_Error :: "cx_Error option \<Rightarrow> string" where
  "Error_Error eo =
     (case eo of
        None \<Rightarrow> ''<nil>''
      | Some e \<Rightarrow>
          (if ce_Status e \<noteq> 0
           then ''clientx: '' @ ce_Method e @ '' '' @ ce_Path e @ '': status '' @ itoa (ce_Status e)
           else case ce_Err e of Some c \<Rightarrow> cause_text c | None \<Rightarrow> ''clientx: error''))"

definition Error_Unwrap :: "cx_Error option \<Rightarrow> cx_cause option" where
  "Error_Unwrap eo = Option.bind eo ce_Err"

definition isSuccess :: "int \<Rightarrow> int list \<Rightarrow> bool" where
  "isSuccess status allow = (if allow = [] then 200 \<le> status \<and> status < 300 else status \<in> set allow)"

definition capBody :: "string \<Rightarrow> string \<times> bool" where
  "capBody raw = (if length raw \<le> logBodyCap then (raw, False) else (take logBodyCap raw, True))"

text \<open>\<open>hasCSARErrorEnvelope\<close>; \<open>dec\<close> decodes the \<open>code\<close> field of a JSON body.\<close>

definition csar_codes :: "string list" where
  "csar_codes =
     [''route_not_found'', ''access_denied'', ''auth_failed'', ''throttled'', ''circuit_open'', ''backpressure'',
      ''upstream_error'', ''no_healthy_upstream'', ''tenant_not_found'', ''response_too_large'', ''security_error'']"

definition hasCSARErrorEnvelope :: "(string \<Rightarrow> string option) \<Rightarrow> string \<Rightarrow> bool" where
  "hasCSARErrorEnvelope dec body =
     (if body = [] then False
      else case dec body of None \<Rightarrow> False | Some code \<Rightarrow> to_lower (trim_space code) \<in> set csar_codes)"

definition classifyResponseOrigin :: "(string \<Rightarrow> string option) \<Rightarrow> string option \<Rightarrow> header \<Rightarrow> string" where
  "classifyResponseOrigin dec body h =
     (if trim_space (Header_Get h ''X-CSAR-Status'') \<noteq> [] \<or> hasCSARErrorEnvelope dec (case body of Some b \<Rightarrow> b | None \<Rightarrow> [])
      then ''csar'' else ''upstream_or_gateway'')"

definition classifyTransportOrigin :: "cx_cause option \<Rightarrow> string" where
  "classifyTransportOrigin c =
     (let message = (case c of None \<Rightarrow> [] | Some x \<Rightarrow> to_lower (cause_text x));
          has = contains message
      in if has ''stsclient:'' \<or> has ''/sts/token'' then ''csar_authn_sts''
         else if has ''x509:'' \<or> has ''tls'' then ''tls_transport''
         else if has ''lookup '' \<or> has ''dial tcp'' then ''network_transport''
         else if (case c of None \<Rightarrow> False | Some x \<Rightarrow> cause_deadline x) \<or> has ''context deadline exceeded'' \<or> has ''timeout''
           then ''timeout''
         else ''http_client'')"

definition ErrorOrigin :: "(string \<Rightarrow> string option) \<Rightarrow> cx_Error option \<Rightarrow> string" where
  "ErrorOrigin dec eo =
     (case eo of
        None \<Rightarrow> ''unknown''
      | Some e \<Rightarrow>
          (if ce_Origin e \<noteq> [] then ce_Origin e
           else if ce_Status e \<noteq> 0 then classifyResponseOrigin dec (ce_Body e) Map.empty
           else classifyTransportOrigin (ce_Err e)))"

text \<open>The attributes of a log record; the request identifier is the context's, where it has one.\<close>

record cx_log =
  cl_msg :: string
  cl_status :: int
  cl_method :: string
  cl_path :: string
  cl_origin :: string
  cl_truncated :: "bool option"
  cl_err :: "string option"
  cl_request_id :: "string option"

definition log_request_id :: "string option \<Rightarrow> string option" where
  "log_request_id rid = (case rid of Some (c # s) \<Rightarrow> Some (c # s) | _ \<Rightarrow> None)"

definition req_path :: "http_req \<Rightarrow> string" where
  "req_path r = (case url_Parse (hq_URL r) of Some u \<Rightarrow> Path u | None \<Rightarrow> [])"

definition logNonSuccess :: "string option \<Rightarrow> http_req \<Rightarrow> int \<Rightarrow> bool \<Rightarrow> string \<Rightarrow> cx_log" where
  "logNonSuccess rid req status truncated origin =
     \<lparr>cl_msg = ''clientx: non-success response'', cl_status = status, cl_method = hq_Method req, cl_path = req_path req,
      cl_origin = origin, cl_truncated = Some truncated, cl_err = None, cl_request_id = log_request_id rid\<rparr>"

definition logOversize :: "string option \<Rightarrow> http_req \<Rightarrow> int \<Rightarrow> string \<Rightarrow> cx_log" where
  "logOversize rid req status origin =
     \<lparr>cl_msg = ''clientx: response too large'', cl_status = status, cl_method = hq_Method req, cl_path = req_path req,
      cl_origin = origin, cl_truncated = None, cl_err = Some ErrResponseTooLarge, cl_request_id = log_request_id rid\<rparr>"

text \<open>
  What a call runs in: the network (given the timeout put on the request, if
  any), whether the request's own context has a deadline, the request
  identifier of the context, and the JSON decoder of the error envelope.
\<close>

record cx_env =
  cv_net :: "int option \<Rightarrow> http_req \<Rightarrow> transport_err + http_resp"
  cv_deadline :: bool
  cv_request_id :: "string option"
  cv_envelope :: "string \<Rightarrow> string option"

text \<open>\<open>io.ReadAll(io.LimitReader(body, n))\<close>; a limit below one reads nothing.\<close>

definition read_limited :: "int \<Rightarrow> http_resp \<Rightarrow> string res" where
  "read_limited n r = map_sum id (take (nat n)) (hr_Body r)"

text \<open>The leading text of an error value.\<close>

definition err_head :: "go_error \<Rightarrow> string" where
  "err_head e = (case e of Errorf m _ \<Rightarrow> m | Wrapf m _ _ \<Rightarrow> m)"

definition exec :: "cx_env \<Rightarrow> http_req \<Rightarrow> Options \<Rightarrow> (cx_Error + string \<times> int) \<times> cx_log list" where
  "exec env req opts =
     (let maxBytes = (if op_MaxResponseBytes opts \<le> 0 then defaultMaxResponseBytes else op_MaxResponseBytes opts);
          timeout = (if op_Timeout opts > 0 \<and> \<not> cv_deadline env then Some (op_Timeout opts) else None);
          fail = (\<lambda>status body origin cause.
            \<lparr>ce_Status = status, ce_Path = req_path req, ce_Method = hq_Method req, ce_Body = body, ce_Origin = origin, ce_Err = cause\<rparr>)
      in case cv_net env timeout req of
           Inl err \<Rightarrow>
             (let cause = RequestFailed err in (Inl (fail 0 None (classifyTransportOrigin (Some cause)) (Some cause)), []))
         | Inr resp \<Rightarrow>
             (let status = hr_Status resp
              in case read_limited (wrap64 (maxBytes + 1)) resp of
                   Inl e \<Rightarrow>
                     (Inl (fail status None (classifyResponseOrigin (cv_envelope env) None (hr_Header resp))
                             (Some (ReadBody (err_head e)))), [])
                 | Inr raw \<Rightarrow>
                     (if int (length raw) > maxBytes then
                        (let origin = classifyResponseOrigin (cv_envelope env) None (hr_Header resp)
                         in (Inl (fail status None origin (Some TooLarge)), [logOversize (cv_request_id env) req status origin]))
                      else if \<not> isSuccess status (op_SuccessStatuses opts) then
                        (let (capped, truncated) = capBody raw;
                             origin = classifyResponseOrigin (cv_envelope env) (Some capped) (hr_Header resp)
                         in (Inl (fail status (Some capped) origin None), [logNonSuccess (cv_request_id env) req status truncated origin]))
                      else (Inr (raw, status), []))))"

text \<open>\<open>DoJSON\<close>; \<open>unmarshal\<close> is \<open>json.Unmarshal\<close> into the caller's type.\<close>

definition DoJSON :: "cx_env \<Rightarrow> (string \<Rightarrow> string + 'a) \<Rightarrow> http_req \<Rightarrow> Options \<Rightarrow> (cx_Error + 'a) \<times> cx_log list" where
  "DoJSON env unmarshal req opts =
     (case exec env req opts of
        (Inl e, logs) \<Rightarrow> (Inl e, logs)
      | (Inr (raw, status), logs) \<Rightarrow>
          (case unmarshal raw of
             Inl err \<Rightarrow>
               (Inl \<lparr>ce_Status = status, ce_Path = req_path req, ce_Method = hq_Method req,
                     ce_Body = Some (fst (capBody raw)), ce_Origin = ''client_decode'', ce_Err = Some (DecodeBody err)\<rparr>, logs)
           | Inr x \<Rightarrow> (Inr x, logs)))"

definition DoJSONEmpty :: "cx_env \<Rightarrow> http_req \<Rightarrow> Options \<Rightarrow> cx_Error option \<times> cx_log list" where
  "DoJSONEmpty env req opts =
     (case exec env req opts of (Inl e, logs) \<Rightarrow> (Some e, logs) | (Inr _, logs) \<Rightarrow> (None, logs))"

text \<open>The limit a call works with.\<close>

definition effective_max :: "Options \<Rightarrow> int" where
  "effective_max opts = (if op_MaxResponseBytes opts \<le> 0 then defaultMaxResponseBytes else op_MaxResponseBytes opts)"

lemma length_capBody: "length (fst (capBody raw)) \<le> logBodyCap"
  by (simp add: capBody_def)

lemma origins_nonempty [simp]: "classifyResponseOrigin dec b h \<noteq> []" "classifyTransportOrigin c \<noteq> []"
  by (simp_all add: classifyResponseOrigin_def classifyTransportOrigin_def Let_def)

lemma exec_Inr:
  assumes "exec env req opts = (Inr (raw, status), logs)"
  obtains resp where "cv_net env (if op_Timeout opts > 0 \<and> \<not> cv_deadline env then Some (op_Timeout opts) else None) req = Inr resp"
    "hr_Status resp = status" "read_limited (wrap64 (effective_max opts + 1)) resp = Inr raw"
    "int (length raw) \<le> effective_max opts" "isSuccess status (op_SuccessStatuses opts)" "logs = []"
  using assms that unfolding exec_def effective_max_def Let_def
  by (auto split: sum.splits if_splits prod.splits)

lemma exec_Inl:
  assumes "exec env req opts = (Inl e, logs)"
  shows "ce_Origin e \<noteq> []" "ce_Body e = None \<or> length (the (ce_Body e)) \<le> logBodyCap"
    "ce_Err e = Some TooLarge \<Longrightarrow> ce_Body e = None" "ce_Err e \<noteq> None \<or> ce_Body e \<noteq> None"
    "length logs \<le> 1" "ce_Method e = hq_Method req"
  using assms length_capBody unfolding exec_def Let_def
  by (auto split: sum.splits if_splits prod.splits) (metis fst_conv length_capBody)+

text \<open>
  C38: \<open>DoJSON\<close> either decodes a body that the network delivered with an accepted
  status and that is within the size limit, and logs nothing, or it returns an
  error whose origin is set, whose captured body is at most 4 KiB and is absent
  for an oversize response, with at most one log record.
\<close>

theorem DoJSON_contract:
  assumes "DoJSON env unmarshal req opts = (r, logs)"
  shows "case r of
      Inr x \<Rightarrow> (\<exists>t resp raw. cv_net env t req = Inr resp \<and> isSuccess (hr_Status resp) (op_SuccessStatuses opts) \<and>
        read_limited (wrap64 (effective_max opts + 1)) resp = Inr raw \<and> int (length raw) \<le> effective_max opts \<and>
        unmarshal raw = Inr x) \<and> logs = []
    | Inl e \<Rightarrow> ErrorOrigin (cv_envelope env) (Some e) = ce_Origin e \<and> ce_Origin e \<noteq> [] \<and>
        (ce_Body e = None \<or> length (the (ce_Body e)) \<le> logBodyCap) \<and>
        (ce_Err e = Some TooLarge \<longrightarrow> ce_Body e = None) \<and> length logs \<le> 1"
proof (cases "exec env req opts")
  case (Pair x logs')
  show ?thesis
  proof (cases x)
    case (Inl e)
    then have ex: "exec env req opts = (Inl e, logs')" using Pair by simp
    then have "r = Inl e" "logs = logs'" using assms by (simp_all add: DoJSON_def)
    with exec_Inl [OF ex] show ?thesis by (auto simp: ErrorOrigin_def)
  next
    case (Inr y)
    obtain raw st where y: "y = (raw, st)" by fastforce
    then have ex: "exec env req opts = (Inr (raw, st), logs')" using Pair Inr by simp
    from ex obtain t resp where n: "cv_net env t req = Inr resp" "hr_Status resp = st"
      "read_limited (wrap64 (effective_max opts + 1)) resp = Inr raw"
      "int (length raw) \<le> effective_max opts" "isSuccess st (op_SuccessStatuses opts)" "logs' = []"
      by (rule exec_Inr)
    show ?thesis
    proof (cases "unmarshal raw")
      case (Inl err)
      then show ?thesis using assms ex n(6) length_capBody [of raw] by (auto simp: DoJSON_def ErrorOrigin_def)
    next
      case (Inr z)
      then have "r = Inr z" "logs = []" using assms ex n(6) by (simp_all add: DoJSON_def)
      with Inr n show ?thesis by auto
    qed
  qed
qed

definition demo_cx_req :: http_req where
  "demo_cx_req = \<lparr>hq_Method = ''GET'', hq_URL = ''/'', hq_Header = Map.empty, hq_Body = None, hq_GetBody = None\<rparr>"

definition demo_cx_env :: cx_env where
  "demo_cx_env = \<lparr>cv_net = (\<lambda>t r. Inr \<lparr>hr_Status = 200, hr_Header = Map.empty, hr_Body = Inr ''{}''\<rparr>),
     cv_deadline = False, cv_request_id = None, cv_envelope = (\<lambda>_. None)\<rparr>"

definition demo_cx_opts :: Options where
  "demo_cx_opts = \<lparr>op_Timeout = 0, op_MaxResponseBytes = 1, op_SuccessStatuses = []\<rparr>"

theorem DoJSON_contract_witness:
  "\<exists>e logs. DoJSON demo_cx_env (\<lambda>s. Inr s) demo_cx_req demo_cx_opts = (Inl e, logs) \<and>
     ce_Err e = Some TooLarge \<and> ce_Body e = None"
proof -
  obtain e logs where d: "DoJSON demo_cx_env (\<lambda>s. Inr s) demo_cx_req demo_cx_opts = (Inl e, logs)"
      and t: "ce_Err e = Some TooLarge"
    by (simp add: DoJSON_def exec_def demo_cx_env_def demo_cx_opts_def read_limited_def wrap64_def Let_def)
  from DoJSON_contract [OF d] t show ?thesis using d by auto
qed

end
