(* ===== verification/GoJSON.thy ===== *)
theory GoJSON
  imports GoFloat GoStrings
begin

text \<open>
  A JSON document as \<open>encoding/json\<close> decodes it into \<open>any\<close>: numbers are
  \<open>float64\<close>, an object is a map from keys to values (an association list with
  distinct keys). Decoding bytes is a parameter of the components that do it.
\<close>

datatype json =
    JNull
  | JBool bool
  | JNumber f64
  | JString string
  | JArray "json list"
  | JObject "(string \<times> json) list"

text \<open>Every object of a document has distinct keys, as a Go map does.\<close>

fun json_ok :: "json \<Rightarrow> bool" where
  "json_ok (JArray xs) = list_all json_ok xs"
| "json_ok (JObject kvs) = (distinct (map fst kvs) \<and> list_all (\<lambda>(k, v). json_ok v) kvs)"
| "json_ok _ = True"

end
