(* ===== verification/TokenMint.thy ===== *)
theory TokenMint
  imports MintConfig ClientX GoJSON "HOL-Library.List_Lexorder" "HOL-Library.Char_ord"
begin

text \<open>
  Package \<open>tokenmint\<close>, what it does: one client-credentials grant (\<open>client.go\<close>)
  and the minter that caches, collapses, throttles and backs off
  (\<open>minter.go\<close>). The network, name resolution, JSON, SHA-256, the rate limiter
  of \<open>golang.org/x/time\<close> and random numbers are parameters.
\<close>

section \<open>Grants (\<open>client.go\<close>)\<close>

definition ErrInvalidClient :: go_error where
  "ErrInvalidClient = New ''tokenmint: upstream rejected the client credentials''"
definition ErrUpstream :: go_error where
  "ErrUpstream = New ''tokenmint: upstream token endpoint failed''"
definition ErrMalformedResponse :: go_error where
  "ErrMalformedResponse = New ''tokenmint: malformed token response''"
definition ErrHostNotAllowed :: go_error where
  "ErrHostNotAllowed = New ''tokenmint: token endpoint host is not allowed''"

record grantResponse =
  gr_AccessToken :: string
  gr_TokenType :: string
  gr_ExpiresIn :: int

text \<open>
  The errors of a mint: \<open>Upstream\<close> is \<open>*upstreamError\<close> (status, retry hint,
  message), \<open>Backoff\<close> wraps \<open>ErrBackoff\<close> together with the earlier failure.
\<close>

datatype mint_err =
    Plain go_error
  | Upstream int int string
  | Backoff int "mint_err option"

fun errors_Is :: "go_error \<Rightarrow> go_error \<Rightarrow> bool" where
  "errors_Is target (Errorf f as) = (Errorf f as = target)"
| "errors_Is target (Wrapf f as e) = (Wrapf f as e = target \<or> errors_Is target e)"

text \<open>\<open>net.SplitHostPort\<close>.\<close>

definition SplitHostPort :: "string \<Rightarrow> (string \<times> string) res" where
  "SplitHostPort hp =
     (case last_index (CHR '':'') hp of
        None \<Rightarrow> Inl (New ''missing port in address'')
      | Some i \<Rightarrow>
          (let bracket = (take 1 hp = ''['');
               close = (if CHR '']'' \<in> set hp then Some (length (takeWhile (\<lambda>x. x \<noteq> CHR '']'') hp)) else None)
           in if bracket then
                (case close of
                   None \<Rightarrow> Inl (New ''missing ']' in address'')
                 | Some e \<Rightarrow>
                     (if e + 1 = length hp then Inl (New ''missing port in address'')
                      else if e + 1 \<noteq> i then
                        Inl (if hp ! (e + 1) = CHR '':'' then New ''too many colons in address'' else New ''missing port in address'')
                      else if CHR ''['' \<in> set (drop 1 hp) then Inl (New ''unexpected '[' in address'')
                      else if CHR '']'' \<in> set (drop (e + 1) hp) then Inl (New ''unexpected ']' in address'')
                      else Inr (drop 1 (take e hp), drop (i + 1) hp)))
              else if CHR '':'' \<in> set (take i hp) then Inl (New ''too many colons in address'')
              else if CHR ''['' \<in> set hp then Inl (New ''unexpected '[' in address'')
              else if CHR '']'' \<in> set hp then Inl (New ''unexpected ']' in address'')
              else Inr (take i hp, drop (i + 1) hp)))"

text \<open>Where a connection goes: the address as given, or a resolved address and its port.\<close>

datatype dial_target = DialName string | DialIP ip string

text \<open>The dial function of \<open>newHTTPClient\<close>.\<close>

definition mint_dial :: "(string \<Rightarrow> ip list res) \<Rightarrow> MintConfig \<Rightarrow> string \<Rightarrow> dial_target res" where
  "mint_dial lookup cfg addr =
     (case SplitHostPort addr of
        Inl e \<Rightarrow> Inl (Wrapf ''tokenmint: invalid address %q: %w'' [ArgS addr] e)
      | Inr (host, port) \<Rightarrow>
          (if mc_AllowPrivate cfg then Inr (DialName addr)
           else case lookup host of
             Inl e \<Rightarrow> Inl (Wrapf ''tokenmint: resolve %q: %w'' [ArgS host] e)
           | Inr [] \<Rightarrow> Inl (Errorf ''tokenmint: no addresses for %q'' [ArgS host])
           | Inr (a # as) \<Rightarrow>
               (case each_check (\<lambda>x. map_option InternalIPError_error (CheckInternalIP x AllInternalIPClasses)) (a # as) of
                  Some e \<Rightarrow> Inl (Wrapf ''tokenmint: refusing to dial %q: %w'' [ArgS host] e)
                | None \<Rightarrow> Inr (DialIP a port))))"

text \<open>The settings of the outbound client that decide where a request can go.\<close>

record mint_client =
  cli_Timeout :: int
  cli_CheckRedirect :: err
  cli_Proxy :: "string option"
  cli_dial :: "(string \<Rightarrow> ip list res) \<Rightarrow> string \<Rightarrow> dial_target res"

definition newHTTPClient :: "MintConfig \<Rightarrow> int \<Rightarrow> mint_client" where
  "newHTTPClient cfg timeout =
     \<lparr>cli_Timeout = timeout,
      cli_CheckRedirect = Some (New ''tokenmint: refusing to follow a redirect from a token endpoint''),
      cli_Proxy = None,
      cli_dial = (\<lambda>lookup. mint_dial lookup cfg)\<rparr>"

text \<open>The entries of a map in key order, as \<open>url.Values.Encode\<close> and \<open>json.Marshal\<close> write them.\<close>

definition sorted_entries :: "(string \<times> string) list \<Rightarrow> (string \<times> string) list" where
  "sorted_entries m = sort_key fst m"

record mint_env =
  me_net :: "mint_client \<Rightarrow> http_req \<Rightarrow> transport_err + http_resp"
  me_marshal :: "(string \<times> string) list \<Rightarrow> string res"
  me_unmarshal :: "string \<Rightarrow> json option"
  me_error_field :: "string \<Rightarrow> string option"
  me_ParseFloat :: "string \<Rightarrow> f64 option"
  me_oob :: "f64 \<Rightarrow> int"
  me_ParseTime :: "string \<Rightarrow> int option"
  me_sha :: "string \<Rightarrow> string"
  me_rand :: "int \<Rightarrow> int"

definition buildGrantRequest :: "mint_env \<Rightarrow> Profile \<Rightarrow> string \<Rightarrow> string \<Rightarrow> http_req res" where
  "buildGrantRequest env p clientID clientSecret =
     (let params = put (pf_ClientSecretParam p) clientSecret (put (pf_ClientIDParam p) clientID (pf_StaticParams p));
          send = (\<lambda>body contentType.
            map_sum (Wrapf ''tokenmint: build request: %w'' [])
              (\<lambda>r. r\<lparr>hq_Header := Header_Set ''Accept'' ''application/json'' (Header_Set ''Content-Type'' contentType (hq_Header r))\<rparr>)
              (NewRequest ''POST'' (pf_TokenURL p) (Some body)))
      in if pf_BodyStyle p = BodyStyleForm then
           send (Values_Encode (sorted_entries params)) ''application/x-www-form-urlencoded''
         else if pf_BodyStyle p = BodyStyleJSON then
           (case me_marshal env (sorted_entries params) of
              Inl e \<Rightarrow> Inl (Wrapf ''tokenmint: encode request body: %w'' [] e)
            | Inr encoded \<Rightarrow> send encoded ''application/json'')
         else Inl (Errorf ''tokenmint: unsupported body_style %q'' [ArgS (pf_BodyStyle p)]))"

definition isCredentialErrorCode :: "string \<Rightarrow> bool" where
  "isCredentialErrorCode code \<longleftrightarrow>
     to_lower code \<in> {''invalid_client'', ''unauthorized_client'', ''invalid_grant'', ''access_denied''}"

text \<open>\<open>me_error_field\<close> decodes the \<open>error\<close> field; \<open>None\<close> is a body that is not such JSON.\<close>

definition extractErrorCode :: "mint_env \<Rightarrow> string \<Rightarrow> string" where
  "extractErrorCode env body =
     (case me_error_field env body of
        Some (c # s) \<Rightarrow> if length (c # s) > 64 then take 64 (c # s) else c # s
      | _ \<Rightarrow> ''unspecified'')"

definition parseRetryAfter :: "mint_env \<Rightarrow> int \<Rightarrow> string \<Rightarrow> int" where
  "parseRetryAfter env now v =
     (if v = [] then 0
      else case atoi (trim_space v) of
        (secs, None) \<Rightarrow>
          (if secs > 0 then wrap64 (secs * go_second)
           else case me_ParseTime env v of Some t \<Rightarrow> if t - now > 0 then t - now else 0 | None \<Rightarrow> 0)
      | (_, Some _) \<Rightarrow> (case me_ParseTime env v of Some t \<Rightarrow> if t - now > 0 then t - now else 0 | None \<Rightarrow> 0))"

definition classifyFailure :: "mint_env \<Rightarrow> int \<Rightarrow> http_resp \<Rightarrow> string \<Rightarrow> mint_err" where
  "classifyFailure env now resp body =
     (let retryAfter = parseRetryAfter env now (Header_Get (hr_Header resp) ''Retry-After'');
          code = extractErrorCode env body;
          status = hr_Status resp
      in if status = 401 \<or> status = 403 \<or> (status = 400 \<and> isCredentialErrorCode code)
         then Plain (Wrapf ''%w (status %d, code %q)'' [ArgD status, ArgS code] ErrInvalidClient)
         else Upstream status retryAfter code)"

fun lookup_segments :: "json \<Rightarrow> string list \<Rightarrow> json option" where
  "lookup_segments cur [] = Some cur"
| "lookup_segments cur (seg # segs) =
     (case cur of
        JObject obj \<Rightarrow> (case map_of obj seg of None \<Rightarrow> None | Some v \<Rightarrow> lookup_segments v segs)
      | _ \<Rightarrow> None)"

definition lookupPath :: "json \<Rightarrow> string \<Rightarrow> json option" where
  "lookupPath doc path = (if path = [] then None else lookup_segments doc (split_on (CHR ''.'') path))"

definition lookupString :: "json \<Rightarrow> string \<Rightarrow> string option" where
  "lookupString doc path = (case lookupPath doc path of Some (JString s) \<Rightarrow> Some s | _ \<Rightarrow> None)"

definition lookupNumber :: "mint_env \<Rightarrow> json \<Rightarrow> string \<Rightarrow> f64 option" where
  "lookupNumber env doc path =
     (case lookupPath doc path of
        Some (JNumber n) \<Rightarrow> Some n
      | Some (JString s) \<Rightarrow> me_ParseFloat env s
      | _ \<Rightarrow> None)"

text \<open>The comparison \<open>secs <= 0\<close>; it is false for a NaN.\<close>

definition f64_le_zero :: "f64 \<Rightarrow> bool" where
  "f64_le_zero x = (case x of Fin q \<Rightarrow> q \<le> 0 | Infinite neg \<Rightarrow> neg | NaN \<Rightarrow> False)"

text \<open>\<open>json.Unmarshal\<close> into a map accepts an object or null (a nil map).\<close>

definition parseGrantResponse :: "mint_env \<Rightarrow> Profile \<Rightarrow> string \<Rightarrow> grantResponse res" where
  "parseGrantResponse env p body =
     (case (case me_unmarshal env body of Some (JObject o') \<Rightarrow> Some (JObject o') | Some JNull \<Rightarrow> Some (JObject []) | _ \<Rightarrow> None) of
        None \<Rightarrow> Inl (Wrapf ''%w: not JSON'' [] ErrMalformedResponse)
      | Some doc \<Rightarrow>
          (let token = (case lookupString doc (pf_AccessTokenPath p) of Some s \<Rightarrow> s | None \<Rightarrow> []);
               tokenType = (case lookupString doc (pf_TokenTypePath p) of Some s \<Rightarrow> s | None \<Rightarrow> [])
           in if token = [] then Inl (Wrapf ''%w: %q missing or empty'' [ArgS (pf_AccessTokenPath p)] ErrMalformedResponse)
              else if pf_ExpectedTokenType p \<noteq> [] \<and> tokenType \<noteq> [] \<and> \<not> EqualFold tokenType (pf_ExpectedTokenType p)
                then Inl (Wrapf ''%w: token_type %q, expected %q'' [ArgS tokenType, ArgS (pf_ExpectedTokenType p)] ErrMalformedResponse)
              else case lookupNumber env doc (pf_ExpiresInPath p) of
                None \<Rightarrow> Inr \<lparr>gr_AccessToken = token, gr_TokenType = tokenType, gr_ExpiresIn = pf_DefaultExpiresIn p\<rparr>
              | Some secs \<Rightarrow>
                  (if f64_le_zero secs then Inl (Wrapf ''%w: %q is not positive'' [ArgS (pf_ExpiresInPath p)] ErrMalformedResponse)
                   else Inr \<lparr>gr_AccessToken = token, gr_TokenType = tokenType,
                             gr_ExpiresIn = wrap64 (f64_to_int64 (me_oob env) secs * go_second)\<rparr>)))"

text \<open>
  \<open>doGrant\<close> for a request issued at \<open>now\<close>; the second component is the client
  and the request it was handed, if any.
\<close>

definition doGrant ::
  "mint_env \<Rightarrow> int \<Rightarrow> mint_client \<Rightarrow> MintConfig \<Rightarrow> Profile \<Rightarrow> string \<Rightarrow> string \<Rightarrow> (mint_err + grantResponse) \<times> (mint_client \<times> http_req) option" where
  "doGrant env now client cfg p clientID clientSecret =
     (case url_Parse (pf_TokenURL p) of
        None \<Rightarrow> (Inl (Plain (New ''tokenmint: parse token_url'')), None)
      | Some u \<Rightarrow>
          (if \<not> HostAllowed cfg (Hostname u) then (Inl (Plain (Wrapf ''%w: %s'' [ArgS (Hostname u)] ErrHostNotAllowed)), None)
           else case buildGrantRequest env p clientID clientSecret of
             Inl e \<Rightarrow> (Inl (Plain e), None)
           | Inr req \<Rightarrow>
               ((case me_net env client req of
                   Inl e \<Rightarrow> Inl (Plain (Wrapf ''%w: %v'' [ArgS (te_text e)] ErrUpstream))
                 | Inr resp \<Rightarrow>
                     (case read_limited (wrap64 (pf_MaxResponseBytes p + 1)) resp of
                        Inl e \<Rightarrow> Inl (Plain (Wrapf ''%w: read body: %v'' [ArgS (err_head e)] ErrUpstream))
                      | Inr body \<Rightarrow>
                          (if int (length body) > pf_MaxResponseBytes p
                           then Inl (Plain (Wrapf ''%w: response exceeds max_response_bytes (%d)'' [ArgD (pf_MaxResponseBytes p)] ErrMalformedResponse))
                           else if hr_Status resp < 200 \<or> hr_Status resp > 299 then Inl (classifyFailure env now resp body)
                           else map_sum Plain id (parseGrantResponse env p body)))),
                Some (client, req))))"

section \<open>The minter (\<open>minter.go\<close>)\<close>

definition ErrUnknownProfile :: go_error where "ErrUnknownProfile = New ''tokenmint: unknown grant profile''"
definition ErrThrottled :: go_error where "ErrThrottled = New ''tokenmint: mint throttled''"

text \<open>A time that may be the zero \<open>time.Time\<close> is an option.\<close>

record Result =
  rs_AccessToken :: string
  rs_TokenType :: string
  rs_RefreshAfter :: "int option"
  rs_HardExpiry :: "int option"

definition zero_Result :: Result where
  "zero_Result = \<lparr>rs_AccessToken = [], rs_TokenType = [], rs_RefreshAfter = None, rs_HardExpiry = None\<rparr>"

definition Fresh :: "int \<Rightarrow> Result \<Rightarrow> bool" where
  "Fresh now r \<longleftrightarrow> (case rs_RefreshAfter r of None \<Rightarrow> False | Some t \<Rightarrow> now < t)"

definition Usable :: "int \<Rightarrow> Result \<Rightarrow> bool" where
  "Usable now r \<longleftrightarrow> (case rs_HardExpiry r of None \<Rightarrow> False | Some t \<Rightarrow> now < t)"

record mintState =
  st_profileName :: string
  st_result :: Result
  st_hasResult :: bool
  st_lastMintAt :: "int option"
  st_failCount :: int
  st_lastErr :: "mint_err option"
  st_nextAttemptAt :: "int option"

definition zero_state :: "string \<Rightarrow> mintState" where
  "zero_state name = \<lparr>st_profileName = name, st_result = zero_Result, st_hasResult = False, st_lastMintAt = None,
     st_failCount = 0, st_lastErr = None, st_nextAttemptAt = None\<rparr>"

text \<open>The rate limiter: its construction from a rate and a burst, and \<open>Allow\<close>.\<close>

record 'l limiter_ops =
  lo_new :: "rat \<Rightarrow> int \<Rightarrow> 'l"
  lo_allow :: "int \<Rightarrow> 'l \<Rightarrow> bool \<times> 'l"

record 'l Minter =
  mi_cfg :: MintConfig
  mi_state :: "(string \<times> mintState) list"
  mi_limiters :: "(string \<times> 'l) list"
  mi_clients :: "(string \<times> mint_client) list"

definition Minter_New :: "MintConfig option \<Rightarrow> 'l Minter res" where
  "Minter_New ocfg =
     (case ocfg of
        None \<Rightarrow> Inl (New ''tokenmint: config is required'')
      | Some cfg \<Rightarrow>
          (if mc_Profiles cfg = [] then Inl (New ''tokenmint: config has no profiles'')
           else Inr \<lparr>mi_cfg = cfg, mi_state = [], mi_limiters = [], mi_clients = []\<rparr>))"

definition credentialKey :: "mint_env \<Rightarrow> string \<Rightarrow> string \<Rightarrow> string" where
  "credentialKey env profileName clientID = hex_encode (me_sha env (profileName @ [CHR 0x00] @ clientID))"

definition stateFor :: "string \<Rightarrow> string \<Rightarrow> 'l Minter \<Rightarrow> mintState \<times> 'l Minter" where
  "stateFor key profileName m =
     (case map_of (mi_state m) key of
        Some st \<Rightarrow> (st, m)
      | None \<Rightarrow> (zero_state profileName, m\<lparr>mi_state := put key (zero_state profileName) (mi_state m)\<rparr>))"

definition limiterFor :: "'l limiter_ops \<Rightarrow> string \<Rightarrow> Profile \<Rightarrow> 'l Minter \<Rightarrow> 'l \<times> 'l Minter" where
  "limiterFor lo profileName p m =
     (case map_of (mi_limiters m) profileName of
        Some l \<Rightarrow> (l, m)
      | None \<Rightarrow>
          (let burst = (if truncate_rat (pf_MaxMintsPerMinute p) < 1 then 1 else truncate_rat (pf_MaxMintsPerMinute p));
               l = lo_new lo (fl64 (pf_MaxMintsPerMinute p / 60)) burst
           in (l, m\<lparr>mi_limiters := put profileName l (mi_limiters m)\<rparr>)))"

definition clientFor :: "string \<Rightarrow> Profile \<Rightarrow> 'l Minter \<Rightarrow> mint_client \<times> 'l Minter" where
  "clientFor profileName p m =
     (case map_of (mi_clients m) profileName of
        Some c \<Rightarrow> (c, m)
      | None \<Rightarrow>
          (let c = newHTTPClient (mi_cfg m) (pf_Timeout p)
           in (c, m\<lparr>mi_clients := put profileName c (mi_clients m)\<rparr>)))"

text \<open>\<open>resultFrom\<close>: the advertised lifetime, cut back in floating point. Division truncates toward zero.\<close>

definition lifetime_of :: "mint_env \<Rightarrow> Profile \<Rightarrow> int \<Rightarrow> int" where
  "lifetime_of env p expiresIn =
     (let l = f64_to_int64 (me_oob env) (Fin (fl64 (fl64 (of_int expiresIn) * pf_ExpiresInHaircut p)))
      in if l \<le> 0 then expiresIn else l)"

definition half_toward_zero :: "int \<Rightarrow> int" where
  "half_toward_zero x = (if x < 0 then - ((- x) div 2) else x div 2)"

definition resultFrom :: "mint_env \<Rightarrow> int \<Rightarrow> Profile \<Rightarrow> grantResponse \<Rightarrow> Result" where
  "resultFrom env now p resp =
     (let lifetime = lifetime_of env p (gr_ExpiresIn resp);
          margin = (if pf_RefreshMargin p \<ge> lifetime then half_toward_zero lifetime else pf_RefreshMargin p);
          hard = now + lifetime
      in \<lparr>rs_AccessToken = gr_AccessToken resp, rs_TokenType = gr_TokenType resp,
          rs_RefreshAfter = Some (hard - margin), rs_HardExpiry = Some hard\<rparr>)"

definition clampDuration :: "int \<Rightarrow> int \<Rightarrow> int \<Rightarrow> int" where
  "clampDuration d lo hi = (if d < lo then lo else if hi > 0 \<and> d > hi then hi else d)"

text \<open>The doubling loop: \<open>n\<close> more rounds; the product is a 64-bit one.\<close>

fun backoff_loop :: "nat \<Rightarrow> int \<Rightarrow> int \<Rightarrow> int" where
  "backoff_loop 0 hi d = d"
| "backoff_loop (Suc n) hi d = (if d < hi then backoff_loop n hi (wrap64 (d * 2)) else d)"

definition backoffFor :: "mint_env \<Rightarrow> Profile \<Rightarrow> mint_err \<Rightarrow> int \<Rightarrow> int" where
  "backoffFor env p e failCount =
     (let base = pf_ErrorBackoffBase p; hi = pf_ErrorBackoffMax p;
          grown = (let d = clampDuration (backoff_loop (nat (failCount - 1)) hi base) base hi;
                       half = half_toward_zero d
                   in half + me_rand env (half + 1))
      in case e of
           Plain g \<Rightarrow> if errors_Is ErrInvalidClient g then pf_AuthErrorBackoff p else grown
         | Upstream _ retryAfter _ \<Rightarrow> if retryAfter > 0 then clampDuration retryAfter base hi else grown
         | Backoff _ _ \<Rightarrow> grown)"

text \<open>
  \<open>mintOne\<close>, which the single-flight group runs once at a time for a key. The
  third component is the request that was sent upstream, if any, with its client. The state of
  the key is written back in place, as the code updates it through a pointer.
\<close>

definition gate :: "int \<Rightarrow> Profile \<Rightarrow> mintState \<Rightarrow> mint_err option" where
  "gate now p st =
     (if (case st_nextAttemptAt st of None \<Rightarrow> False | Some t \<Rightarrow> now < t)
      then Some (Backoff (the (st_nextAttemptAt st)) (st_lastErr st))
      else if (case st_lastMintAt st of None \<Rightarrow> False | Some t \<Rightarrow> now - t < pf_MinRefreshInterval p)
      then Some (Plain (Wrapf ''%w: min_refresh_interval %s has not elapsed'' [ArgD (pf_MinRefreshInterval p)] ErrThrottled))
      else None)"

definition mintOne ::
  "mint_env \<Rightarrow> 'l limiter_ops \<Rightarrow> int \<Rightarrow> string \<Rightarrow> string \<Rightarrow> Profile \<Rightarrow> string \<Rightarrow> string \<Rightarrow> 'l Minter \<Rightarrow>
   (mint_err + Result) \<times> 'l Minter \<times> (mint_client \<times> http_req) option" where
  "mintOne env lo now key profileName p clientID clientSecret m =
     (let (st, m1) = stateFor key profileName m;
          cached = st_result st;
          fallback = (st_hasResult st \<and> Usable now cached)
      in if st_hasResult st \<and> Fresh now cached then (Inr cached, m1, None)
         else case gate now p st of
           Some e \<Rightarrow> ((if fallback then Inr cached else Inl e), m1, None)
         | None \<Rightarrow>
             (let (l, m2) = limiterFor lo profileName p m1;
                  (allowed, l') = lo_allow lo now l;
                  m3 = m2\<lparr>mi_limiters := put profileName l' (mi_limiters m2)\<rparr>
              in if \<not> allowed then
                   ((if fallback then Inr cached
                     else Inl (Plain (Wrapf ''%w: profile %q exceeded max_mints_per_minute (%v)'' [ArgS profileName] ErrThrottled))), m3, None)
                 else
                   let (c, m4) = clientFor profileName p m3;
                       (r, sent) = doGrant env now c (mi_cfg m4) p clientID clientSecret;
                       store = (\<lambda>s. m4\<lparr>mi_state := put key s (mi_state m4)\<rparr>)
                   in case r of
                        Inl e \<Rightarrow>
                          ((if fallback then Inr cached else Inl e),
                           store (st\<lparr>st_lastMintAt := Some now, st_failCount := st_failCount st + 1, st_lastErr := Some e,
                                     st_nextAttemptAt := Some (now + backoffFor env p e (st_failCount st + 1))\<rparr>),
                           sent)
                      | Inr resp \<Rightarrow>
                          (let res = resultFrom env now p resp
                           in (Inr res,
                               store (st\<lparr>st_lastMintAt := Some now, st_failCount := 0, st_lastErr := None,
                                         st_nextAttemptAt := None, st_result := res, st_hasResult := True\<rparr>),
                               sent))))"

definition Mint ::
  "mint_env \<Rightarrow> 'l limiter_ops \<Rightarrow> int \<Rightarrow> string \<Rightarrow> string \<Rightarrow> string \<Rightarrow> 'l Minter \<Rightarrow>
   (mint_err + Result) \<times> 'l Minter \<times> (mint_client \<times> http_req) option" where
  "Mint env lo now profileName clientID clientSecret m =
     (case Config_Profile (mi_cfg m) profileName of
        None \<Rightarrow> (Inl (Plain (Wrapf ''%w: %q'' [ArgS profileName] ErrUnknownProfile)), m, None)
      | Some p \<Rightarrow> mintOne env lo now (credentialKey env profileName clientID) profileName p clientID clientSecret m)"

text \<open>\<open>Sweep\<close> and \<open>Entries\<close>; the order in which the map is visited does not matter.\<close>

definition sweep_drops :: "MintConfig \<Rightarrow> int \<Rightarrow> mintState \<Rightarrow> bool" where
  "sweep_drops cfg now st =
     (case ProfileRef cfg (st_profileName st) of
        None \<Rightarrow> True
      | Some p \<Rightarrow>
          (case st_lastMintAt st of
             None \<Rightarrow> False
           | Some t \<Rightarrow> \<not> now - t < pf_IdleTTL p \<and> \<not> (st_hasResult st \<and> Usable now (st_result st))))"

definition Sweep :: "int \<Rightarrow> 'l Minter \<Rightarrow> nat \<times> 'l Minter" where
  "Sweep now m =
     (length (filter (\<lambda>(k, st). sweep_drops (mi_cfg m) now st) (mi_state m)),
      m\<lparr>mi_state := filter (\<lambda>(k, st). \<not> sweep_drops (mi_cfg m) now st) (mi_state m)\<rparr>)"

definition Entries :: "'l Minter \<Rightarrow> nat" where
  "Entries m = length (mi_state m)"

end
