(* ===== verification/MintRuns.thy ===== *)
theory MintRuns
  imports TokenMint
begin

text \<open>
  What a minter guarantees over runs of mints and sweeps: the spacing of
  grants, where credentials are sent, what a token's lifetime is, and what the
  cache key leaves out.
\<close>

section \<open>The state of a minter\<close>

text \<open>Each credential has one state, whose profile the configuration has.\<close>

definition minter_ok :: "'l Minter \<Rightarrow> bool" where
  "minter_ok m \<longleftrightarrow>
     distinct (map fst (mi_state m)) \<and>
     (\<forall>(k, st) \<in> set (mi_state m). Config_Profile (mi_cfg m) (st_profileName st) \<noteq> None) \<and>
     (\<forall>(n, c) \<in> set (mi_clients m). \<exists>t. c = newHTTPClient (mi_cfg m) t)"

lemma limiterFor_state [simp]:
  "mi_state (snd (limiterFor lo n p m)) = mi_state m" "mi_cfg (snd (limiterFor lo n p m)) = mi_cfg m"
  "mi_clients (snd (limiterFor lo n p m)) = mi_clients m"
  by (simp_all add: limiterFor_def Let_def split: option.splits)

lemma clientFor_state [simp]:
  "mi_state (snd (clientFor n p m)) = mi_state m" "mi_cfg (snd (clientFor n p m)) = mi_cfg m"
  by (simp_all add: clientFor_def Let_def split: option.splits)

lemma clientFor_client:
  "fst (clientFor n p m) \<in> snd ` set (mi_clients m) \<or> fst (clientFor n p m) = newHTTPClient (mi_cfg m) (pf_Timeout p)"
  "set (mi_clients (snd (clientFor n p m))) \<subseteq> insert (n, fst (clientFor n p m)) (set (mi_clients m))"
  by (auto simp: clientFor_def Let_def put_def dest: map_of_SomeD split: option.splits intro: rev_image_eqI)

lemma stateFor_state:
  "map_of (mi_state (snd (stateFor key n m))) key = Some (fst (stateFor key n m))"
  "j \<noteq> key \<Longrightarrow> map_of (mi_state (snd (stateFor key n m))) j = map_of (mi_state m) j"
  "mi_cfg (snd (stateFor key n m)) = mi_cfg m"
  "map_of (mi_state m) key = Some st \<Longrightarrow> fst (stateFor key n m) = st"
  "map_of (mi_state m) key = None \<Longrightarrow> fst (stateFor key n m) = zero_state n"
  "mi_clients (snd (stateFor key n m)) = mi_clients m"
  by (simp_all add: stateFor_def split: option.splits)

lemma stateFor_ok:
  assumes "minter_ok m" "Config_Profile (mi_cfg m) n \<noteq> None"
  shows "minter_ok (snd (stateFor key n m))" "Config_Profile (mi_cfg m) (st_profileName (fst (stateFor key n m))) \<noteq> None"
  using assms
  by (auto simp: minter_ok_def stateFor_def zero_state_def dest!: set_put map_of_SomeD split: option.splits)

text \<open>The state a failed and a successful attempt leave for their key.\<close>

definition failed_state :: "mint_env \<Rightarrow> int \<Rightarrow> Profile \<Rightarrow> mint_err \<Rightarrow> mintState \<Rightarrow> mintState" where
  "failed_state env now p e st =
     st\<lparr>st_lastMintAt := Some now, st_failCount := st_failCount st + 1, st_lastErr := Some e,
        st_nextAttemptAt := Some (now + backoffFor env p e (st_failCount st + 1))\<rparr>"

definition minted_state :: "int \<Rightarrow> Result \<Rightarrow> mintState \<Rightarrow> mintState" where
  "minted_state now res st =
     st\<lparr>st_lastMintAt := Some now, st_failCount := 0, st_lastErr := None, st_nextAttemptAt := None,
        st_result := res, st_hasResult := True\<rparr>"

lemma attempt_state [simp]:
  "st_lastMintAt (failed_state env now p e st) = Some now" "st_profileName (failed_state env now p e st) = st_profileName st"
  "st_lastMintAt (minted_state now res st) = Some now" "st_profileName (minted_state now res st) = st_profileName st"
  by (simp_all add: failed_state_def minted_state_def)

text \<open>The outcomes of \<open>mintOne\<close>, with \<open>st\<close> and \<open>m1\<close> as \<open>stateFor\<close> gives them.\<close>

lemma mintOne_cases:
  assumes "mintOne env lo now key n p cid sec m = (r, m', sent)" and s: "stateFor key n m = (st, m1)"
  obtains (served) "sent = None" "mi_state m' = mi_state m1" "mi_cfg m' = mi_cfg m"
      "r = Inr (st_result st)" "st_hasResult st" "Fresh now (st_result st) \<or> Usable now (st_result st)"
      "mi_clients m' = mi_clients m1"
  | (refused) e where "sent = None" "mi_state m' = mi_state m1" "mi_cfg m' = mi_cfg m" "r = Inl e"
      "mi_clients m' = mi_clients m1"
  | (failed) c e where "\<not> (st_hasResult st \<and> Fresh now (st_result st))" "gate now p st = None"
      "c \<in> snd ` set (mi_clients m1) \<or> c = newHTTPClient (mi_cfg m) (pf_Timeout p)"
      "doGrant env now c (mi_cfg m) p cid sec = (Inl e, sent)"
      "r = (if st_hasResult st \<and> Usable now (st_result st) then Inr (st_result st) else Inl e)"
      "mi_state m' = put key (failed_state env now p e st) (mi_state m1)" "mi_cfg m' = mi_cfg m" "set (mi_clients m') \<subseteq> insert (n, c) (set (mi_clients m1))"
  | (minted) c resp where "\<not> (st_hasResult st \<and> Fresh now (st_result st))" "gate now p st = None"
      "c \<in> snd ` set (mi_clients m1) \<or> c = newHTTPClient (mi_cfg m) (pf_Timeout p)"
      "doGrant env now c (mi_cfg m) p cid sec = (Inr resp, sent)" "r = Inr (resultFrom env now p resp)"
      "mi_state m' = put key (minted_state now (resultFrom env now p resp) st) (mi_state m1)" "mi_cfg m' = mi_cfg m"
      "set (mi_clients m') \<subseteq> insert (n, c) (set (mi_clients m1))"
proof -
  obtain l m2 where l: "limiterFor lo n p m1 = (l, m2)" by fastforce
  obtain ok l' where a: "lo_allow lo now l = (ok, l')" by fastforce
  let ?m3 = "m2\<lparr>mi_limiters := put n l' (mi_limiters m2)\<rparr>"
  obtain c m4 where c: "clientFor n p ?m3 = (c, m4)" by fastforce
  obtain g q where g: "doGrant env now c (mi_cfg m4) p cid sec = (g, q)" by fastforce
  have m2: "mi_state m2 = mi_state m1" "mi_cfg m2 = mi_cfg m1" "mi_clients m2 = mi_clients m1"
    using limiterFor_state [of lo n p m1] l by simp_all
  have m4: "mi_state m4 = mi_state m1" "mi_cfg m4 = mi_cfg m1" using clientFor_state [of n p ?m3] c m2 by simp_all
  have m1: "mi_cfg m1 = mi_cfg m" using stateFor_state(3) [of key n m] s by simp
  have cl: "c \<in> snd ` set (mi_clients m1) \<or> c = newHTTPClient (mi_cfg m) (pf_Timeout p)"
      "set (mi_clients m4) \<subseteq> insert (n, c) (set (mi_clients m1))"
    using clientFor_client [of n p ?m3] c m1 m2 by auto
  let ?m3' = "m2\<lparr>mi_limiters := put n l' (mi_limiters m2)\<rparr>"
  let ?fallback = "st_hasResult st \<and> Usable now (st_result st)"
  show thesis
  proof (cases "st_hasResult st \<and> Fresh now (st_result st)")
    case True
    then have "mintOne env lo now key n p cid sec m = (Inr (st_result st), m1, None)"
      by (simp add: mintOne_def s Let_def)
    with assms(1) have "r = Inr (st_result st)" "m' = m1" "sent = None" by simp_all
    with True m1 show thesis by (intro served) simp_all
  next
    case stale: False
    show thesis
    proof (cases "gate now p st")
      case gated: (Some e)
      have "mintOne env lo now key n p cid sec m = (if ?fallback then Inr (st_result st) else Inl e, m1, None)"
        using stale gated by (simp add: mintOne_def s Let_def)
      with assms(1) have "r = (if ?fallback then Inr (st_result st) else Inl e)" "m' = m1" "sent = None" by simp_all
      note eq = this m1
      show thesis
      proof (cases ?fallback)
        case True
        with eq show thesis by (intro served) simp_all
      next
        case False
        with eq show thesis by (intro refused [of e]) simp_all
      qed
    next
      case opened: None
      show thesis
      proof (cases ok)
        case False
        then obtain e where "mintOne env lo now key n p cid sec m = (if ?fallback then Inr (st_result st) else Inl e, ?m3', None)"
          using stale opened by (simp add: mintOne_def s l a Let_def)
        with assms(1) have "r = (if ?fallback then Inr (st_result st) else Inl e)" "m' = ?m3'" "sent = None" by simp_all
        note eq = this m1 m2
        show thesis
        proof (cases ?fallback)
          case True
          with eq show thesis by (intro served) simp_all
        next
          case False
          with eq show thesis by (intro refused [of e]) simp_all
        qed
      next
        case True
        show thesis
        proof (cases g)
          case (Inl e)
          have "mintOne env lo now key n p cid sec m =
            (if ?fallback then Inr (st_result st) else Inl e,
             m4\<lparr>mi_state := put key (failed_state env now p e st) (mi_state m4)\<rparr>, q)"
            using stale opened True a c g Inl by (auto simp: mintOne_def s l Let_def failed_state_def)
          with assms(1) have "r = (if ?fallback then Inr (st_result st) else Inl e)"
            "m' = m4\<lparr>mi_state := put key (failed_state env now p e st) (mi_state m4)\<rparr>" "sent = q" by simp_all
          with g m1 m2 m4 cl Inl show thesis by (intro failed [OF stale opened cl(1), of e]) simp_all
        next
          case (Inr resp)
          have "mintOne env lo now key n p cid sec m =
            (Inr (resultFrom env now p resp),
             m4\<lparr>mi_state := put key (minted_state now (resultFrom env now p resp) st) (mi_state m4)\<rparr>, q)"
            using stale opened True a c g Inr by (auto simp: mintOne_def s l Let_def minted_state_def)
          with assms(1) have "r = Inr (resultFrom env now p resp)"
            "m' = m4\<lparr>mi_state := put key (minted_state now (resultFrom env now p resp) st) (mi_state m4)\<rparr>" "sent = q"
            by simp_all
          with g m1 m2 m4 cl Inr show thesis by (intro minted [OF stale opened cl(1), of resp]) simp_all
        qed
      qed
    qed
  qed
qed

lemma minter_okD:
  assumes "minter_ok m"
  shows "distinct (map fst (mi_state m))" "(k, st) \<in> set (mi_state m) \<Longrightarrow> Config_Profile (mi_cfg m) (st_profileName st) \<noteq> None"
    "(n, c) \<in> set (mi_clients m) \<Longrightarrow> \<exists>t. c = newHTTPClient (mi_cfg m) t"
  using assms unfolding minter_ok_def by (blast, blast, blast)

lemma minter_ok_attempt:
  assumes ok: "minter_ok m1" and cfg: "mi_cfg m' = mi_cfg m1" and st: "mi_state m' = put key st' (mi_state m1)"
    and pr: "Config_Profile (mi_cfg m1) (st_profileName st') \<noteq> None"
    and cl: "set (mi_clients m') \<subseteq> insert (n, newHTTPClient (mi_cfg m1) t) (set (mi_clients m1))"
  shows "minter_ok m'"
  unfolding minter_ok_def
proof (intro conjI ballI)
  show "distinct (map fst (mi_state m'))" using minter_okD(1) [OF ok] by (simp add: st)
next
  fix x assume x: "x \<in> set (mi_state m')"
  obtain k s where ks: "x = (k, s)" by fastforce
  have "s = st' \<or> (k, s) \<in> set (mi_state m1)" using x set_put [of k s key st' "mi_state m1"] by (auto simp: ks st)
  then show "case x of (k, st) \<Rightarrow> Config_Profile (mi_cfg m') (st_profileName st) \<noteq> None"
    using minter_okD(2) [OF ok] pr by (auto simp: ks cfg)
next
  fix x assume x: "x \<in> set (mi_clients m')"
  obtain j c where jc: "x = (j, c)" by fastforce
  have "c = newHTTPClient (mi_cfg m1) t \<or> (j, c) \<in> set (mi_clients m1)" using x cl by (auto simp: jc)
  then show "case x of (n, c) \<Rightarrow> \<exists>t. c = newHTTPClient (mi_cfg m') t"
    using minter_okD(3) [OF ok] by (auto simp: jc cfg)
qed

lemma mintOne_ok:
  assumes ok: "minter_ok m" and n: "Config_Profile (mi_cfg m) n = Some p"
    and r: "mintOne env lo now key n p cid sec m = (r, m', sent)"
  shows "minter_ok m'" "mi_cfg m' = mi_cfg m"
proof -
  obtain st m1 where s: "stateFor key n m = (st, m1)" by fastforce
  have ok1: "minter_ok m1" and st: "Config_Profile (mi_cfg m) (st_profileName st) \<noteq> None"
    using stateFor_ok [OF ok, of n key] n s by simp_all
  have m1: "mi_cfg m1 = mi_cfg m" using stateFor_state(3) [of key n m] s by simp
  have attempt: "minter_ok m'"
    if "mi_state m' = put key st' (mi_state m1)" "st_profileName st' = st_profileName st" "mi_cfg m' = mi_cfg m"
      "c \<in> snd ` set (mi_clients m1) \<or> c = newHTTPClient (mi_cfg m) (pf_Timeout p)"
      "set (mi_clients m') \<subseteq> insert (n, c) (set (mi_clients m1))" for st' c
  proof -
    have "\<exists>t. c = newHTTPClient (mi_cfg m1) t" using that(4) minter_okD(3) [OF ok1] m1 by auto
    then obtain t where "c = newHTTPClient (mi_cfg m1) t" by blast
    then show ?thesis using that(1-3,5) m1 st by (intro minter_ok_attempt [OF ok1, where n = n and t = t and key = key and st' = st']) simp_all
  qed
  from r s have "minter_ok m' \<and> mi_cfg m' = mi_cfg m"
  proof (cases rule: mintOne_cases)
    case served
    with ok1 m1 show ?thesis by (simp add: minter_ok_def)
  next
    case (refused e)
    with ok1 m1 show ?thesis by (simp add: minter_ok_def)
  next
    case (failed c e)
    with attempt show ?thesis by simp
  next
    case (minted c resp)
    with attempt show ?thesis by simp
  qed
  then show "minter_ok m'" "mi_cfg m' = mi_cfg m" by simp_all
qed

lemma Mint_ok:
  assumes "minter_ok m" "Mint env lo now n cid sec m = (r, m', sent)"
  shows "minter_ok m'" "mi_cfg m' = mi_cfg m"
  using assms mintOne_ok by (auto simp: Mint_def split: option.splits)

lemma Sweep_ok:
  assumes "minter_ok m" "Sweep now m = (d, m')"
  shows "minter_ok m'" "mi_cfg m' = mi_cfg m"
  using assms by (auto simp: Sweep_def minter_ok_def distinct_map_filter)

section \<open>Runs\<close>

text \<open>
  What a minter is asked over time. Mints of one credential are collapsed by the
  single-flight group, so a run is a sequence; every event has its own
  environment, since answers and random numbers vary.
\<close>

datatype mint_event = EMint mint_env int string string string | ESweep int

fun event_time :: "mint_event \<Rightarrow> int" where
  "event_time (EMint env now n cid sec) = now"
| "event_time (ESweep now) = now"

text \<open>The grants a run sends, in order: key, time, client and request.\<close>

type_synonym grant = "string \<times> int \<times> mint_client \<times> http_req"

fun mint_run :: "'l limiter_ops \<Rightarrow> mint_event list \<Rightarrow> 'l Minter \<Rightarrow> grant list \<times> 'l Minter" where
  "mint_run lo [] m = ([], m)"
| "mint_run lo (EMint env now n cid sec # es) m =
     (let (r, m1, sent) = Mint env lo now n cid sec m; (gs, m2) = mint_run lo es m1
      in ((case sent of None \<Rightarrow> [] | Some (c, q) \<Rightarrow> [(credentialKey env n cid, now, c, q)]) @ gs, m2))"
| "mint_run lo (ESweep now # es) m = mint_run lo es (snd (Sweep now m))"

text \<open>What is known of earlier attempts: still on record, or long enough ago.\<close>

definition attempt_since :: "int \<Rightarrow> mintState option \<Rightarrow> bool" where
  "attempt_since t os =
     (case os of None \<Rightarrow> False | Some st \<Rightarrow> (case st_lastMintAt st of None \<Rightarrow> False | Some t' \<Rightarrow> t \<le> t'))"

definition remembered :: "int \<Rightarrow> int \<Rightarrow> (string \<times> int) set \<Rightarrow> 'l Minter \<Rightarrow> bool" where
  "remembered D now past m \<longleftrightarrow>
     (\<forall>(k, t) \<in> past. t \<le> now \<and> (D \<le> now - t \<or> attempt_since t (map_of (mi_state m) k)))"

lemma rememberedD:
  assumes "remembered D now past m" "(k, t) \<in> past"
  shows "t \<le> now" "D \<le> now - t \<or> attempt_since t (map_of (mi_state m) k)"
  using assms unfolding remembered_def by (blast, blast)

lemma rememberedI:
  assumes "\<And>k t. (k, t) \<in> past \<Longrightarrow> t \<le> now" "\<And>k t. (k, t) \<in> past \<Longrightarrow> D \<le> now - t \<or> attempt_since t (map_of (mi_state m) k)"
  shows "remembered D now past m"
  using assms unfolding remembered_def by blast

lemma remembered_later:
  assumes "remembered D now past m" "now \<le> now'"
  shows "remembered D now' past m"
proof (rule rememberedI)
  fix k t assume kt: "(k, t) \<in> past"
  from rememberedD [OF assms(1) kt] assms(2) show "t \<le> now'" "D \<le> now' - t \<or> attempt_since t (map_of (mi_state m) k)"
    by auto
qed

lemma gate_open:
  "gate now p st = None \<Longrightarrow> st_lastMintAt st = Some t \<Longrightarrow> pf_MinRefreshInterval p \<le> now - t"
  by (auto simp: gate_def split: if_splits option.splits)

definition slow_profiles :: "int \<Rightarrow> MintConfig \<Rightarrow> bool" where
  "slow_profiles D cfg \<longleftrightarrow> (\<forall>(n, p) \<in> set (mc_Profiles cfg). D \<le> pf_MinRefreshInterval p \<and> D \<le> pf_IdleTTL p)"

lemma remembered_mintOne:
  assumes rem: "remembered D now past m" and D: "D \<le> pf_MinRefreshInterval p"
    and r: "mintOne env lo now key n p cid sec m = (r, m', sent)"
  shows "remembered D now past m'"
    and "sent \<noteq> None \<Longrightarrow> (key, t) \<in> past \<Longrightarrow> D \<le> now - t"
    and "sent \<noteq> None \<Longrightarrow> \<exists>st. map_of (mi_state m') key = Some st \<and> st_lastMintAt st = Some now"
proof -
  obtain st m1 where s: "stateFor key n m = (st, m1)" by fastforce
  have other: "map_of (mi_state m1) j = map_of (mi_state m) j" if "j \<noteq> key" for j
    using stateFor_state(2) [OF that, of n m] s by simp
  have here: "map_of (mi_state m1) key = Some st" using stateFor_state(1) [of key n m] s by simp
  have known: "D \<le> now - t \<or> attempt_since t (Some st)" if "(key, t) \<in> past" for t
    using rememberedD(2) [OF rem that] stateFor_state(4) [of m key _ n] s
    by (cases "map_of (mi_state m) key") (auto simp: attempt_since_def)
  have rem1: "remembered D now past m1"
  proof (rule rememberedI)
    fix k t assume kt: "(k, t) \<in> past"
    show "t \<le> now" by (rule rememberedD(1) [OF rem kt])
    show "D \<le> now - t \<or> attempt_since t (map_of (mi_state m1) k)"
      using rememberedD(2) [OF rem kt] known [of t] kt here other [of k] by (cases "k = key") simp_all
  qed
  have tried: "remembered D now past m'" if m': "mi_state m' = put key st' (mi_state m1)" "st_lastMintAt st' = Some now" for st'
  proof (rule rememberedI)
    fix k t assume kt: "(k, t) \<in> past"
    show t: "t \<le> now" by (rule rememberedD(1) [OF rem kt])
    show "D \<le> now - t \<or> attempt_since t (map_of (mi_state m') k)"
      using rememberedD(2) [OF rem1 kt] m' t by (cases "k = key") (simp_all add: attempt_since_def)
  qed
  have spaced: "D \<le> now - t" if "gate now p st = None" "(key, t) \<in> past" for t
    using known [OF that(2)] gate_open [OF that(1)] D by (fastforce simp: attempt_since_def split: option.splits)
  from r s have "remembered D now past m' \<and> (sent \<noteq> None \<longrightarrow> gate now p st = None \<and>
      (\<exists>st. map_of (mi_state m') key = Some st \<and> st_lastMintAt st = Some now))"
  proof (cases rule: mintOne_cases)
    case served
    with rem1 show ?thesis by (simp add: remembered_def)
  next
    case (refused e)
    with rem1 show ?thesis by (simp add: remembered_def)
  next
    case (failed c e)
    with tried show ?thesis by simp
  next
    case (minted c resp)
    with tried show ?thesis by simp
  qed
  with spaced show "remembered D now past m'" "sent \<noteq> None \<Longrightarrow> (key, t) \<in> past \<Longrightarrow> D \<le> now - t"
    "sent \<noteq> None \<Longrightarrow> \<exists>st. map_of (mi_state m') key = Some st \<and> st_lastMintAt st = Some now" by blast+
qed

lemma map_of_filter_Some:
  assumes "distinct (map fst xs)" "map_of xs k = Some v" "P (k, v)"
  shows "map_of (filter P xs) k = Some v"
  using assms by (intro map_of_is_SomeI) (auto simp: distinct_map_filter dest: map_of_SomeD)

lemma remembered_Sweep:
  assumes ok: "minter_ok m" and slow: "slow_profiles D (mi_cfg m)" and rem: "remembered D now past m"
  shows "remembered D now past (snd (Sweep now m))"
proof (rule rememberedI)
  fix k t assume kt: "(k, t) \<in> past"
  show "t \<le> now" by (rule rememberedD(1) [OF rem kt])
  show "D \<le> now - t \<or> attempt_since t (map_of (mi_state (snd (Sweep now m))) k)"
  proof (cases "D \<le> now - t")
    case False
    then obtain st t' where st: "map_of (mi_state m) k = Some st" "st_lastMintAt st = Some t'" "t \<le> t'"
      using rememberedD(2) [OF rem kt] by (auto simp: attempt_since_def split: option.splits)
    have "Config_Profile (mi_cfg m) (st_profileName st) \<noteq> None" using minter_okD(2) [OF ok] map_of_SomeD [OF st(1)] by blast
    then obtain p where p: "map_of (mc_Profiles (mi_cfg m)) (st_profileName st) = Some p" by (auto simp: Config_Profile_def)
    then have "D \<le> pf_IdleTTL p" using slow map_of_SomeD [OF p] by (auto simp: slow_profiles_def)
    then have "now - t' < pf_IdleTTL p" using False st(3) by linarith
    then have "\<not> sweep_drops (mi_cfg m) now st" using p st(2) by (simp add: sweep_drops_def ProfileRef_def)
    with minter_okD(1) [OF ok] st have "map_of (mi_state (snd (Sweep now m))) k = Some st"
      by (simp add: Sweep_def map_of_filter_Some)
    with st show ?thesis by (simp add: attempt_since_def)
  qed simp
qed

definition spaced :: "int \<Rightarrow> grant list \<Rightarrow> bool" where
  "spaced D gs \<longleftrightarrow> sorted_wrt (\<lambda>(k1, t1, _) (k2, t2, _). k1 = k2 \<longrightarrow> D \<le> t2 - t1) gs"

lemma mint_run_spaced:
  assumes "minter_ok m" "slow_profiles D (mi_cfg m)" "remembered D now past m"
    and "sorted (map event_time es)" "\<forall>e \<in> set es. now \<le> event_time e" "mint_run lo es m = (gs, m')"
  shows "(\<forall>(k, t, c, q) \<in> set gs. \<forall>t0. (k, t0) \<in> past \<longrightarrow> D \<le> t - t0) \<and> spaced D gs"
  using assms
proof (induction lo es m arbitrary: now past gs m' rule: mint_run.induct)
  case (1 lo m)
  then show ?case by (simp add: spaced_def)
next
  case (3 lo n es m)
  obtain d m1 where s: "Sweep n m = (d, m1)" by fastforce
  have rem: "remembered D n past m" using remembered_later [OF "3.prems"(3)] "3.prems"(5) by simp
  have m1: "minter_ok m1" "mi_cfg m1 = mi_cfg m" using Sweep_ok [OF "3.prems"(1) s] by simp_all
  have "remembered D n past m1" using remembered_Sweep [OF "3.prems"(1,2) rem] s by simp
  with 3 m1 s show ?case by simp
next
  case (2 lo env n pr cid sec es m)
  let ?key = "credentialKey env pr cid"
  obtain r m1 sent where mint: "Mint env lo n pr cid sec m = (r, m1, sent)" by (metis prod.exhaust)
  obtain gs1 m2 where run: "mint_run lo es m1 = (gs1, m2)" by fastforce
  let ?g = "case sent of None \<Rightarrow> [] | Some (c, q) \<Rightarrow> [(?key, n, c, q)]"
  have gs: "gs = ?g @ gs1" using "2.prems"(6) mint run by simp
  have rem: "remembered D n past m" using remembered_later [OF "2.prems"(3)] "2.prems"(5) by simp
  have m1: "minter_ok m1" "mi_cfg m1 = mi_cfg m" using Mint_ok [OF "2.prems"(1) mint] by simp_all
  let ?past = "if sent = None then past else insert (?key, n) past"
  have step: "remembered D n ?past m1 \<and> (\<forall>t. sent \<noteq> None \<longrightarrow> (?key, t) \<in> past \<longrightarrow> D \<le> n - t)"
  proof (cases "Config_Profile (mi_cfg m) pr")
    case None
    then show ?thesis using mint rem by (simp add: Mint_def)
  next
    case (Some p)
    then have D: "D \<le> pf_MinRefreshInterval p"
      using "2.prems"(2) map_of_SomeD by (fastforce simp: slow_profiles_def Config_Profile_def)
    have one: "mintOne env lo n ?key pr p cid sec m = (r, m1, sent)" using mint Some by (simp add: Mint_def)
    note o = remembered_mintOne [OF rem D one]
    have "remembered D n (insert (?key, n) past) m1" if "sent \<noteq> None"
      using o(1) o(3) [OF that] by (auto simp: remembered_def attempt_since_def)
    with o show ?thesis by auto
  qed
  have IH: "(\<forall>(k, t, c, q) \<in> set gs1. \<forall>t0. (k, t0) \<in> ?past \<longrightarrow> D \<le> t - t0) \<and> spaced D gs1"
    by (rule "2.IH" [OF mint [symmetric] refl refl m1(1) _ conjunct1 [OF step] _ _ run]) (use "2.prems" m1 in auto)
  show ?case
  proof (cases sent)
    case None
    with IH gs show ?thesis by auto
  next
    case (Some cq)
    with IH gs step show ?thesis by (auto simp: spaced_def split: prod.splits)
  qed
qed

section \<open>Where credentials go\<close>

lemma mint_dial_external:
  assumes "\<not> mc_AllowPrivate cfg" "mint_dial lookup cfg addr = Inr target"
  obtains host port a as where "SplitHostPort addr = Inr (host, port)" "lookup host = Inr (a # as)" "target = DialIP a port"
    "\<forall>x \<in> set (a # as). CheckInternalIP x AllInternalIPClasses = None"
  using assms that
  by (auto simp: mint_dial_def check_simps split: sum.splits list.splits option.splits prod.splits)

lemma buildGrantRequest_target:
  assumes "buildGrantRequest env p cid sec = Inr q"
  shows "hq_URL q = pf_TokenURL p" "hq_Method q = ''POST''"
  using assms
  by (auto simp: buildGrantRequest_def NewRequest_def Let_def split: if_splits sum.splits option.splits)

lemma doGrant_sent:
  assumes "doGrant env now c cfg p cid sec = (r, Some (c', q))"
  shows "c' = c" "hq_URL q = pf_TokenURL p" "hq_Method q = ''POST''"
  using assms buildGrantRequest_target by (auto simp: doGrant_def split: option.splits if_splits sum.splits)

definition sent_ok :: "MintConfig \<Rightarrow> grant \<Rightarrow> bool" where
  "sent_ok cfg g =
     (case g of (k, t, c, q) \<Rightarrow>
        (\<exists>n p. Config_Profile cfg n = Some p \<and> hq_URL q = pf_TokenURL p) \<and> hq_Method q = ''POST'' \<and>
        (\<exists>timeout. c = newHTTPClient cfg timeout))"

lemma Mint_sent:
  assumes ok: "minter_ok m" and mint: "Mint env lo now n cid sec m = (r, m', Some (c, q))"
  shows "sent_ok (mi_cfg m) (k, now, c, q)"
proof -
  obtain p where p: "Config_Profile (mi_cfg m) n = Some p"
    and one: "mintOne env lo now (credentialKey env n cid) n p cid sec m = (r, m', Some (c, q))"
    using mint by (auto simp: Mint_def split: option.splits)
  obtain st m1 where s: "stateFor (credentialKey env n cid) n m = (st, m1)" by fastforce
  have cl: "mi_clients m1 = mi_clients m" using stateFor_state(6) [of "credentialKey env n cid" n m] s by simp
  have known: "\<exists>t. c = newHTTPClient (mi_cfg m) t"
    if "c \<in> snd ` set (mi_clients m1) \<or> c = newHTTPClient (mi_cfg m) (pf_Timeout p)"
    using that minter_okD(3) [OF ok] cl by auto
  from one s show ?thesis
  proof (cases rule: mintOne_cases)
    case (failed c0 e)
    then show ?thesis using p known doGrant_sent [OF failed(4)] by (auto simp: sent_ok_def)
  next
    case (minted c0 resp)
    then show ?thesis using p known doGrant_sent [OF minted(4)] by (auto simp: sent_ok_def)
  qed simp_all
qed

lemma mint_run_sent:
  assumes "minter_ok m" "mint_run lo es m = (gs, m')" "g \<in> set gs"
  shows "sent_ok (mi_cfg m) g"
  using assms
proof (induction lo es m arbitrary: gs m' rule: mint_run.induct)
  case (1 lo m)
  then show ?case by simp
next
  case (3 lo n es m)
  obtain d m1 where s: "Sweep n m = (d, m1)" by fastforce
  have m1: "minter_ok m1" "mi_cfg m1 = mi_cfg m" using Sweep_ok [OF "3.prems"(1) s] by simp_all
  with 3 s show ?case by auto
next
  case (2 lo env n pr cid sec es m)
  obtain r m1 sent where mint: "Mint env lo n pr cid sec m = (r, m1, sent)" by (metis prod.exhaust)
  obtain gs1 m2 where run: "mint_run lo es m1 = (gs1, m2)" by fastforce
  have m1: "minter_ok m1" "mi_cfg m1 = mi_cfg m" using Mint_ok [OF "2.prems"(1) mint] by simp_all
  have gs: "gs = (case sent of None \<Rightarrow> [] | Some (c, q) \<Rightarrow> [(credentialKey env pr cid, n, c, q)]) @ gs1"
    using "2.prems"(2) mint run by simp
  show ?case
  proof (cases "g \<in> set gs1")
    case True
    with "2.IH" [OF mint [symmetric] refl refl m1(1) run] m1(2) show ?thesis by simp
  next
    case False
    then obtain c q where "sent = Some (c, q)" "g = (credentialKey env pr cid, n, c, q)"
      using "2.prems"(3) gs by (auto split: option.splits prod.splits)
    with Mint_sent [OF "2.prems"(1), of env lo n pr cid sec r m1 c q] mint show ?thesis by simp
  qed
qed

lemma Minter_New_ok:
  assumes "Minter_New (Some cfg) = Inr m"
  shows "minter_ok m" "mi_cfg m = cfg" "mi_state m = []"
  using assms by (auto simp: Minter_New_def minter_ok_def split: if_splits)



text \<open>
  The cache is keyed by profile and client identifier only: once a token has
  been obtained with one secret, a caller that presents any other secret for the
  same client identifier is served that token while it is fresh, and nothing is
  sent upstream that could check the secret.
\<close>

theorem Mint_ignores_secret:
  assumes "Mint env lo now n cid secret m = (Inr r, m', sent)" "Fresh now' r"
  shows "Mint env lo now' n cid secret' m' = (Inr r, m', None)"
proof -
  let ?key = "credentialKey env n cid"
  obtain p where p: "Config_Profile (mi_cfg m) n = Some p" and one: "mintOne env lo now ?key n p cid secret m = (Inr r, m', sent)"
    using assms(1) by (auto simp: Mint_def split: option.splits)
  obtain st m1 where s: "stateFor ?key n m = (st, m1)" by fastforce
  have here: "map_of (mi_state m1) ?key = Some st" using stateFor_state(1) [of ?key n m] s by simp
  from one s have "mi_cfg m' = mi_cfg m \<and> (\<exists>st'. map_of (mi_state m') ?key = Some st' \<and> st_hasResult st' \<and> st_result st' = r)"
  proof (cases rule: mintOne_cases)
    case served
    with here show ?thesis by simp
  next
    case (failed c e)
    then show ?thesis by (auto simp: failed_state_def split: if_splits)
  next
    case (minted c resp)
    then show ?thesis by (simp add: minted_state_def)
  qed simp
  then obtain st' where m': "mi_cfg m' = mi_cfg m" "map_of (mi_state m') ?key = Some st'" "st_hasResult st'" "st_result st' = r" by blast
  then have "stateFor ?key n m' = (st', m')" by (simp add: stateFor_def)
  with m' p assms(2) show ?thesis by (simp add: Mint_def mintOne_def)
qed

section \<open>Lifetimes\<close>

lemma lifetime_bounds:
  assumes h: "0 < pf_ExpiresInHaircut p" "pf_ExpiresInHaircut p \<le> 1" and e: "0 < e" "e < 2 ^ 53"
  shows "0 < lifetime_of env p e" "lifetime_of env p e \<le> e"
proof -
  let ?x = "of_int e * pf_ExpiresInHaircut p"
  have rep: "fl64 (of_int e) = of_int e" by (rule fl64_of_int [OF e])
  have x: "0 < ?x" "?x \<le> of_int e" using h e by (simp_all add: mult_left_le)
  have le: "fl64 ?x \<le> of_int e" by (rule fl64_le [OF x rep])
  have ge: "0 \<le> fl64 ?x" using fl64_nonneg x(1) by simp
  then have t: "truncate_rat (fl64 ?x) = \<lfloor>fl64 ?x\<rfloor>" by (simp add: truncate_rat_def)
  define n where "n = \<lfloor>fl64 ?x\<rfloor>"
  have n: "n \<le> e" "0 \<le> n" using le ge by (simp_all add: n_def floor_le_iff)
  then have "in_int64 n" using e by (simp add: in_int64_def)
  with n have "\<lfloor>fl64 ?x\<rfloor> \<le> e" "in_int64 \<lfloor>fl64 ?x\<rfloor>" by (simp_all add: n_def)
  then show "0 < lifetime_of env p e" "lifetime_of env p e \<le> e"
    using e(1) by (auto simp: lifetime_of_def rep f64_to_int64_def t Let_def)
qed

lemma fractional_seconds:
  assumes "0 < q" "q < 1"
  shows "\<not> f64_le_zero (Fin q)" "wrap64 (f64_to_int64 oob (Fin q) * go_second) = 0"
proof -
  have "\<lfloor>q\<rfloor> = 0" using assms by (simp add: floor_eq_iff)
  then show "\<not> f64_le_zero (Fin q)" "wrap64 (f64_to_int64 oob (Fin q) * go_second) = 0"
    using assms by (simp_all add: f64_le_zero_def f64_to_int64_def truncate_rat_def in_int64_def wrap64_def)
qed

lemma zero_lifetime: "gr_ExpiresIn resp = 0 \<Longrightarrow> \<not> Usable now (resultFrom env now p resp)"
  by (simp add: Usable_def resultFrom_def lifetime_of_def fl64_def f64_to_int64_def truncate_rat_def in_int64_def Let_def)

text \<open>Waiting after a failure: the fixed wait for rejected credentials, or one between half the base and the maximum.\<close>

lemma backoffFor_range:
  assumes ok: "0 < pf_ErrorBackoffBase p" "pf_ErrorBackoffBase p \<le> pf_ErrorBackoffMax p"
    and rand: "\<And>n. 0 < n \<Longrightarrow> 0 \<le> me_rand env n \<and> me_rand env n < n"
  shows "backoffFor env p e k = pf_AuthErrorBackoff p \<or>
    pf_ErrorBackoffBase p div 2 \<le> backoffFor env p e k \<and> backoffFor env p e k \<le> pf_ErrorBackoffMax p"
proof -
  have clamp: "pf_ErrorBackoffBase p \<le> clampDuration d (pf_ErrorBackoffBase p) (pf_ErrorBackoffMax p)"
    "clampDuration d (pf_ErrorBackoffBase p) (pf_ErrorBackoffMax p) \<le> pf_ErrorBackoffMax p" for d
    using ok by (auto simp: clampDuration_def)
  define d where "d = clampDuration (backoff_loop (nat (k - 1)) (pf_ErrorBackoffMax p) (pf_ErrorBackoffBase p)) (pf_ErrorBackoffBase p) (pf_ErrorBackoffMax p)"
  have d: "pf_ErrorBackoffBase p \<le> d" "d \<le> pf_ErrorBackoffMax p" using clamp by (simp_all add: d_def)
  have "0 \<le> me_rand env (d div 2 + 1) \<and> me_rand env (d div 2 + 1) < d div 2 + 1" using d ok by (intro rand) simp
  moreover have "pf_ErrorBackoffBase p div 2 \<le> d div 2" using d(1) by (rule zdiv_mono1) simp
  moreover have "d div 2 + d div 2 \<le> d" by simp
  ultimately have grown: "pf_ErrorBackoffBase p div 2 \<le> half_toward_zero d + me_rand env (half_toward_zero d + 1)"
    "half_toward_zero d + me_rand env (half_toward_zero d + 1) \<le> pf_ErrorBackoffMax p"
    using d ok by (simp_all add: half_toward_zero_def)
  have half: "pf_ErrorBackoffBase p div 2 \<le> pf_ErrorBackoffBase p" using ok by simp
  show ?thesis
  proof (cases e)
    case (Upstream st ra msg)
    then show ?thesis
      using grown clamp [of ra] half by (auto simp: backoffFor_def d_def [symmetric] Let_def intro: order_trans)
  qed (use grown in \<open>auto simp: backoffFor_def d_def [symmetric] Let_def\<close>)
qed


section \<open>Examples\<close>

definition demo_endpoint :: Profile where
  "demo_endpoint = mint_profile_defaults
     \<lparr>pf_TokenURL = ''https://idp.ru/t'', pf_BodyStyle = ''form'', pf_StaticParams = [], pf_ClientIDParam = [],
      pf_ClientSecretParam = [], pf_AccessTokenPath = [], pf_ExpiresInPath = [], pf_TokenTypePath = [],
      pf_ExpectedTokenType = [], pf_DefaultExpiresIn = 0, pf_ExpiresInHaircut = 1, pf_RefreshMargin = 0,
      pf_MinRefreshInterval = 0, pf_ErrorBackoffBase = 0, pf_ErrorBackoffMax = 0, pf_AuthErrorBackoff = 0, pf_IdleTTL = 0,
      pf_Timeout = 0, pf_MaxResponseBytes = 0, pf_MaxMintsPerMinute = 0, pf_SecretRefScopeSegments = 0\<rparr>"

definition demo_mint_cfg :: MintConfig where
  "demo_mint_cfg = \<lparr>mc_AllowedHosts = [''idp.ru''], mc_AllowPrivate = False, mc_Profiles = [(''p'', demo_endpoint)], mc_allowed = [''idp.ru'']\<rparr>"

definition demo_limiter :: "unit limiter_ops" where
  "demo_limiter = \<lparr>lo_new = (\<lambda>_ _. ()), lo_allow = (\<lambda>_ _. (True, ()))\<rparr>"

text \<open>An upstream that always grants.\<close>

definition demo_mint_env :: mint_env where
  "demo_mint_env =
     \<lparr>me_net = (\<lambda>_ _. Inr \<lparr>hr_Status = 200, hr_Header = Map.empty, hr_Body = Inr ''{}''\<rparr>),
      me_marshal = (\<lambda>_. Inr []), me_unmarshal = (\<lambda>_. Some (JObject [(''access_token'', JString ''tok'')])),
      me_error_field = (\<lambda>_. None), me_ParseFloat = (\<lambda>_. None), me_oob = (\<lambda>_. 0), me_ParseTime = (\<lambda>_. None),
      me_sha = id, me_rand = (\<lambda>_. 0)\<rparr>"

lemmas demo_endpoint_eval = demo_endpoint_def mint_profile_defaults_def default_str_def default_pos_def

lemma demo_url:
  "url_Parse ''https://idp.ru/t'' = Some (empty_url\<lparr>Scheme := ''https'', Host := ''idp.ru'', Path := ''/t''\<rparr>)"
  by (simp add: url_Parse_def parse_no_fragment_def cut_before_def getScheme_def parseAuthority_def parseHost_def last_index_def
      empty_url_def has_prefix_def is_alpha_def is_digit_def byte_def host_byte_def lower_byte_def)

lemma demo_host: "HostAllowed demo_mint_cfg ''idp.ru''"
  by (simp add: HostAllowed_def demo_mint_cfg_def trim_space_ascii byte_def lower_byte_def)

lemma demo_hostname: "Hostname (empty_url\<lparr>Scheme := ''https'', Host := ''idp.ru'', Path := ''/t''\<rparr>) = ''idp.ru''"
  by (simp add: Hostname_def last_index_def has_prefix_def)

lemma demo_validate: "Mint_Validate demo_mint_cfg = (None, demo_mint_cfg)"
proof -
  have d: "mint_profile_defaults demo_endpoint = demo_endpoint"
    by (simp add: demo_endpoint_eval BodyStyleJSON_def)
  have a: "allowed_set [''idp.ru''] = [''idp.ru'']"
    by (simp add: allowed_set_def trim_space_ascii byte_def lower_byte_def)
  have v: "validateProfile demo_mint_cfg ''p'' demo_endpoint = None"
    using demo_host demo_hostname
    by (simp add: validateProfile_def demo_endpoint_eval demo_url trim_space_ascii byte_def fail_if_def BodyStyleForm_def
        demo_mint_cfg_def empty_url_def)
  have "(mint_applyDefaults demo_mint_cfg)\<lparr>mc_allowed := allowed_set (mc_AllowedHosts demo_mint_cfg)\<rparr> = demo_mint_cfg"
    by (simp add: mint_applyDefaults_def demo_mint_cfg_def d a)
  with v show ?thesis by (simp add: Mint_Validate_def Let_def check_simps) (simp add: demo_mint_cfg_def wrap_err_def)
qed

definition demo_minter :: "unit Minter" where
  "demo_minter = \<lparr>mi_cfg = demo_mint_cfg, mi_state = [], mi_limiters = [], mi_clients = []\<rparr>"

lemma demo_new: "Minter_New (Some demo_mint_cfg) = Inr demo_minter"
  by (simp add: Minter_New_def demo_mint_cfg_def demo_minter_def)

definition demo_grant :: grantResponse where
  "demo_grant = \<lparr>gr_AccessToken = ''tok'', gr_TokenType = [], gr_ExpiresIn = 15 * go_minute\<rparr>"

lemma demo_doGrant:
  "\<exists>q. doGrant demo_mint_env now c demo_mint_cfg demo_endpoint ''id'' sec = (Inr demo_grant, Some (c, q))"
proof -
  have url: "pf_TokenURL demo_endpoint = ''https://idp.ru/t''" by (simp add: demo_endpoint_eval)
  obtain q where q: "buildGrantRequest demo_mint_env demo_endpoint ''id'' sec = Inr q"
    by (simp add: buildGrantRequest_def url demo_url NewRequest_def Let_def)
      (simp add: demo_endpoint_eval BodyStyleForm_def)
  have p: "parseGrantResponse demo_mint_env demo_endpoint ''{}'' = Inr demo_grant"
    by (simp add: parseGrantResponse_def demo_mint_env_def lookupString_def lookupNumber_def lookupPath_def demo_endpoint_eval demo_grant_def)
  have n: "me_net demo_mint_env c q = Inr \<lparr>hr_Status = 200, hr_Header = Map.empty, hr_Body = Inr ''{}''\<rparr>"
    by (simp add: demo_mint_env_def)
  have m: "pf_MaxResponseBytes demo_endpoint = 65536" by (simp add: demo_endpoint_eval)
  show ?thesis
    by (rule exI [of _ q]) (simp add: doGrant_def url demo_url demo_hostname demo_host q n p m read_limited_def wrap64_def)
qed

lemma demo_lifetime: "lifetime_of demo_mint_env demo_endpoint (15 * go_minute) = 15 * go_minute"
proof -
  have "fl64 (of_int (15 * go_minute)) = of_int (15 * go_minute)" by (rule fl64_of_int) simp_all
  then have "fl64 (fl64 (of_int (15 * go_minute)) * pf_ExpiresInHaircut demo_endpoint) = of_int (15 * go_minute)"
    by (simp add: demo_endpoint_eval)
  then show ?thesis by (simp add: lifetime_of_def f64_to_int64_def truncate_rat_def in_int64_def)
qed

definition demo_token :: Result where
  "demo_token = \<lparr>rs_AccessToken = ''tok'', rs_TokenType = [], rs_RefreshAfter = Some (10 * go_minute), rs_HardExpiry = Some (15 * go_minute)\<rparr>"

lemma demo_result: "resultFrom demo_mint_env 0 demo_endpoint demo_grant = demo_token"
  using demo_lifetime by (simp add: resultFrom_def demo_grant_def demo_token_def demo_endpoint_eval)

lemma demo_mint:
  "\<exists>m c q. Mint demo_mint_env demo_limiter 0 ''p'' ''id'' sec demo_minter = (Inr demo_token, m, Some (c, q))"
proof -
  let ?c = "newHTTPClient demo_mint_cfg (pf_Timeout demo_endpoint)"
  obtain q where "doGrant demo_mint_env 0 ?c demo_mint_cfg demo_endpoint ''id'' sec = (Inr demo_grant, Some (?c, q))"
    using demo_doGrant by blast
  moreover have "Config_Profile demo_mint_cfg ''p'' = Some demo_endpoint" by (simp add: Config_Profile_def demo_mint_cfg_def)
  ultimately show ?thesis
    by (simp add: Mint_def mintOne_def demo_minter_def stateFor_def zero_state_def gate_def limiterFor_def clientFor_def
        demo_limiter_def demo_result Let_def)
qed

theorem Mint_ignores_secret_witness:
  "\<exists>m sent. Mint demo_mint_env demo_limiter 0 ''p'' ''id'' ''right'' demo_minter = (Inr demo_token, m, sent) \<and>
     Mint demo_mint_env demo_limiter go_minute ''p'' ''id'' ''wrong'' m = (Inr demo_token, m, None)"
proof -
  obtain m c q where m: "Mint demo_mint_env demo_limiter 0 ''p'' ''id'' ''right'' demo_minter = (Inr demo_token, m, Some (c, q))"
    using demo_mint by blast
  have "Fresh go_minute demo_token" by (simp add: Fresh_def demo_token_def)
  from Mint_ignores_secret [OF m this] m show ?thesis by blast
qed

definition demo_events :: "mint_event list" where
  "demo_events = [EMint demo_mint_env 0 ''p'' ''id'' ''s'', EMint demo_mint_env (20 * go_minute) ''p'' ''id'' ''s'']"

lemma demo_first_grant:
  "\<exists>c q gs m. mint_run demo_limiter demo_events demo_minter = ((credentialKey demo_mint_env ''p'' ''id'', 0, c, q) # gs, m)"
proof -
  obtain m c q where m: "Mint demo_mint_env demo_limiter 0 ''p'' ''id'' ''s'' demo_minter = (Inr demo_token, m, Some (c, q))"
    using demo_mint by blast
  obtain gs m2 where "mint_run demo_limiter [EMint demo_mint_env (20 * go_minute) ''p'' ''id'' ''s''] m = (gs, m2)" by fastforce
  with m show ?thesis by (simp only: demo_events_def mint_run.simps(2) [of _ _ 0]) simp
qed




end
