(* ===== verification/Redaction.thy ===== *)
theory Redaction
  imports GoJSON
begin

text \<open>
  Packages \<open>jsonredact\<close> and \<open>logutil\<close>: masking of JSON documents by path and by
  key, of query parameters, and of log attributes. The code masks documents in
  place; here each walk returns whether it matched and the masked document.
  Decoding and encoding JSON are parameters.
\<close>

section \<open>Sensitive keys (\<open>logutil/redact.go\<close>)\<close>

definition sensitiveKeys :: "string list" where
  "sensitiveKeys =
     [''authorization'', ''bearer'', ''token'', ''password'', ''key'', ''secret'', ''api_key'', ''api-key'', ''iam_token'',
      ''oauth_token'', ''cookie'', ''set-cookie'', ''x-api-key'', ''x-csar-authorization'']"

definition sensitive_substrings :: "string list" where
  "sensitive_substrings = [''token'', ''secret'', ''password'', ''bearer'', ''authorization'', ''api_key'', ''api-key'']"

definition IsSensitiveKey :: "string \<Rightarrow> bool" where
  "IsSensitiveKey key =
     (let lower = to_lower key
      in lower \<in> set sensitiveKeys \<or> list_ex (contains lower) sensitive_substrings)"

definition logRedacted :: string where "logRedacted = ''[REDACTED]''"

text \<open>A log attribute value: a group of attributes, or any other value (by its text).\<close>

datatype slog_value = SGroup "(string \<times> slog_value) list" | SText string

fun redactAttr :: "string \<times> slog_value \<Rightarrow> string \<times> slog_value" where
  "redactAttr (key, SGroup attrs) = (key, SGroup (map redactAttr attrs))"
| "redactAttr (key, SText t) = (if IsSensitiveKey key then (key, SText logRedacted) else (key, SText t))"

text \<open>A handler: the attributes it was given in advance, in order, with the groups opened in between.\<close>

datatype handler_step = WithAttrs "(string \<times> slog_value) list" | WithGroup string

record RedactingHandler =
  rh_inner :: "handler_step list"

definition NewRedactingHandler :: "handler_step list \<Rightarrow> RedactingHandler" where
  "NewRedactingHandler inner = \<lparr>rh_inner = inner\<rparr>"

definition Handler_WithAttrs :: "(string \<times> slog_value) list \<Rightarrow> RedactingHandler \<Rightarrow> RedactingHandler" where
  "Handler_WithAttrs attrs h = \<lparr>rh_inner = rh_inner h @ [WithAttrs (map redactAttr attrs)]\<rparr>"

definition Handler_WithGroup :: "string \<Rightarrow> RedactingHandler \<Rightarrow> RedactingHandler" where
  "Handler_WithGroup name h = \<lparr>rh_inner = rh_inner h @ [WithGroup name]\<rparr>"

text \<open>\<open>Handle\<close>: what the inner handler is given.\<close>

record slog_record =
  lr_Time :: int
  lr_Level :: int
  lr_Message :: string
  lr_Attrs :: "(string \<times> slog_value) list"

definition Handle :: "slog_record \<Rightarrow> RedactingHandler \<Rightarrow> handler_step list \<times> slog_record" where
  "Handle r h = (rh_inner h, r\<lparr>lr_Attrs := map redactAttr (lr_Attrs r)\<rparr>)"

section \<open>Documents (\<open>jsonredact/redact.go\<close>)\<close>

definition DefaultMask :: string where "DefaultMask = ''[REDACTED]''"

record RedactConfig =
  rc_PathFields :: "string list"
  rc_SensitiveKeys :: "string list"
  rc_Mask :: string

text \<open>A loop that walks the elements and reports whether any matched.\<close>

definition any_match :: "(bool \<times> 'a) list \<Rightarrow> bool" where
  "any_match rs = list_ex fst rs"

fun RedactPath :: "json \<Rightarrow> string list \<Rightarrow> string \<Rightarrow> bool \<times> json" where
  "RedactPath data [] msk = (False, data)"
| "RedactPath (JObject v) [p] msk =
     (if p \<in> fst ` set v then (True, JObject (map (\<lambda>(k, x). (k, if k = p then JString msk else x)) v))
      else (False, JObject v))"
| "RedactPath (JObject v) (p # q # path) msk =
     (if p = ''*'' then
        (let rs = map (\<lambda>(k, x). (k, RedactPath x (q # path) msk)) v
         in (any_match (map snd rs), JObject (map (\<lambda>(k, r). (k, snd r)) rs)))
      else
        (let rs = map (\<lambda>(k, x). (k, if k = p then RedactPath x (q # path) msk else (False, x))) v
         in (any_match (map snd rs), JObject (map (\<lambda>(k, r). (k, snd r)) rs))))"
| "RedactPath (JArray v) (p # path) msk =
     (let rs = map (\<lambda>x. RedactPath x (if p = ''*'' then path else p # path) msk) v
      in (any_match rs, JArray (map snd rs)))"
| "RedactPath data (p # path) msk = (False, data)"

fun redactKeysWalk :: "string list \<Rightarrow> string \<Rightarrow> json \<Rightarrow> bool \<times> json" where
  "redactKeysWalk keys msk (JObject v) =
     (let rs = map (\<lambda>(k, x). (k, if to_lower k \<in> set keys then (True, JString msk) else redactKeysWalk keys msk x)) v
      in (any_match (map snd rs), JObject (map (\<lambda>(k, r). (k, snd r)) rs)))"
| "redactKeysWalk keys msk (JArray v) =
     (let rs = map (redactKeysWalk keys msk) v in (any_match rs, JArray (map snd rs)))"
| "redactKeysWalk keys msk data = (False, data)"

definition RedactKeys :: "json \<Rightarrow> string list \<Rightarrow> string \<Rightarrow> bool \<times> json" where
  "RedactKeys data keys msk = (if keys = [] then (False, data) else redactKeysWalk (map to_lower keys) msk data)"

fun RedactSensitiveKeys :: "string \<Rightarrow> json \<Rightarrow> bool \<times> json" where
  "RedactSensitiveKeys msk (JObject v) =
     (let rs = map (\<lambda>(k, x). (k, if IsSensitiveKey k then (True, JString msk) else RedactSensitiveKeys msk x)) v
      in (any_match (map snd rs), JObject (map (\<lambda>(k, r). (k, snd r)) rs)))"
| "RedactSensitiveKeys msk (JArray v) =
     (let rs = map (RedactSensitiveKeys msk) v in (any_match rs, JArray (map snd rs)))"
| "RedactSensitiveKeys msk data = (False, data)"

text \<open>\<open>ParseAndRedactJSON\<close>: \<open>Inr None\<close> is a nil message.\<close>

definition redact_document :: "RedactConfig \<Rightarrow> json \<Rightarrow> json" where
  "redact_document cfg data =
     (let msk = default_str DefaultMask (rc_Mask cfg);
          data1 = fold (\<lambda>f d. snd (RedactPath d (split_on (CHR ''.'') f) msk)) (rc_PathFields cfg) data
      in if rc_SensitiveKeys cfg \<noteq> [] then snd (RedactKeys data1 (rc_SensitiveKeys cfg) msk)
         else snd (RedactSensitiveKeys msk data1))"

definition ParseAndRedactJSON ::
  "(string \<Rightarrow> json res) \<Rightarrow> (json \<Rightarrow> string res) \<Rightarrow> string \<Rightarrow> RedactConfig \<Rightarrow> string option res" where
  "ParseAndRedactJSON unmarshal marshal raw cfg =
     (if raw = [] then Inr None
      else case unmarshal raw of
        Inl e \<Rightarrow> Inl e
      | Inr data \<Rightarrow> map_sum id Some (marshal (redact_document cfg data)))"

definition RedactQueryMap :: "(string \<times> string) list \<Rightarrow> string \<Rightarrow> string list \<Rightarrow> (string \<times> string) list" where
  "RedactQueryMap query msk extraKeys =
     map (\<lambda>(k, v). (k, if IsSensitiveKey k then msk
                       else if to_lower k \<in> set (map to_lower extraKeys) then msk else v)) query"

section \<open>What a key walk reveals\<close>

text \<open>Two documents that differ at most below sensitive keys.\<close>

fun low_equal :: "(string \<Rightarrow> bool) \<Rightarrow> json \<Rightarrow> json \<Rightarrow> bool" where
  "low_equal s (JObject v) (JObject w) = list_all2 (\<lambda>(k, x) (l, y). k = l \<and> (s k \<or> low_equal s x y)) v w"
| "low_equal s (JArray v) (JArray w) = list_all2 (low_equal s) v w"
| "low_equal s x y = (x = y)"

text \<open>Whether a sensitive key occurs at any depth outside the values of sensitive keys.\<close>

fun has_sensitive :: "(string \<Rightarrow> bool) \<Rightarrow> json \<Rightarrow> bool" where
  "has_sensitive s (JObject v) = list_ex (\<lambda>(k, x). s k \<or> has_sensitive s x) v"
| "has_sensitive s (JArray v) = list_ex (has_sensitive s) v"
| "has_sensitive s x = False"

lemma map_eq_list_all2: "map f v = map g w \<longleftrightarrow> list_all2 (\<lambda>x y. f x = g y) v w"
  by (simp add: list.rel_eq [symmetric] list.rel_map del: list.rel_eq)

text \<open>
  The contract of a walk that masks by key. The two walks of the package differ
  only in what they call sensitive.
\<close>

locale key_redaction =
  fixes walk :: "json \<Rightarrow> bool \<times> json" and s :: "string \<Rightarrow> bool" and msk :: string
  assumes walk_object: "walk (JObject v) =
      (let rs = map (\<lambda>(k, x). (k, if s k then (True, JString msk) else walk x)) v
       in (any_match (map snd rs), JObject (map (\<lambda>(k, r). (k, snd r)) rs)))"
    and walk_array: "walk (JArray xs) = (let rs = map walk xs in (any_match rs, JArray (map snd rs)))"
    and walk_leaf: "(\<forall>v. d \<noteq> JObject v) \<Longrightarrow> (\<forall>xs. d \<noteq> JArray xs) \<Longrightarrow> walk d = (False, d)"
begin

lemma walk_leaves [simp]:
  "walk JNull = (False, JNull)" "walk (JBool b) = (False, JBool b)" "walk (JNumber n) = (False, JNumber n)"
  "walk (JString t) = (False, JString t)"
  by (simp_all add: walk_leaf)

lemma masked_object: "snd (walk (JObject v)) = JObject (map (\<lambda>(k, x). (k, if s k then JString msk else snd (walk x))) v)"
  by (auto simp: walk_object Let_def)

lemma masked_array: "snd (walk (JArray v)) = JArray (map (\<lambda>x. snd (walk x)) v)"
  by (simp add: walk_array Let_def)

lemma masked_leaf [simp]:
  "snd (walk x) = JNull \<longleftrightarrow> x = JNull" "snd (walk x) = JBool b \<longleftrightarrow> x = JBool b"
  "snd (walk x) = JNumber n \<longleftrightarrow> x = JNumber n" "snd (walk x) = JString t \<longleftrightarrow> x = JString t"
  by (cases x; simp add: masked_object masked_array; fail)+

lemma matched_object: "fst (walk (JObject v)) \<longleftrightarrow> list_ex (\<lambda>(k, x). s k \<or> fst (walk x)) v"
  unfolding walk_object Let_def any_match_def by (induction v) (auto split: if_splits)

lemma matched_array: "fst (walk (JArray v)) \<longleftrightarrow> list_ex (\<lambda>x. fst (walk x)) v"
  by (auto simp: walk_array Let_def any_match_def list_ex_iff)

lemma matches: "fst (walk d) \<longleftrightarrow> has_sensitive s d"
proof -
  have "r = s \<Longrightarrow> fst (walk d) \<longleftrightarrow> has_sensitive r d" for r
  proof (induction r d rule: has_sensitive.induct)
    case (1 r v)
    then show ?case by (fastforce simp: matched_object list_ex_iff)
  next
    case (2 r v)
    then show ?case by (auto simp: matched_array list_ex_iff)
  qed simp_all
  then show ?thesis by blast
qed

lemma reveals: "snd (walk a) = snd (walk b) \<longleftrightarrow> low_equal s a b"
proof -
  have "r = s \<Longrightarrow> snd (walk a) = snd (walk b) \<longleftrightarrow> low_equal r a b" for r
  proof (induction r a b rule: low_equal.induct)
    case (1 r v w)
    have "list_all2 (\<lambda>p q. (case p of (k, x) \<Rightarrow> (k, if s k then JString msk else snd (walk x))) =
          (case q of (k, x) \<Rightarrow> (k, if s k then JString msk else snd (walk x)))) v w \<longleftrightarrow>
        list_all2 (\<lambda>(k, x) (l, y). k = l \<and> (r k \<or> low_equal r x y)) v w"
    proof (intro list.rel_cong refl)
      fix p q assume pq: "p \<in> set v" "q \<in> set w"
      show "((case p of (k, x) \<Rightarrow> (k, if s k then JString msk else snd (walk x))) =
          (case q of (k, x) \<Rightarrow> (k, if s k then JString msk else snd (walk x)))) =
        (case p of (k, x) \<Rightarrow> \<lambda>(l, y). k = l \<and> (r k \<or> low_equal r x y)) q"
        using "1.IH" [OF pq] "1.prems" by (cases p; cases q) auto
    qed
    then show ?case by (simp add: masked_object map_eq_list_all2)
  next
    case (2 r v w)
    have "list_all2 (\<lambda>x y. snd (walk x) = snd (walk y)) v w \<longleftrightarrow> list_all2 (low_equal r) v w"
      by (intro list.rel_cong refl) (use 2 in blast)
    then show ?case by (simp add: masked_array map_eq_list_all2)
  qed (auto simp: masked_object masked_array eq_commute [of _ "snd (walk _)"])
  then show ?thesis by blast
qed

text \<open>The masked document agrees with the original outside sensitive keys, and masking again changes nothing.\<close>

lemma masked_low_equal: "low_equal s d (snd (walk d))"
proof (induction d)
  case (JArray xs)
  then show ?case by (auto simp: masked_array list_all2_conv_all_nth)
next
  case (JObject v)
  have "\<And>k x. (k, x) \<in> set v \<Longrightarrow> low_equal s x (snd (walk x))" using JObject by fastforce
  then show ?case by (auto simp: masked_object list_all2_conv_all_nth split: prod.splits) (metis nth_mem)
qed simp_all

lemma masking_idempotent: "snd (walk (snd (walk d))) = snd (walk d)"
  using masked_low_equal [of d] reveals [of d "snd (walk d)"] by simp

end

interpretation keys: key_redaction "redactKeysWalk ks msk" "\<lambda>k. to_lower k \<in> set ks" msk for ks msk
proof
  show "redactKeysWalk ks msk d = (False, d)" if "\<forall>v. d \<noteq> JObject v" "\<forall>xs. d \<noteq> JArray xs" for d
    using that by (cases d) simp_all
qed simp_all

interpretation sensitive: key_redaction "RedactSensitiveKeys msk" IsSensitiveKey msk for msk
proof
  show "RedactSensitiveKeys msk d = (False, d)" if "\<forall>v. d \<noteq> JObject v" "\<forall>xs. d \<noteq> JArray xs" for d
    using that by (cases d) simp_all
qed simp_all

section \<open>What a redacted document reveals\<close>

definition redacted_key :: "RedactConfig \<Rightarrow> string \<Rightarrow> bool" where
  "redacted_key cfg k \<longleftrightarrow>
     (if rc_SensitiveKeys cfg = [] then IsSensitiveKey k else to_lower k \<in> set (map to_lower (rc_SensitiveKeys cfg)))"

lemma low_equal_object:
  "low_equal s (JObject v) b \<longleftrightarrow> (\<exists>w. b = JObject w \<and> list_all2 (\<lambda>(k, x) (l, y). k = l \<and> (s k \<or> low_equal s x y)) v w)"
  by (cases b) auto

lemma low_equal_array: "low_equal s (JArray v) b \<longleftrightarrow> (\<exists>w. b = JArray w \<and> list_all2 (low_equal s) v w)"
  by (cases b) auto

lemma low_equal_keys:
  "list_all2 (\<lambda>(k, x) (l, y). k = l \<and> (s k \<or> low_equal s x y)) v w \<Longrightarrow> map fst v = map fst w"
  by (induction rule: list_all2_induct) auto

lemma low_equal_refl: "low_equal s x x"
proof (induction x)
  case (JObject v)
  then show ?case by (auto simp: list_all2_same)
next
  case (JArray xs)
  then show ?case by (auto simp: list_all2_same)
qed simp_all

text \<open>Masking the same entries of two such objects keeps them so.\<close>

lemma low_equal_entries:
  assumes "list_all2 (\<lambda>(k, x) (l, y). k = l \<and> (s k \<or> low_equal s x y)) v w"
    and "\<And>k x y. (k, x) \<in> set v \<Longrightarrow> (k, y) \<in> set w \<Longrightarrow> low_equal s x y \<Longrightarrow> low_equal s (f k x) (f k y)"
  shows "low_equal s (JObject (map (\<lambda>(k, x). (k, f k x)) v)) (JObject (map (\<lambda>(k, y). (k, f k y)) w))"
  unfolding low_equal.simps list.rel_map
  by (rule list.rel_mono_strong [OF assms(1)]) (use assms(2) in auto)

lemma RedactPath_low_equal: "low_equal s a b \<Longrightarrow> low_equal s (snd (RedactPath a path msk)) (snd (RedactPath b path msk))"
proof (induction a path msk arbitrary: b rule: RedactPath.induct)
  case (2 v p msk)
  then obtain w where w: "b = JObject w" "list_all2 (\<lambda>(k, x) (l, y). k = l \<and> (s k \<or> low_equal s x y)) v w"
    by (auto simp: low_equal_object)
  have "p \<in> fst ` set v \<longleftrightarrow> p \<in> fst ` set w" using low_equal_keys [OF w(2)] by (metis set_map)
  moreover have "low_equal s (JObject (map (\<lambda>(k, x). (k, if k = p then JString msk else x)) v))
      (JObject (map (\<lambda>(k, x). (k, if k = p then JString msk else x)) w))"
    by (rule low_equal_entries [OF w(2), where f = "\<lambda>k x. if k = p then JString msk else x"]) simp
  ultimately show ?case using w 2 by simp
next
  case (3 v p q path msk)
  then obtain w where w: "b = JObject w" "list_all2 (\<lambda>(k, x) (l, y). k = l \<and> (s k \<or> low_equal s x y)) v w"
    by (auto simp: low_equal_object)
  let ?f = "\<lambda>k x. if p = ''*'' \<or> k = p then snd (RedactPath x (q # path) msk) else x"
  have eq: "snd (RedactPath (JObject u) (p # q # path) msk) = JObject (map (\<lambda>(k, x). (k, ?f k x)) u)" for u
    by (auto simp: Let_def)
  have "low_equal s (?f k x) (?f k y)" if "(k, x) \<in> set v" "low_equal s x y" for k x y
    using "3.IH" that by (cases "p = ''*''"; cases "k = p") auto
  then show ?case unfolding eq w(1) by (intro low_equal_entries [OF w(2), where f = ?f]) blast
next
  case (4 v p path msk)
  then obtain w where w: "b = JArray w" "list_all2 (low_equal s) v w" by (auto simp: low_equal_array)
  have eq: "snd (RedactPath (JArray u) (p # path) msk) =
      JArray (map (\<lambda>x. snd (RedactPath x (if p = ''*'' then path else p # path) msk)) u)" for u
    by (simp add: Let_def)
  show ?case
    unfolding eq w(1) low_equal.simps list.rel_map
    by (rule list.rel_mono_strong [OF w(2)]) (use "4.IH" in blast)
qed auto

lemma redact_document_keys:
  "redact_document cfg data =
     (let msk = default_str DefaultMask (rc_Mask cfg);
          d = fold (\<lambda>f d. snd (RedactPath d (split_on (CHR ''.'') f) msk)) (rc_PathFields cfg) data
      in if rc_SensitiveKeys cfg \<noteq> [] then snd (redactKeysWalk (map to_lower (rc_SensitiveKeys cfg)) msk d)
         else snd (RedactSensitiveKeys msk d))"
  by (simp add: redact_document_def RedactKeys_def Let_def)

lemma paths_low_equal:
  "low_equal s a b \<Longrightarrow>
     low_equal s (fold (\<lambda>f d. snd (RedactPath d (split_on (CHR ''.'') f) msk)) fs a)
       (fold (\<lambda>f d. snd (RedactPath d (split_on (CHR ''.'') f) msk)) fs b)"
  by (induction fs arbitrary: a b) (auto intro: RedactPath_low_equal)

text \<open>
  C10: Redaction hides exactly what it should: two documents that differ only
  below sensitive keys, at any depth, have the same redacted form, whatever
  paths are masked in addition; and where no path is configured, documents that
  differ anywhere else remain distinguishable, so nothing else is lost.
\<close>

theorem redact_document_reveals:
  "(low_equal (redacted_key cfg) a b \<longrightarrow> redact_document cfg a = redact_document cfg b) \<and>
   (rc_PathFields cfg = [] \<longrightarrow> redact_document cfg a = redact_document cfg b \<longrightarrow> low_equal (redacted_key cfg) a b)"
proof -
  define walk where "walk = (if rc_SensitiveKeys cfg \<noteq> []
    then redactKeysWalk (map to_lower (rc_SensitiveKeys cfg)) (default_str DefaultMask (rc_Mask cfg))
    else RedactSensitiveKeys (default_str DefaultMask (rc_Mask cfg)))"
  have r: "snd (walk x) = snd (walk y) \<longleftrightarrow> low_equal (redacted_key cfg) x y" for x y
  proof (cases "rc_SensitiveKeys cfg = []")
    case True
    then have "redacted_key cfg = IsSensitiveKey" by (simp add: redacted_key_def fun_eq_iff)
    with True sensitive.reveals show ?thesis by (simp add: walk_def)
  next
    case False
    then have "redacted_key cfg = (\<lambda>k. to_lower k \<in> set (map to_lower (rc_SensitiveKeys cfg)))"
      by (auto simp: redacted_key_def fun_eq_iff)
    with False keys.reveals [of "map to_lower (rc_SensitiveKeys cfg)"] show ?thesis by (simp add: walk_def)
  qed
  have d: "redact_document cfg x =
      snd (walk (fold (\<lambda>f d. snd (RedactPath d (split_on (CHR ''.'') f) (default_str DefaultMask (rc_Mask cfg)))) (rc_PathFields cfg) x))" for x
    by (simp add: redact_document_keys walk_def Let_def)
  show ?thesis unfolding d r using paths_low_equal by auto
qed

definition demo_redaction :: RedactConfig where
  "demo_redaction = \<lparr>rc_PathFields = [], rc_SensitiveKeys = [], rc_Mask = []\<rparr>"

theorem redact_document_reveals_witness:
  "redact_document demo_redaction (JObject [(''token'', JString ''a''), (''n'', JNull)]) =
     redact_document demo_redaction (JObject [(''token'', JString ''b''), (''n'', JNull)]) \<and>
   redact_document demo_redaction (JObject [(''n'', JString ''a'')]) \<noteq>
     redact_document demo_redaction (JObject [(''n'', JString ''b'')])"
proof -
  have s: "redacted_key demo_redaction ''token''"
    by (simp add: redacted_key_def demo_redaction_def IsSensitiveKey_def sensitiveKeys_def lower_byte_def byte_def)
  have n: "\<not> redacted_key demo_redaction ''n''"
    by (simp add: redacted_key_def demo_redaction_def IsSensitiveKey_def sensitiveKeys_def sensitive_substrings_def
        lower_byte_def byte_def contains_def has_prefix_def)
  have p: "rc_PathFields demo_redaction = []" by (simp add: demo_redaction_def)
  show ?thesis
    using redact_document_reveals [of demo_redaction "JObject [(''token'', JString ''a''), (''n'', JNull)]" "JObject [(''token'', JString ''b''), (''n'', JNull)]"]
      redact_document_reveals [of demo_redaction "JObject [(''n'', JString ''a'')]" "JObject [(''n'', JString ''b'')]"] s n p
    by auto
qed

text \<open>
  The leaves of log attributes with the key that decides over each: a leaf is
  masked by its own key only, not by the name of a group it is in.
\<close>

fun attr_leaves :: "string \<times> slog_value \<Rightarrow> (string \<times> string) list" where
  "attr_leaves (key, SGroup attrs) = concat (map attr_leaves attrs)"
| "attr_leaves (key, SText t) = [(key, t)]"

lemma redactAttr_leaves:
  "attr_leaves (redactAttr a) = map (\<lambda>(k, t). (k, if IsSensitiveKey k then logRedacted else t)) (attr_leaves a)"
proof (induction a rule: attr_leaves.induct)
  case (1 key attrs)
  then have "concat (map (attr_leaves \<circ> redactAttr) attrs) =
      map (\<lambda>(k, t). (k, if IsSensitiveKey k then logRedacted else t)) (concat (map attr_leaves attrs))"
    by (induction attrs) simp_all
  then show ?case by simp
qed simp

lemma redactAttr_idem: "redactAttr (redactAttr a) = redactAttr a"
  by (induction a rule: redactAttr.induct) (auto intro: map_idI)

lemma group_name_not_masked:
  "redactAttr (''authorization'', SGroup [(''value'', SText t)]) = (''authorization'', SGroup [(''value'', SText t)])"
  by (simp add: IsSensitiveKey_def sensitiveKeys_def sensitive_substrings_def lower_byte_def byte_def contains_def has_prefix_def)

text \<open>A path that ends in a wildcard masks nothing below an array.\<close>

lemma RedactPath_final_wildcard: "RedactPath (JArray xs) [''*''] msk = (False, JArray xs)"
proof -
  have "map (\<lambda>x. RedactPath x [] msk) xs = map (\<lambda>x. (False, x)) xs" by simp
  then show ?thesis by (simp add: Let_def any_match_def o_def list_ex_iff)
qed

end
