(* ===== verification/AuditEvents.thy ===== *)
theory AuditEvents
  imports GoFloat GoStrings
begin

text \<open>
  Audit events (\<open>audit/store.go\<close>): their preparation (\<open>identity.go\<close>), which gives an
  event its identity, and their validation (\<open>validate.go\<close>). UUIDs are 128-bit
  numbers; parsing, printing and drawing them is the business of the UUID library, a
  parameter. A time counts nanoseconds from Go's zero time.
\<close>

record Event =
  ev_ID :: string
  ev_Service :: string
  ev_Actor :: string
  ev_Action :: string
  ev_TargetType :: string
  ev_TargetID :: string
  ev_ScopeType :: string
  ev_ScopeID :: string
  ev_BeforeState :: string
  ev_AfterState :: string
  ev_Metadata :: string
  ev_RequestID :: string
  ev_ClientIP :: string
  ev_CreatedAt :: int

record uuid_lib =
  ul_Parse :: "string \<Rightarrow> nat option"
  ul_String :: "nat \<Rightarrow> string"

definition event_id_error :: go_error where
  "event_id_error = New ''audit: event ID must be a nonzero UUID''"

definition parseEventID :: "uuid_lib \<Rightarrow> string \<Rightarrow> nat res" where
  "parseEventID ul raw =
     (case ul_Parse ul raw of
        None \<Rightarrow> Inl event_id_error
      | Some uid \<Rightarrow> if uid = 0 then Inl event_id_error else Inr uid)"

definition ValidateEventID :: "uuid_lib \<Rightarrow> string \<Rightarrow> err" where
  "ValidateEventID ul raw =
     (if raw = [] then None else (case parseEventID ul raw of Inl e \<Rightarrow> Some e | Inr _ \<Rightarrow> None))"

text \<open>Byte slices are values here, so the copy is the event itself.\<close>

definition cloneEvent :: "Event \<Rightarrow> Event" where
  "cloneEvent e = e"

text \<open>\<open>t.UTC().Truncate(time.Microsecond)\<close>.\<close>

definition truncate_us :: "int \<Rightarrow> int" where
  "truncate_us t = t - t mod 1000"

text \<open>\<open>random\<close> is what \<open>uuid.NewRandom\<close> returns and \<open>now\<close> what \<open>time.Now\<close> does.\<close>

definition PrepareEvent :: "uuid_lib \<Rightarrow> nat res \<Rightarrow> int \<Rightarrow> Event option \<Rightarrow> Event res" where
  "PrepareEvent ul random now oevent =
     (case oevent of
        None \<Rightarrow> Inl (New ''audit: event is required'')
      | Some event \<Rightarrow>
          (let prepared = cloneEvent event
           in case (if ev_ID prepared = [] then random else parseEventID ul (ev_ID prepared)) of
                Inl e \<Rightarrow> Inl e
              | Inr uid \<Rightarrow>
                  (let created = (if ev_CreatedAt prepared = 0 then now else ev_CreatedAt prepared)
                   in Inr (prepared\<lparr>ev_ID := ul_String ul uid, ev_CreatedAt := truncate_us created\<rparr>))))"

definition MaxStateBytes :: int where "MaxStateBytes = 64 * 1024"
definition MaxMetadataBytes :: int where "MaxMetadataBytes = 16 * 1024"

text \<open>\<open>json.Valid\<close> is the argument \<open>valid\<close>.\<close>

definition ValidateEvent :: "uuid_lib \<Rightarrow> (string \<Rightarrow> bool) \<Rightarrow> Event option \<Rightarrow> err" where
  "ValidateEvent ul valid oe =
     (case oe of
        None \<Rightarrow> Some (New ''nil event'')
      | Some e \<Rightarrow>
          first_error
            [ValidateEventID ul (ev_ID e),
             fail_if (ev_Actor e = [] \<or> ev_Action e = [] \<or> ev_TargetType e = [] \<or> ev_ScopeType e = [])
               (New ''actor, action, target_type and scope_type are required''),
             each_check (\<lambda>raw. fail_if (length raw > 0 \<and> \<not> valid raw) (New ''event JSON fields must contain valid JSON''))
               [ev_BeforeState e, ev_AfterState e, ev_Metadata e],
             fail_if (int (length (ev_BeforeState e)) > MaxStateBytes \<or> int (length (ev_AfterState e)) > MaxStateBytes)
               (Errorf ''audit state exceeds %d bytes'' [ArgD MaxStateBytes]),
             fail_if (int (length (ev_Metadata e)) > MaxMetadataBytes)
               (Errorf ''audit metadata exceeds %d bytes'' [ArgD MaxMetadataBytes])])"

section \<open>Identity is kept across retries\<close>

text \<open>What the library documents: printing and parsing give the UUID back, and a drawn one is not nil.\<close>

definition uuid_ok :: "uuid_lib \<Rightarrow> bool" where
  "uuid_ok ul \<longleftrightarrow> (\<forall>u. ul_Parse ul (ul_String ul u) = Some u \<and> ul_String ul u \<noteq> [])"

lemma truncate_us_idem [simp]: "truncate_us (truncate_us t) = truncate_us t"
  unfolding truncate_us_def by (simp add: mod_diff_eq [symmetric])

lemma PrepareEvent_id:
  assumes "PrepareEvent ul (Inr u) now (Some e) = Inr p" "uuid_ok ul" "u \<noteq> 0"
  shows "\<exists>i. i \<noteq> 0 \<and> ev_ID p = ul_String ul i \<and> parseEventID ul (ev_ID p) = Inr i"
  using assms
  by (auto simp: PrepareEvent_def Let_def cloneEvent_def parseEventID_def uuid_ok_def split: if_splits option.splits)

text \<open>Preparing a prepared event changes nothing, whatever the clock and the random source say.\<close>

lemma PrepareEvent_idem:
  assumes "PrepareEvent ul (Inr u) now (Some e) = Inr p" "uuid_ok ul" "u \<noteq> 0" "ev_CreatedAt p \<noteq> 0"
  shows "PrepareEvent ul random now' (Some p) = Inr p"
proof -
  obtain i where i: "ev_ID p = ul_String ul i" "parseEventID ul (ev_ID p) = Inr i"
    using PrepareEvent_id [OF assms(1-3)] by blast
  have ne: "ev_ID p \<noteq> []" using i(1) assms(2) by (simp add: uuid_ok_def)
  have t: "truncate_us (ev_CreatedAt p) = ev_CreatedAt p"
    using assms(1) by (auto simp: PrepareEvent_def Let_def cloneEvent_def split: sum.splits)
  show ?thesis using i ne t assms(4) by (cases p) (simp add: PrepareEvent_def Let_def cloneEvent_def)
qed

lemma ValidateEvent_ok:
  "ValidateEvent ul valid (Some e) = None \<longleftrightarrow>
     (ev_ID e = [] \<or> (\<exists>i. ul_Parse ul (ev_ID e) = Some i \<and> i \<noteq> 0)) \<and>
     ev_Actor e \<noteq> [] \<and> ev_Action e \<noteq> [] \<and> ev_TargetType e \<noteq> [] \<and> ev_ScopeType e \<noteq> [] \<and>
     (\<forall>raw \<in> {ev_BeforeState e, ev_AfterState e, ev_Metadata e}. raw = [] \<or> valid raw) \<and>
     int (length (ev_BeforeState e)) \<le> MaxStateBytes \<and> int (length (ev_AfterState e)) \<le> MaxStateBytes \<and>
     int (length (ev_Metadata e)) \<le> MaxMetadataBytes"
  by (auto simp: ValidateEvent_def check_simps ValidateEventID_def parseEventID_def split: option.splits if_splits sum.splits)

end
