(* ===== verification/Utf8.thy ===== *)
theory Utf8
  imports GoHTTP
begin

text \<open>
  Go's \<open>unicode/utf8\<close> and the classes of \<open>unicode\<close> the code asks for: validity of
  a byte string, the runes a range loop sees, control characters and white space.
\<close>

section \<open>UTF-8\<close>

definition byte_in :: "nat \<Rightarrow> nat \<Rightarrow> char \<Rightarrow> bool" where
  "byte_in lo hi c \<longleftrightarrow> lo \<le> byte c \<and> byte c \<le> hi"

text \<open>The kind of rune a leading byte starts, by its length; 0 for a byte that starts none.\<close>

definition lead_len :: "char \<Rightarrow> nat" where
  "lead_len a =
     (if byte_in 0 127 a then 1 else if byte_in 194 223 a then 2 else if byte_in 224 239 a then 3
      else if byte_in 240 244 a then 4 else 0)"

text \<open>The second byte is restricted after some leading bytes, which excludes overlong forms and surrogates.\<close>

definition second_ok :: "char \<Rightarrow> char \<Rightarrow> bool" where
  "second_ok a b =
     byte_in (if byte a = 224 then 160 else if byte a = 240 then 144 else 128)
             (if byte a = 237 then 159 else if byte a = 244 then 143 else 191) b"

text \<open>The length of the rune a string starts with, 0 when it starts with none.\<close>

definition rune_len :: "string \<Rightarrow> nat" where
  "rune_len s =
     (case s of
        [] \<Rightarrow> 0
      | a # r \<Rightarrow>
          (let n = lead_len a; tail = take (n - 1) r
           in if length tail = n - 1 \<and> (n \<le> 1 \<or> second_ok a (hd tail)) \<and> list_all (byte_in 128 191) (tl tail)
              then n else 0))"

text \<open>\<open>utf8.ValidString\<close>.\<close>

function ValidString :: "string \<Rightarrow> bool" where
  "ValidString s =
     (if s = [] then True else if rune_len s = 0 then False else ValidString (drop (rune_len s) s))"
  by pat_completeness auto
termination
  by (relation "measure length") auto

declare ValidString.simps [simp del]

lemma ValidString_Nil [simp]: "ValidString []"
  by (subst ValidString.simps) simp

lemma lead_len_le: "lead_len a \<le> 4"
  by (simp add: lead_len_def)

lemma rune_len_bounds: "rune_len s \<le> 4 \<and> rune_len s \<le> length s"
proof (cases s)
  case (Cons a r)
  then show ?thesis using lead_len_le [of a] by (auto simp: rune_len_def Let_def)
qed (simp add: rune_len_def)

lemma rune_len_take: "0 < rune_len s \<Longrightarrow> rune_len s \<le> n \<Longrightarrow> rune_len (take n s) = rune_len s"
proof (cases s)
  case (Cons a r)
  assume p: "0 < rune_len s" "rune_len s \<le> n"
  then have l: "rune_len s = lead_len a" by (simp add: Cons rune_len_def Let_def split: if_splits)
  then obtain m where m: "n = Suc m" "lead_len a - 1 \<le> m" using p by (cases n) auto
  then have t: "take (lead_len a - 1) (take m r) = take (lead_len a - 1) r" by (simp add: min_absorb1)
  show ?thesis unfolding Cons m(1) take_Suc_Cons rune_len_def list.case Let_def t ..
qed (simp add: rune_len_def)

text \<open>Cutting valid text anywhere leaves it valid after dropping at most three more bytes.\<close>

lemma ValidString_cut:
  "ValidString s \<Longrightarrow> n \<le> length s \<Longrightarrow> \<exists>k \<le> 3. k \<le> n \<and> ValidString (take (n - k) s)"
proof (induction s arbitrary: n rule: ValidString.induct)
  case (1 s)
  show ?case
  proof (cases "n < rune_len s \<or> s = []")
    case True
    then have "n \<le> 3" using rune_len_bounds [of s] "1.prems"(2) by auto
    then show ?thesis by (intro exI [of _ n]) simp
  next
    case False
    let ?r = "rune_len s"
    have v: "0 < ?r" "ValidString (drop ?r s)" using "1.prems"(1) False ValidString.simps [of s] by (auto split: if_splits)
    have "n - ?r \<le> length (drop ?r s)" using "1.prems"(2) by simp
    from "1.IH" [OF _ _ v(2) this] False v obtain k where k: "k \<le> 3" "k \<le> n - ?r" "ValidString (take (n - ?r - k) (drop ?r s))"
      by auto
    have "rune_len (take (n - k) s) = ?r" using v(1) k(2) False by (intro rune_len_take) auto
    moreover have "drop ?r (take (n - k) s) = take (n - ?r - k) (drop ?r s)" by (simp add: drop_take add.commute)
    ultimately have "ValidString (take (n - k) s)" using k(3) v(1) by (subst ValidString.simps) simp
    with k show ?thesis by (intro exI [of _ k]) auto
  qed
qed

section \<open>Runes\<close>

text \<open>The code point a valid rune encodes: the payload of the leading byte, then six bits for each byte after it.\<close>

definition rune_value :: "string \<Rightarrow> nat" where
  "rune_value w =
     (case w of
        [] \<Rightarrow> 0
      | a # r \<Rightarrow>
          foldl (\<lambda>v c. v * 64 + byte c mod 64)
            (if r = [] then byte a else byte a mod (case length r of Suc 0 \<Rightarrow> 32 | Suc (Suc 0) \<Rightarrow> 16 | _ \<Rightarrow> 8)) r)"

text \<open>The runes of \<open>for _, r := range s\<close>; a byte that starts none counts as U+FFFD.\<close>

function runes :: "string \<Rightarrow> nat list" where
  "runes s =
     (if s = [] then []
      else if rune_len s = 0 then 0xFFFD # runes (tl s)
      else rune_value (take (rune_len s) s) # runes (drop (rune_len s) s))"
  by pat_completeness auto
termination
  by (relation "measure length") auto

declare runes.simps [simp del]

definition IsControl :: "nat \<Rightarrow> bool" where
  "IsControl r \<longleftrightarrow> r < 32 \<or> (127 \<le> r \<and> r < 160)"

definition IsSpace :: "nat \<Rightarrow> bool" where
  "IsSpace r \<longleftrightarrow>
     r \<in> {9, 10, 11, 12, 13, 32, 0x85, 0xA0, 0x1680, 0x2028, 0x2029, 0x202F, 0x205F, 0x3000} \<or> (0x2000 \<le> r \<and> r \<le> 0x200A)"

lemma rune_len_ascii: "byte c < 128 \<Longrightarrow> rune_len (c # s) = 1"
  by (simp add: rune_len_def lead_len_def byte_in_def Let_def)

lemma ValidString_ascii: "list_all (\<lambda>c. byte c < 128) s \<Longrightarrow> ValidString s"
  by (induction s) (simp_all add: ValidString.simps [of "_ # _"] rune_len_ascii)

lemma runes_ascii: "list_all (\<lambda>c. byte c < 128) s \<Longrightarrow> runes s = map byte s"
  by (induction s) (simp_all add: runes.simps rune_len_ascii rune_value_def)

end
