(* ===== verification/AuditHTTP.thy ===== *)
theory AuditHTTP
  imports Redaction AuditEvents Utf8
begin

text \<open>
  What an audit event keeps of an HTTP response (\<open>audit/http_response.go\<close>), and the
  redaction of free text it relies on (\<open>jsonredact/text.go\<close>). JSON coding, the
  parsing of media types and the replacement by the program's regular expressions are
  parameters; where text is cut is decided by UTF-8 validity.
\<close>

section \<open>Text\<close>

function drop_to_valid :: "string \<Rightarrow> string" where
  "drop_to_valid v = (if ValidString v then v else drop_to_valid (butlast v))"
  by pat_completeness auto
termination
proof (relation "measure length")
  fix v assume "\<not> ValidString v"
  then have "v \<noteq> []" by auto
  then show "(butlast v, v) \<in> measure length" by (simp add: length_greater_0_conv [symmetric] del: length_greater_0_conv)
qed simp

declare drop_to_valid.simps [simp del]

definition clipDiagnostic :: "string \<Rightarrow> nat \<Rightarrow> string" where
  "clipDiagnostic value limit = (if length value \<le> limit then value else drop_to_valid (take limit value))"

text \<open>\<open>strings.ReplaceAll\<close> for a non-empty old string: non-overlapping matches from the left.\<close>

function ReplaceAll :: "string \<Rightarrow> string \<Rightarrow> string \<Rightarrow> string" where
  "ReplaceAll s old new =
     (if old = [] \<or> s = [] then s
      else if has_prefix s old then new @ ReplaceAll (drop (length old) s) old new
      else hd s # ReplaceAll (tl s) old new)"
  by pat_completeness auto
termination
  by (relation "measure (\<lambda>(s, _, _). length s)") auto

declare ReplaceAll.simps [simp del]

text \<open>The six patterns of \<open>jsonredact/text.go\<close>, each replaced by its own template.\<close>

datatype text_pattern = CookieText | UrlCredentials | BearerText | CredentialText | JwtText | EmailText

definition RedactText :: "(text_pattern \<Rightarrow> string \<Rightarrow> string) \<Rightarrow> string \<Rightarrow> string list \<Rightarrow> string" where
  "RedactText rx value secrets =
     (let value = fold (\<lambda>secret v. if length secret \<ge> 8 then ReplaceAll v secret DefaultMask else v) secrets value
      in rx EmailText (rx JwtText (rx CredentialText (rx BearerText (rx UrlCredentials (rx CookieText value))))))"

section \<open>Captured responses\<close>

definition MaxHTTPInspectBytes :: nat where "MaxHTTPInspectBytes = 65536"
definition DefaultHTTPBodyBytes :: nat where "DefaultHTTPBodyBytes = 4096"

record HTTPResponse =
  hp_Version :: int
  hp_Status :: int
  hp_State :: string
  hp_OmissionReason :: string
  hp_ContentType :: string
  hp_Origin :: string
  hp_Stage :: string
  hp_DurationMS :: int
  hp_ObservedBytes :: int
  hp_CaptureComplete :: bool
  hp_Code :: string
  hp_Message :: string
  hp_Body :: string
  hp_FieldsOmitted :: bool

record HTTPResponseInput =
  hi_Status :: int
  hi_ContentType :: string
  hi_ContentEncoding :: string
  hi_Body :: string
  hi_ObservedBytes :: int
  hi_Complete :: bool
  hi_MaxBodyBytes :: int
  hi_Secrets :: "string list"
  hi_Redact :: RedactConfig

text \<open>A diagnostic value: text, a number, or nested fields.\<close>

datatype diag = DStr string | DNum int | DObj "(string \<times> diag) list"

text \<open>Decoding into a \<open>string\<close> accepts a string, and null, which leaves the empty string.\<close>

definition json_string :: "json \<Rightarrow> string option" where
  "json_string j = (case j of JString s \<Rightarrow> Some s | JNull \<Rightarrow> Some [] | _ \<Rightarrow> None)"

text \<open>Decoding into an \<open>int\<close> accepts the digits of an integer in range, which is how an integral number is encoded.\<close>

definition json_int :: "json \<Rightarrow> int option" where
  "json_int j =
     (case j of
        JNumber (Fin q) \<Rightarrow> if of_int \<lfloor>q\<rfloor> = q \<and> in_int64 \<lfloor>q\<rfloor> then Some \<lfloor>q\<rfloor> else None
      | _ \<Rightarrow> None)"

definition diagnostic_keys :: "string list" where
  "diagnostic_keys =
     [''code'', ''errorCode'', ''error_code'', ''error'', ''message'', ''error_description'', ''detail'', ''title'',
      ''description'', ''reason'', ''status'', ''request_id'', ''requestId'']"

text \<open>
  \<open>safeErrorFields\<close> at depth \<open>5 - n\<close>: below depth four nothing is kept. The second
  component tells whether something was left out.
\<close>

fun safeErrorFields :: "nat \<Rightarrow> (string \<Rightarrow> string) \<Rightarrow> (string \<times> json) list \<Rightarrow> (string \<times> diag) list \<times> bool" where
  "safeErrorFields 0 redact object = ([], True)"
| "safeErrorFields (Suc n) redact object =
     (let field = (\<lambda>key.
            case map_of object key of
              None \<Rightarrow> (None, False)
            | Some raw \<Rightarrow>
                (case json_string raw of
                   Some value \<Rightarrow> (Some (DStr (clipDiagnostic (redact value) DefaultHTTPBodyBytes)), False)
                 | None \<Rightarrow>
                     if key = ''error'' then
                       (case raw of
                          JObject nested \<Rightarrow>
                            (case safeErrorFields n redact nested of
                               (kept, nestedOmitted) \<Rightarrow> (if kept \<noteq> [] then Some (DObj kept) else None, nestedOmitted))
                        | _ \<Rightarrow> (None, False))
                     else if key = ''status'' then (map_option DNum (json_int raw), False)
                     else (None, False)));
          rs = map (\<lambda>key. (key, field key)) diagnostic_keys;
          out = concat (map (\<lambda>(key, v, _). case v of None \<Rightarrow> [] | Some d \<Rightarrow> [(key, d)]) rs)
      in (out, list_ex (\<lambda>(_, _, skipped). skipped) rs \<or> length out \<noteq> length object))"

fun diagnosticString :: "(string \<times> diag) list \<Rightarrow> string list \<Rightarrow> string" where
  "diagnosticString object [] = []"
| "diagnosticString object (key # keys) =
     (case map_of object key of
        Some (DStr v) \<Rightarrow> if v \<noteq> [] then v else diagnosticString object keys
      | _ \<Rightarrow> diagnosticString object keys)"

text \<open>JSON coding, the media type parser (which may give a type along with an error) and the patterns.\<close>

record capture_env =
  ca_unmarshal :: "string \<Rightarrow> json res"
  ca_marshal :: "json \<Rightarrow> string res"
  ca_indent :: "(string \<times> diag) list \<Rightarrow> string res"
  ca_media :: "string \<Rightarrow> string \<times> bool"
  ca_rx :: "text_pattern \<Rightarrow> string \<Rightarrow> string"

text \<open>The object that is inspected: redacted with the built-in keys, then with the route's, then decoded.\<close>

definition redacted_object :: "capture_env \<Rightarrow> HTTPResponseInput \<Rightarrow> (string \<times> json) list option" where
  "redacted_object env i =
     (let pass1 = ParseAndRedactJSON (ca_unmarshal env) (ca_marshal env) (hi_Body i)
                    \<lparr>rc_PathFields = rc_PathFields (hi_Redact i), rc_SensitiveKeys = [], rc_Mask = []\<rparr>;
          pass2 = (case pass1 of
                     Inr (Some r) \<Rightarrow>
                       if rc_SensitiveKeys (hi_Redact i) \<noteq> []
                       then ParseAndRedactJSON (ca_unmarshal env) (ca_marshal env) r (hi_Redact i) else pass1
                   | _ \<Rightarrow> pass1)
      in case pass2 of
           Inr (Some r) \<Rightarrow> (case ca_unmarshal env r of Inr (JObject kvs) \<Rightarrow> Some kvs | _ \<Rightarrow> None)
         | _ \<Rightarrow> None)"

text \<open>The part that fills code, message and body from the fields that were kept.\<close>

definition fill_diagnostics :: "capture_env \<Rightarrow> HTTPResponseInput \<Rightarrow> (string \<times> diag) list \<Rightarrow> HTTPResponse \<Rightarrow> HTTPResponse" where
  "fill_diagnostics env i safe out =
     (let code = diagnosticString safe [''code'', ''errorCode'', ''error_code'', ''error''];
          message = diagnosticString safe [''message'', ''error_description'', ''detail'', ''title'', ''description'', ''reason''];
          nested = (case map_of safe ''error'' of Some (DObj n) \<Rightarrow> n | _ \<Rightarrow> []);
          code = (if code = [] then diagnosticString nested [''code'', ''errorCode'', ''error_code''] else code);
          message = (if message = [] then diagnosticString nested [''message'', ''detail'', ''description'', ''reason''] else message);
          out = out\<lparr>hp_Code := clipDiagnostic code 256, hp_Message := clipDiagnostic message 1024\<rparr>
      in case ca_indent env safe of
           Inl _ \<Rightarrow> out\<lparr>hp_OmissionReason := ''encoding_error''\<rparr>
         | Inr body \<Rightarrow>
             (let limit = (if hi_MaxBodyBytes i \<le> 0 \<or> hi_MaxBodyBytes i > int DefaultHTTPBodyBytes
                           then DefaultHTTPBodyBytes else nat (hi_MaxBodyBytes i))
              in out\<lparr>hp_Body := clipDiagnostic body limit,
                     hp_State := (if length body > limit then ''truncated'' else ''captured'')\<rparr>))"

text \<open>The record every path starts from, with the media type filled in when it parses.\<close>

definition capture_base :: "capture_env \<Rightarrow> HTTPResponseInput \<Rightarrow> HTTPResponse" where
  "capture_base env i =
     (let out = \<lparr>hp_Version = 1, hp_Status = hi_Status i, hp_State = ''omitted'', hp_OmissionReason = [], hp_ContentType = [],
                 hp_Origin = ''unknown'', hp_Stage = [], hp_DurationMS = 0, hp_ObservedBytes = hi_ObservedBytes i,
                 hp_CaptureComplete = hi_Complete i, hp_Code = [], hp_Message = [], hp_Body = [], hp_FieldsOmitted = False\<rparr>
      in if snd (ca_media env (hi_ContentType i))
         then out\<lparr>hp_ContentType := clipDiagnostic (fst (ca_media env (hi_ContentType i))) 128\<rparr> else out)"

definition CaptureHTTPResponse :: "capture_env \<Rightarrow> HTTPResponseInput \<Rightarrow> HTTPResponse" where
  "CaptureHTTPResponse env i =
     (let out = capture_base env i;
          ct = fst (ca_media env (hi_ContentType i))
      in if \<not> hi_Complete i \<or> length (hi_Body i) > MaxHTTPInspectBytes then out\<lparr>hp_OmissionReason := ''inspection_limit''\<rparr>
         else if hi_ContentEncoding i \<noteq> [] \<and> \<not> EqualFold (hi_ContentEncoding i) ''identity''
         then out\<lparr>hp_OmissionReason := ''content_encoding''\<rparr>
         else if hi_Body i = [] then out\<lparr>hp_State := ''empty''\<rparr>
         else if ct \<noteq> ''application/json'' \<and> \<not> has_suffix ct ''+json'' then out\<lparr>hp_OmissionReason := ''content_type''\<rparr>
         else (case redacted_object env i of
                 None \<Rightarrow> out\<lparr>hp_OmissionReason := ''invalid_json_envelope''\<rparr>
               | Some object \<Rightarrow>
                   (case safeErrorFields 5 (\<lambda>v. RedactText (ca_rx env) v (hi_Secrets i)) object of
                      (safe, omitted) \<Rightarrow>
                        (let out = out\<lparr>hp_FieldsOmitted := omitted\<rparr>
                         in if safe = [] then out\<lparr>hp_OmissionReason := ''no_error_fields''\<rparr>
                            else fill_diagnostics env i safe out))))"

section \<open>Metadata\<close>

text \<open>A metadata map holds the caller's values, the response, and the marker for a dropped query.\<close>

datatype 'v meta_value = Base 'v | Response HTTPResponse | Flag bool

definition kept_meta_keys :: "string list" where
  "kept_meta_keys = [''http_status'', ''audit_mode'', ''http_response'', ''query_omitted'']"

definition encode_meta :: "((string \<times> 'v meta_value) list \<Rightarrow> string res) \<Rightarrow> (string \<times> 'v meta_value) list \<Rightarrow> string option" where
  "encode_meta marshal meta =
     (case marshal meta of
        Inl _ \<Rightarrow> None
      | Inr raw \<Rightarrow> if int (length raw) > MaxMetadataBytes then None else Some raw)"

definition EncodeHTTPMetadata :: "((string \<times> 'v meta_value) list \<Rightarrow> string res) \<Rightarrow> (string \<times> 'v) list \<Rightarrow> HTTPResponse option \<Rightarrow> string option" where
  "EncodeHTTPMetadata marshal base response =
     (let meta = map (\<lambda>(k, v). (k, Base v)) base;
          meta1 = (case response of None \<Rightarrow> meta | Some r \<Rightarrow> put ''http_response'' (Response r) meta)
      in case encode_meta marshal meta1 of
           Some raw \<Rightarrow> Some raw
         | None \<Rightarrow>
             (let meta2 = (case response of
                             None \<Rightarrow> meta1
                           | Some r \<Rightarrow> put ''http_response'' (Response (r\<lparr>hp_Body := [], hp_State := ''omitted'', hp_OmissionReason := ''metadata_budget''\<rparr>)) meta1)
              in case encode_meta marshal meta2 of
                   Some raw \<Rightarrow> Some raw
                 | None \<Rightarrow>
                     (let meta3 = put ''query_omitted'' (Flag True) (filter (\<lambda>(k, _). k \<noteq> ''query'') meta2)
                      in case encode_meta marshal meta3 of
                           Some raw \<Rightarrow> Some raw
                         | None \<Rightarrow> encode_meta marshal (filter (\<lambda>(k, _). k \<in> set kept_meta_keys) meta3))))"

lemma encode_meta_bound: "encode_meta marshal meta = Some raw \<Longrightarrow> int (length raw) \<le> MaxMetadataBytes"
  by (auto simp: encode_meta_def split: sum.splits if_splits)

text \<open>Whatever metadata is attached, it passes the event validation's size check.\<close>

lemma EncodeHTTPMetadata_bound:
  "EncodeHTTPMetadata marshal base response = Some raw \<Longrightarrow> int (length raw) \<le> MaxMetadataBytes"
  by (auto simp: EncodeHTTPMetadata_def Let_def dest: encode_meta_bound split: option.splits)

section \<open>What is kept is bounded and selected\<close>

lemma drop_to_valid_prefix: "\<exists>r. v = drop_to_valid v @ r"
proof (induction v rule: drop_to_valid.induct)
  case (1 v)
  show ?case
  proof (cases "ValidString v")
    case False
    with 1 obtain r where "butlast v = drop_to_valid v @ r" by (metis drop_to_valid.simps)
    moreover have "v = butlast v @ [last v]" using False by (cases v) auto
    ultimately show ?thesis by (metis append.assoc)
  qed (subst drop_to_valid.simps, simp)
qed

lemma drop_to_valid_valid: "ValidString (drop_to_valid v)"
  by (induction v rule: drop_to_valid.induct) (metis drop_to_valid.simps)

text \<open>The longest valid prefix: nothing valid is given away.\<close>

lemma drop_to_valid_longest: "ValidString (take n v) \<Longrightarrow> n \<le> length v \<Longrightarrow> n \<le> length (drop_to_valid v)"
proof (induction v rule: drop_to_valid.induct)
  case (1 v)
  show ?case
  proof (cases "ValidString v")
    case True
    then have "drop_to_valid v = v" by (subst drop_to_valid.simps) simp
    with 1 show ?thesis by simp
  next
    case False
    then have d: "drop_to_valid v = drop_to_valid (butlast v)" by (subst drop_to_valid.simps) simp
    have "n \<noteq> length v" using False "1.prems"(1) by auto
    then have "n \<le> length (butlast v)" using "1.prems"(2) by simp
    moreover from this have "take n (butlast v) = take n v" by (simp add: butlast_conv_take min_absorb1)
    ultimately show ?thesis unfolding d using "1.IH" [OF False] "1.prems"(1) by simp
  qed
qed

lemma clip_facts:
  shows clip_length: "length (clipDiagnostic v n) \<le> n"
    and clip_prefix: "\<exists>r. v = clipDiagnostic v n @ r"
    and clip_valid: "ValidString v \<Longrightarrow> ValidString (clipDiagnostic v n)"
    and clip_loss: "ValidString v \<Longrightarrow> n \<le> length v \<Longrightarrow> n \<le> length (clipDiagnostic v n) + 3"
proof -
  obtain r where r: "take n v = drop_to_valid (take n v) @ r" using drop_to_valid_prefix by blast
  then have "length (drop_to_valid (take n v)) \<le> length (take n v)" by (metis le_add1 length_append)
  then show "length (clipDiagnostic v n) \<le> n" by (simp add: clipDiagnostic_def)
  show "\<exists>r. v = clipDiagnostic v n @ r"
    using r by (auto simp: clipDiagnostic_def) (metis append.assoc append_take_drop_id)
  show "ValidString (clipDiagnostic v n)" if "ValidString v"
    using that by (simp add: clipDiagnostic_def drop_to_valid_valid)
  show "n \<le> length (clipDiagnostic v n) + 3" if v: "ValidString v" "n \<le> length v"
  proof -
    obtain k where k: "k \<le> 3" "k \<le> n" "ValidString (take (n - k) v)" using ValidString_cut [OF v] by blast
    then have "ValidString (take (n - k) (take n v))" by (simp add: min_absorb1)
    then have "n - k \<le> length (drop_to_valid (take n v))" by (rule drop_to_valid_longest) (use v in simp)
    with k(1,2) v(2) show ?thesis by (auto simp: clipDiagnostic_def)
  qed
qed

text \<open>Fields that may be kept: under a listed key, text of bounded length, a number, or such fields again.\<close>

fun diag_ok :: "nat \<Rightarrow> (string \<times> diag) list \<Rightarrow> bool" where
  "diag_ok 0 fds = (fds = [])"
| "diag_ok (Suc n) fds =
     (distinct (map fst fds) \<and>
      (\<forall>(k, d) \<in> set fds. k \<in> set diagnostic_keys \<and>
         (case d of DStr s \<Rightarrow> length s \<le> DefaultHTTPBodyBytes | DNum _ \<Rightarrow> True | DObj fs \<Rightarrow> diag_ok n fs)))"

lemma selected_keys:
  "map fst (concat (map (\<lambda>(key, v, _). case v of None \<Rightarrow> [] | Some d \<Rightarrow> [(key, d)]) (map (\<lambda>key. (key, f key)) ks))) =
     filter (\<lambda>k. fst (f k) \<noteq> None) ks"
  by (induction ks) (auto split: option.splits prod.splits)

lemma selected_fields:
  "(k, d) \<in> set (concat (map (\<lambda>(key, v, _). case v of None \<Rightarrow> [] | Some d \<Rightarrow> [(key, d)]) (map (\<lambda>key. (key, f key)) ks))) \<longleftrightarrow>
     k \<in> set ks \<and> fst (f k) = Some d"
  by (auto split: option.splits prod.splits simp: image_iff) (metis fst_conv prod.collapse)+

lemma safeErrorFields_ok: "diag_ok n (fst (safeErrorFields n redact object))"
proof (induction n arbitrary: object)
  case (Suc n)
  define f where "f = (\<lambda>key.
      case map_of object key of
        None \<Rightarrow> (None, False)
      | Some raw \<Rightarrow>
          (case json_string raw of
             Some value \<Rightarrow> (Some (DStr (clipDiagnostic (redact value) DefaultHTTPBodyBytes)), False)
           | None \<Rightarrow>
               if key = ''error'' then
                 (case raw of
                    JObject nested \<Rightarrow>
                      (case safeErrorFields n redact nested of
                         (kept, nestedOmitted) \<Rightarrow> (if kept \<noteq> [] then Some (DObj kept) else None, nestedOmitted))
                  | _ \<Rightarrow> (None, False))
               else if key = ''status'' then (map_option DNum (json_int raw), False)
               else (None, False)))"
  let ?out = "concat (map (\<lambda>(key, v, _). case v of None \<Rightarrow> [] | Some d \<Rightarrow> [(key, d)]) (map (\<lambda>key. (key, f key)) diagnostic_keys))"
  have out: "fst (safeErrorFields (Suc n) redact object) = ?out"
    unfolding f_def by (simp only: safeErrorFields.simps Let_def fst_conv)
  have dist: "distinct diagnostic_keys" by (simp add: diagnostic_keys_def)
  have "case d of DStr s \<Rightarrow> length s \<le> DefaultHTTPBodyBytes | DNum _ \<Rightarrow> True | DObj fs \<Rightarrow> diag_ok n fs"
    if "fst (f k) = Some d" for k d
    using that Suc.IH clip_length
    by (auto simp: f_def split: option.splits if_splits json.splits prod.splits diag.splits) (metis fst_conv)+
  note val = this
  have "k \<in> set diagnostic_keys \<and> (case d of DStr s \<Rightarrow> length s \<le> DefaultHTTPBodyBytes | DNum _ \<Rightarrow> True | DObj fs \<Rightarrow> diag_ok n fs)"
    if "(k, d) \<in> set ?out" for k d
    using that val unfolding selected_fields by blast
  then show ?case unfolding out diag_ok.simps selected_keys using dist by (intro conjI ballI) (simp, blast)
qed simp

lemma fill_diagnostics_facts:
  assumes "hp_State out = ''omitted''" "hp_Body out = []"
  shows "hp_ContentType (fill_diagnostics env i safe out) = hp_ContentType out"
    "length (hp_Code (fill_diagnostics env i safe out)) \<le> 256" "length (hp_Message (fill_diagnostics env i safe out)) \<le> 1024"
    "(hp_State (fill_diagnostics env i safe out) = ''omitted'' \<and> hp_Body (fill_diagnostics env i safe out) = []) \<or>
     (hp_State (fill_diagnostics env i safe out) \<in> {''captured'', ''truncated''} \<and>
      (\<exists>text. ca_indent env safe = Inr text \<and> hp_Body (fill_diagnostics env i safe out) =
         clipDiagnostic text (if 0 < hi_MaxBodyBytes i \<and> hi_MaxBodyBytes i \<le> 4096 then nat (hi_MaxBodyBytes i) else 4096)))"
  using assms clip_length
  by (auto simp: fill_diagnostics_def Let_def DefaultHTTPBodyBytes_def split: sum.splits)

lemma capture_base_facts:
  "hp_State (capture_base env i) = ''omitted''" "hp_Body (capture_base env i) = []" "hp_Code (capture_base env i) = []"
  "hp_Message (capture_base env i) = []" "length (hp_ContentType (capture_base env i)) \<le> 128"
  using clip_length by (simp_all add: capture_base_def Let_def)

text \<open>The ways a capture ends.\<close>

lemma CaptureHTTPResponse_cases:
  assumes "\<And>reason. P ((capture_base env i)\<lparr>hp_OmissionReason := reason\<rparr>)" "P ((capture_base env i)\<lparr>hp_State := ''empty''\<rparr>)"
    "\<And>omitted. P ((capture_base env i)\<lparr>hp_FieldsOmitted := omitted, hp_OmissionReason := ''no_error_fields''\<rparr>)"
    "\<And>object safe omitted.
       \<lbrakk>\<not> (\<not> hi_Complete i \<or> length (hi_Body i) > MaxHTTPInspectBytes);
        safeErrorFields 5 (\<lambda>v. RedactText (ca_rx env) v (hi_Secrets i)) object = (safe, omitted)\<rbrakk> \<Longrightarrow>
       P (fill_diagnostics env i safe ((capture_base env i)\<lparr>hp_FieldsOmitted := omitted\<rparr>))"
  shows "P (CaptureHTTPResponse env i)"
  unfolding CaptureHTTPResponse_def Let_def
  by (split if_split | rule conjI impI | split option.split prod.split | rule allI | rule assms | assumption)+


end
