(* ===== verification/Base64.thy ===== *)
theory Base64
  imports GoHTTP
begin

text \<open>
  The encodings JSON Web Keys are written in: big-endian bytes of a natural number
  (\<open>big.Int.Bytes\<close> and \<open>SetBytes\<close>) and the URL alphabet of \<open>encoding/base64\<close>,
  without padding on the way out and with it on the way in.
\<close>

section \<open>Bytes of a number\<close>

fun nat_bytes :: "nat \<Rightarrow> string" where
  "nat_bytes n = (if n = 0 then [] else nat_bytes (n div 256) @ [char_of (n mod 256)])"

declare nat_bytes.simps [simp del]

definition SetBytes :: "string \<Rightarrow> nat" where
  "SetBytes s = foldl (\<lambda>a c. a * 256 + byte c) 0 s"

lemma SetBytes_snoc: "SetBytes (s @ [c]) = SetBytes s * 256 + byte c"
  by (simp add: SetBytes_def)

lemma byte_char_mod: "byte (char_of n) = n mod 256"
  by (simp add: byte_def)

lemma SetBytes_nat_bytes [simp]: "SetBytes (nat_bytes n) = n"
proof (induction n rule: nat_bytes.induct)
  case (1 n)
  then show ?case
    by (subst nat_bytes.simps) (auto simp: SetBytes_snoc byte_char_mod, simp add: SetBytes_def)
qed

section \<open>The URL alphabet\<close>

definition b64_char :: "nat \<Rightarrow> char" where
  "b64_char n =
     (if n < 26 then char_of (65 + n)
      else if n < 52 then char_of (71 + n)
      else if n < 62 then char_of (n - 4)
      else if n = 62 then CHR ''-'' else CHR ''_'')"

definition b64_val :: "char \<Rightarrow> nat option" where
  "b64_val c =
     (let b = byte c
      in if 65 \<le> b \<and> b \<le> 90 then Some (b - 65)
         else if 97 \<le> b \<and> b \<le> 122 then Some (b - 71)
         else if 48 \<le> b \<and> b \<le> 57 then Some (b + 4)
         else if c = CHR ''-'' then Some 62
         else if c = CHR ''_'' then Some 63 else None)"

lemma b64_val_char [simp]: "n < 64 \<Longrightarrow> b64_val (b64_char n) = Some n"
proof -
  assume n: "n < 64"
  have d: "byte (CHR ''-'') = 45" "byte (CHR ''_'') = 95" by (simp_all add: byte_def)
  consider "n < 26" | "26 \<le> n" "n < 52" | "52 \<le> n" "n < 62" | "n = 62" | "n = 63" using n by linarith
  then show ?thesis by cases (auto simp: b64_char_def b64_val_def Let_def d)
qed

lemma b64_char_plain:
  assumes "n < 64"
  shows "b64_char n \<noteq> CHR ''=''" "b64_char n \<noteq> CHR 0x0A" "b64_char n \<noteq> CHR 0x0D" "b64_char n \<noteq> CHR ''.''"
proof -
  have "b64_val (b64_char n) \<noteq> None" using assms by simp
  moreover have "b64_val (CHR ''='') = None" "b64_val (CHR 0x0A) = None" "b64_val (CHR 0x0D) = None" "b64_val (CHR ''.'') = None"
    by (simp_all add: b64_val_def byte_def)
  ultimately show "b64_char n \<noteq> CHR ''=''" "b64_char n \<noteq> CHR 0x0A" "b64_char n \<noteq> CHR 0x0D" "b64_char n \<noteq> CHR ''.''"
    by metis+
qed

text \<open>A quantum: 24 bits, as three bytes or as four characters.\<close>

definition quantum :: "nat \<Rightarrow> string" where
  "quantum v = [b64_char (v div 262144), b64_char (v div 4096 mod 64), b64_char (v div 64 mod 64), b64_char (v mod 64)]"

definition quantum_bytes :: "nat \<Rightarrow> string" where
  "quantum_bytes v = [char_of (v div 65536), char_of (v div 256 mod 256), char_of (v mod 256)]"

text \<open>\<open>base64.RawURLEncoding.EncodeToString\<close>.\<close>

fun RawURLEncode :: "string \<Rightarrow> string" where
  "RawURLEncode [] = []"
| "RawURLEncode [a] = take 2 (quantum (byte a * 65536))"
| "RawURLEncode [a, b] = take 3 (quantum (byte a * 65536 + byte b * 256))"
| "RawURLEncode (a # b # c # s) = quantum (byte a * 65536 + byte b * 256 + byte c) @ RawURLEncode s"

text \<open>The value of four characters, none of them padding.\<close>

definition quantum_val :: "char \<Rightarrow> char \<Rightarrow> char \<Rightarrow> char \<Rightarrow> nat option" where
  "quantum_val a b c d =
     (case (b64_val a, b64_val b, b64_val c, b64_val d) of
        (Some w, Some x, Some y, Some z) \<Rightarrow> Some (((w * 64 + x) * 64 + y) * 64 + z)
      | _ \<Rightarrow> None)"

text \<open>
  \<open>base64.URLEncoding.DecodeString\<close>: line breaks are skipped, padding ends the
  input, and the unused bits of the last quantum are ignored.
\<close>

fun decode_quanta :: "string \<Rightarrow> string option" where
  "decode_quanta [] = Some []"
| "decode_quanta (a # b # c # d # s) =
     (if c = CHR ''='' \<and> d = CHR ''=''
      then if s = [] then map_option (take 1 \<circ> quantum_bytes) (quantum_val a b (b64_char 0) (b64_char 0)) else None
      else if d = CHR ''=''
      then if s = [] then map_option (take 2 \<circ> quantum_bytes) (quantum_val a b c (b64_char 0)) else None
      else (case (quantum_val a b c d, decode_quanta s) of
              (Some v, Some r) \<Rightarrow> Some (quantum_bytes v @ r)
            | _ \<Rightarrow> None))"
| "decode_quanta _ = None"

definition line_break :: "char \<Rightarrow> bool" where
  "line_break c \<longleftrightarrow> c = CHR 0x0A \<or> c = CHR 0x0D"

definition URLDecodeString :: "string \<Rightarrow> string res" where
  "URLDecodeString s =
     (case decode_quanta (filter (\<lambda>c. \<not> line_break c) s) of
        None \<Rightarrow> Inl (New ''illegal base64 data at input byte'')
      | Some bs \<Rightarrow> Inr bs)"

text \<open>\<open>base64URLDecode\<close> of \<open>jwtx/verify.go\<close>: missing padding is supplied by the length.\<close>

definition base64URLDecode :: "string \<Rightarrow> string res" where
  "base64URLDecode s =
     URLDecodeString
       (if length s mod 4 = 2 then s @ ''=='' else if length s mod 4 = 3 then s @ ''='' else s)"

section \<open>Round trip\<close>

lemma digits64:
  assumes "v < 16777216"
  shows "((v div 262144 * 64 + v div 4096 mod 64) * 64 + v div 64 mod 64) * 64 + v mod 64 = (v :: nat)"
proof -
  have "v div 64 div 64 div 64 = v div 262144" "v div 64 div 64 = v div 4096"
    by (simp_all flip: div_mult2_eq)
  then have "v div 262144 * 64 + v div 4096 mod 64 = v div 4096" "v div 4096 * 64 + v div 64 mod 64 = v div 64"
    by (metis div_mult_mod_eq)+
  then show ?thesis by simp
qed

lemma quantum_val_quantum:
  assumes "v < 16777216"
  shows "quantum_val (b64_char (v div 262144)) (b64_char (v div 4096 mod 64)) (b64_char (v div 64 mod 64)) (b64_char (v mod 64)) = Some v"
proof -
  have "v div 262144 < 64" using assms by (simp add: div_less_iff_less_mult)
  with digits64 [OF assms] show ?thesis by (simp add: quantum_val_def)
qed

lemma quantum_bytes_join:
  "quantum_bytes (byte a * 65536 + byte b * 256 + byte c) = [a, b, c]"
proof -
  let ?v = "byte a * 65536 + byte b * 256 + byte c"
  have bd: "byte a < 256" "byte b < 256" "byte c < 256" by simp_all
  have 1: "?v = byte c + (byte b + byte a * 256) * 256" by simp
  have d: "?v div 256 = byte b + byte a * 256" and m: "?v mod 256 = byte c"
    unfolding 1 using bd div_mult_self1 [of 256 "byte c" "byte b + byte a * 256"] by (simp_all only: mod_mult_self1) simp_all
  have "?v div 65536 = ?v div 256 div 256" by (simp flip: div_mult2_eq)
  also have "\<dots> = byte a" unfolding d using bd by simp
  finally show ?thesis using d m bd by (simp add: quantum_bytes_def)
qed

lemma join_bound: "byte a * 65536 + byte b * 256 + byte c < 16777216"
proof -
  have "byte a < 256" "byte b < 256" "byte c < 256" by simp_all
  then show ?thesis by linarith
qed

lemma chars_of_quantum:
  assumes "v < 16777216"
  shows "\<forall>c \<in> set (quantum v). c \<noteq> CHR ''='' \<and> \<not> line_break c \<and> c \<noteq> CHR ''.''"
proof -
  have "v div 262144 < 64" using assms by (simp add: div_less_iff_less_mult)
  then show ?thesis by (auto simp: quantum_def line_break_def b64_char_plain)
qed

lemma encode_chars: "\<forall>c \<in> set (RawURLEncode s). c \<noteq> CHR ''='' \<and> \<not> line_break c \<and> c \<noteq> CHR ''.''"
proof (induction s rule: RawURLEncode.induct)
  case (2 a)
  show ?case using chars_of_quantum [of "byte a * 65536"] join_bound [of a "CHR 0x00" "CHR 0x00"]
    by (auto simp: byte_def dest: in_set_takeD)
next
  case (3 a b)
  show ?case using chars_of_quantum [of "byte a * 65536 + byte b * 256"] join_bound [of a b "CHR 0x00"]
    by (auto simp: byte_def dest: in_set_takeD)
next
  case (4 a b c s)
  then show ?case using chars_of_quantum [OF join_bound [of a b c]] by auto
qed simp

definition with_padding :: "string \<Rightarrow> string" where
  "with_padding s = (if length s mod 4 = 2 then s @ ''=='' else if length s mod 4 = 3 then s @ ''='' else s)"

lemma decode_encode: "decode_quanta (with_padding (RawURLEncode s)) = Some s"
proof (induction s rule: RawURLEncode.induct)
  case (2 a)
  have z: "byte (CHR 0x00) = 0" by (simp add: byte_def)
  let ?v = "byte a * 65536 :: nat"
  have b: "?v < 16777216" using join_bound [of a "CHR 0x00" "CHR 0x00"] z by simp
  have "?v = 64 * (byte a * 1024)" "?v = 4096 * (byte a * 16)" by simp_all
  then have "?v mod 64 = 0" "?v div 64 mod 64 = 0"
    by (metis mod_mult_self1_is_0, simp add: mod_mult_self1_is_0)
  then show ?case
    using quantum_val_quantum [OF b] quantum_bytes_join [of a "CHR 0x00" "CHR 0x00"] z
    by (simp add: with_padding_def quantum_def)
next
  case (3 a b)
  have z: "byte (CHR 0x00) = 0" by (simp add: byte_def)
  let ?v = "byte a * 65536 + byte b * 256 :: nat"
  have bd: "?v < 16777216" using join_bound [of a b "CHR 0x00"] z by simp
  have "?v = 64 * (byte a * 1024 + byte b * 4)" by simp
  then have "?v mod 64 = 0" by (metis mod_mult_self1_is_0)
  moreover have "b64_char (?v div 64 mod 64) \<noteq> CHR ''=''" by (simp add: b64_char_plain)
  ultimately show ?case
    using quantum_val_quantum [OF bd] quantum_bytes_join [of a b "CHR 0x00"] z
    by (simp add: with_padding_def quantum_def)
next
  case (4 a b c s)
  let ?v = "byte a * 65536 + byte b * 256 + byte c"
  have p: "with_padding (quantum ?v @ RawURLEncode s) = quantum ?v @ with_padding (RawURLEncode s)"
    by (simp add: with_padding_def quantum_def)
  have "b64_char (?v mod 64) \<noteq> CHR ''=''" by (simp add: b64_char_plain)
  then show ?case
    unfolding RawURLEncode.simps p using 4 quantum_val_quantum [OF join_bound [of a b c]] quantum_bytes_join [of a b c]
    by (simp add: quantum_def)
qed (simp add: with_padding_def)

lemma base64_round_trip [simp]: "base64URLDecode (RawURLEncode s) = Inr s"
proof -
  have "filter (\<lambda>c. \<not> line_break c) (with_padding (RawURLEncode s)) = with_padding (RawURLEncode s)"
    using encode_chars [of s] by (auto simp: with_padding_def filter_id_conv line_break_def)
  then show ?thesis
    using decode_encode [of s] by (simp add: base64URLDecode_def URLDecodeString_def with_padding_def)
qed

text \<open>Decoding is not injective: the spare bits of a last quantum are dropped.\<close>

lemma base64_not_canonical: "base64URLDecode ''QQ'' = base64URLDecode ''QR''"
  by (simp add: base64URLDecode_def URLDecodeString_def line_break_def quantum_val_def b64_val_def byte_def
      quantum_bytes_def b64_char_def)

end
