(* ===== verification/Jwt.thy ===== *)
theory Jwt
  imports Base64 GoJSON GoHTTP
begin

text \<open>
  JSON Web Tokens (\<open>jwtx\<close>): verification of a compact token (\<open>verify.go\<close>), keys
  and key sets (\<open>jwk.go\<close>, \<open>kid.go\<close>, \<open>keys.go\<close>) and signing (\<open>sign.go\<close>). The
  primitives of Go's \<open>crypto\<close> packages, the decoding of JSON and PEM and the
  signing library are fields of an environment record. An Ed25519 key here has the
  32 bytes the key parsers give; \<open>ed25519.Verify\<close> panics on any other length.
\<close>

section \<open>Keys and primitives\<close>

datatype go_hash = SHA256 | SHA384 | SHA512

datatype ec_curve = P224 | P256 | P384 | P521

datatype pub_key =
    RSAPub nat int
  | ECPub ec_curve nat nat
  | EdPub string
  | OtherPub string

fun BitSize :: "ec_curve \<Rightarrow> nat" where
  "BitSize P224 = 224"
| "BitSize P256 = 256"
| "BitSize P384 = 384"
| "BitSize P521 = 521"

type_synonym json_map = "(string \<times> json) list"

record jwt_env =
  jv_unmarshal :: "string \<Rightarrow> json_map res"
  jv_hash :: "go_hash \<Rightarrow> string \<Rightarrow> string"
  jv_rsa :: "nat \<Rightarrow> int \<Rightarrow> go_hash \<Rightarrow> string \<Rightarrow> string \<Rightarrow> err"
  jv_ecdsa :: "ec_curve \<Rightarrow> nat \<Rightarrow> nat \<Rightarrow> string \<Rightarrow> nat \<Rightarrow> nat \<Rightarrow> bool"
  jv_ed :: "string \<Rightarrow> string \<Rightarrow> string \<Rightarrow> bool"
  jv_oob :: "f64 \<Rightarrow> int"

section \<open>Signature verification (\<open>jwtx/verify.go\<close>)\<close>

definition algToHash :: "string \<Rightarrow> go_hash option" where
  "algToHash alg =
     (if alg = ''RS256'' \<or> alg = ''ES256'' then Some SHA256
      else if alg = ''RS384'' \<or> alg = ''ES384'' then Some SHA384
      else if alg = ''RS512'' \<or> alg = ''ES512'' then Some SHA512
      else None)"

definition verifyRSA :: "jwt_env \<Rightarrow> string \<Rightarrow> pub_key \<Rightarrow> string \<Rightarrow> string \<Rightarrow> err" where
  "verifyRSA env alg pub signingInput signature =
     (case pub of
        RSAPub n e \<Rightarrow>
          (case algToHash alg of
             None \<Rightarrow> Some (Errorf ''unsupported RSA hash for %s'' [ArgS alg])
           | Some h \<Rightarrow> jv_rsa env n e h (jv_hash env h signingInput) signature)
      | _ \<Rightarrow> Some (New ''key type mismatch: expected *rsa.PublicKey''))"

definition verifyECDSA :: "jwt_env \<Rightarrow> string \<Rightarrow> pub_key \<Rightarrow> string \<Rightarrow> string \<Rightarrow> err" where
  "verifyECDSA env alg pub signingInput signature =
     (case pub of
        ECPub c x y \<Rightarrow>
          (case algToHash alg of
             None \<Rightarrow> Some (Errorf ''unsupported ECDSA hash for %s'' [ArgS alg])
           | Some h \<Rightarrow>
               (let digest = jv_hash env h signingInput;
                    keySize = (BitSize c + 7) div 8
                in if length signature \<noteq> 2 * keySize then Some (New ''invalid ECDSA signature length'')
                   else (let r = SetBytes (take keySize signature);
                             s = SetBytes (drop keySize signature)
                         in if \<not> jv_ecdsa env c x y digest r s
                            then Some (New ''ECDSA signature verification failed'') else None)))
      | _ \<Rightarrow> Some (New ''key type mismatch: expected *ecdsa.PublicKey''))"

definition verifyEdDSA :: "jwt_env \<Rightarrow> pub_key \<Rightarrow> string \<Rightarrow> string \<Rightarrow> err" where
  "verifyEdDSA env pub signingInput signature =
     (case pub of
        EdPub k \<Rightarrow> if \<not> jv_ed env k signingInput signature
                   then Some (New ''EdDSA signature verification failed'') else None
      | _ \<Rightarrow> Some (New ''key type mismatch: expected ed25519.PublicKey''))"

definition verifySig :: "jwt_env \<Rightarrow> string \<Rightarrow> pub_key \<Rightarrow> string \<Rightarrow> string \<Rightarrow> err" where
  "verifySig env alg pub signingInput signature =
     (if has_prefix alg ''RS'' then verifyRSA env alg pub signingInput signature
      else if has_prefix alg ''ES'' then verifyECDSA env alg pub signingInput signature
      else if alg = ''EdDSA'' then verifyEdDSA env pub signingInput signature
      else Some (Errorf ''unsupported algorithm: %s'' [ArgS alg]))"

definition VerifyWithKeyRaw :: "jwt_env \<Rightarrow> string \<Rightarrow> string \<Rightarrow> pub_key \<Rightarrow> string \<Rightarrow> err" where
  "VerifyWithKeyRaw env signingInput signature pub alg = verifySig env alg pub signingInput signature"

section \<open>Claims\<close>

text \<open>\<open>v, _ := m[k].(string)\<close>.\<close>

definition string_field :: "json_map \<Rightarrow> string \<Rightarrow> string" where
  "string_field m k = (case map_of m k of Some (JString s) \<Rightarrow> s | _ \<Rightarrow> [])"

text \<open>
  Claims are decoded into \<open>any\<close>, where a number is a \<open>float64\<close>: the case
  \<open>json.Number\<close> of the source does not arise.
\<close>

definition numericClaim :: "jwt_env \<Rightarrow> json_map \<Rightarrow> string \<Rightarrow> int option" where
  "numericClaim env claims key =
     (case map_of claims key of
        Some (JNumber n) \<Rightarrow> Some (f64_to_int64 (jv_oob env) n)
      | _ \<Rightarrow> None)"

definition audienceContains :: "json option \<Rightarrow> string \<Rightarrow> bool" where
  "audienceContains aud target =
     (case aud of
        Some (JString v) \<Rightarrow> v = target
      | Some (JArray vs) \<Rightarrow> list_ex (\<lambda>a. a = JString target) vs
      | _ \<Rightarrow> False)"

text \<open>
  \<open>time.Unix(sec, 0).Add(d)\<close>, in nanoseconds since 1970. A \<open>time.Time\<close> counts its
  seconds from year 1 in an \<open>int64\<close>: the conversion wraps and \<open>Add\<close> saturates.
\<close>

definition unix_to_internal :: int where
  "unix_to_internal = 62135596800"

definition sat_add :: "int \<Rightarrow> int \<Rightarrow> int" where
  "sat_add a d = (if in_int64 (a + d) then a + d else if d > 0 then max_int64 else - max_int64)"

definition unix_add :: "int \<Rightarrow> int \<Rightarrow> int" where
  "unix_add sec d =
     (sat_add (wrap64 (sec + unix_to_internal)) (d div go_second) - unix_to_internal) * go_second + d mod go_second"

section \<open>Verify\<close>

record VerifyConfig =
  vc_AllowedAlgorithms :: "string list"
  vc_RequiredIssuer :: string
  vc_RequiredAudience :: string
  vc_ClockSkew :: int

record VerifiedToken =
  vt_Header :: json_map
  vt_Claims :: json_map

text \<open>
  \<open>KeyFunc\<close>: from \<open>kid\<close> and \<open>alg\<close> to a key; a resolver with a cache changes its
  state \<open>'s\<close> when it is called.
\<close>

type_synonym 's KeyFunc = "string \<Rightarrow> string \<Rightarrow> 's \<Rightarrow> pub_key res \<times> 's"

text \<open>\<open>strings.SplitN(s, ".", 3)\<close>, where it gives three parts.\<close>

definition split3 :: "string \<Rightarrow> (string \<times> string \<times> string) option" where
  "split3 s =
     (case cut (CHR ''.'') s of
        None \<Rightarrow> None
      | Some (a, r) \<Rightarrow> (case cut (CHR ''.'') r of None \<Rightarrow> None | Some (b, c) \<Rightarrow> Some (a, b, c)))"

text \<open>The checks on the decoded claims, from the time claims on.\<close>

definition check_claims :: "jwt_env \<Rightarrow> int \<Rightarrow> VerifyConfig \<Rightarrow> json_map \<Rightarrow> err" where
  "check_claims env now cfg claims =
     first_error
       [fail_if (case numericClaim env claims ''exp'' of
                   Some ex \<Rightarrow> now > unix_add ex (vc_ClockSkew cfg) | None \<Rightarrow> False)
          (New ''jwtx: token expired''),
        fail_if (case numericClaim env claims ''nbf'' of
                   Some nbf \<Rightarrow> now < unix_add nbf (wrap64 (- vc_ClockSkew cfg)) | None \<Rightarrow> False)
          (New ''jwtx: token not yet valid (nbf)''),
        fail_if (vc_RequiredIssuer cfg \<noteq> [] \<and> string_field claims ''iss'' \<noteq> vc_RequiredIssuer cfg)
          (Errorf ''jwtx: issuer mismatch: got %q, want %q'' [ArgS (string_field claims ''iss''), ArgS (vc_RequiredIssuer cfg)]),
        fail_if (vc_RequiredAudience cfg \<noteq> [] \<and> \<not> audienceContains (map_of claims ''aud'') (vc_RequiredAudience cfg))
          (Errorf ''jwtx: audience mismatch: %q not found'' [ArgS (vc_RequiredAudience cfg)])]"

text \<open>What follows the key lookup.\<close>

definition verify_with :: "jwt_env \<Rightarrow> int \<Rightarrow> VerifyConfig \<Rightarrow> json_map \<Rightarrow> string \<Rightarrow> string \<times> string \<times> string \<Rightarrow> pub_key \<Rightarrow> VerifiedToken res" where
  "verify_with env now cfg header alg parts pub =
     (case parts of (h, p, sg) \<Rightarrow>
        (case base64URLDecode sg of
           Inl e \<Rightarrow> Inl (Wrapf ''jwtx: decoding signature: %w'' [] e)
         | Inr signature \<Rightarrow>
             (case verifySig env alg pub (h @ ''.'' @ p) signature of
                Some e \<Rightarrow> Inl (Wrapf ''jwtx: %w'' [] e)
              | None \<Rightarrow>
                  (case base64URLDecode p of
                     Inl e \<Rightarrow> Inl (Wrapf ''jwtx: decoding payload: %w'' [] e)
                   | Inr claimBytes \<Rightarrow>
                       (case jv_unmarshal env claimBytes of
                          Inl e \<Rightarrow> Inl (Wrapf ''jwtx: parsing claims: %w'' [] e)
                        | Inr claims \<Rightarrow>
                            (case check_claims env now cfg claims of
                               Some e \<Rightarrow> Inl e
                             | None \<Rightarrow> Inr \<lparr>vt_Header = header, vt_Claims = claims\<rparr>))))))"

definition no_verify_config :: VerifyConfig where
  "no_verify_config = \<lparr>vc_AllowedAlgorithms = [], vc_RequiredIssuer = [], vc_RequiredAudience = [], vc_ClockSkew = 0\<rparr>"

definition Verify :: "jwt_env \<Rightarrow> int \<Rightarrow> string \<Rightarrow> 's KeyFunc \<Rightarrow> VerifyConfig option \<Rightarrow> 's \<Rightarrow> VerifiedToken res \<times> 's" where
  "Verify env now tokenString keyFunc ocfg s =
     (let cfg = (case ocfg of None \<Rightarrow> no_verify_config | Some c \<Rightarrow> c) in
      case split3 tokenString of
        None \<Rightarrow> (Inl (New ''jwtx: malformed JWT: expected 3 dot-separated parts''), s)
      | Some (h, p, sg) \<Rightarrow>
          (case base64URLDecode h of
             Inl e \<Rightarrow> (Inl (Wrapf ''jwtx: decoding header: %w'' [] e), s)
           | Inr headerBytes \<Rightarrow>
               (case jv_unmarshal env headerBytes of
                  Inl e \<Rightarrow> (Inl (Wrapf ''jwtx: parsing header: %w'' [] e), s)
                | Inr header \<Rightarrow>
                    (let alg = string_field header ''alg''; kid = string_field header ''kid''
                     in if EqualFold alg ''none'' then (Inl (New ''jwtx: unsecured JWT (alg=none) rejected''), s)
                        else if vc_AllowedAlgorithms cfg \<noteq> [] \<and> alg \<notin> set (vc_AllowedAlgorithms cfg)
                        then (Inl (Errorf ''jwtx: algorithm %q not in allowed set'' [ArgS alg]), s)
                        else (case keyFunc kid alg s of
                                (Inl e, s') \<Rightarrow> (Inl (Wrapf ''jwtx: key lookup: %w'' [] e), s')
                              | (Inr pub, s') \<Rightarrow> (verify_with env now cfg header alg (h, p, sg) pub, s'))))))"

definition const_key :: "pub_key \<Rightarrow> 's KeyFunc" where
  "const_key pub kid alg s = (Inr pub, s)"

definition VerifyWithKey :: "jwt_env \<Rightarrow> int \<Rightarrow> string \<Rightarrow> pub_key \<Rightarrow> VerifyConfig option \<Rightarrow> VerifiedToken res" where
  "VerifyWithKey env now tokenString pub ocfg = fst (Verify env now tokenString (const_key pub) ocfg ())"

section \<open>What an accepted token is\<close>

text \<open>
  The reference: a signature over a message is valid for a key when the algorithm
  names the key's family and one of its three hashes, and the primitive of that
  family accepts.
\<close>

definition hash_bits :: "(string \<times> go_hash) list" where
  "hash_bits = [(''256'', SHA256), (''384'', SHA384), (''512'', SHA512)]"

inductive signed_by :: "jwt_env \<Rightarrow> string \<Rightarrow> pub_key \<Rightarrow> string \<Rightarrow> string \<Rightarrow> bool" for env where
  rsa: "(b, h) \<in> set hash_bits \<Longrightarrow> jv_rsa env n e h (jv_hash env h msg) sg = None
    \<Longrightarrow> signed_by env (''RS'' @ b) (RSAPub n e) msg sg"
| ecdsa: "(b, h) \<in> set hash_bits \<Longrightarrow> length rs = (BitSize c + 7) div 8 \<Longrightarrow> length ss = (BitSize c + 7) div 8
    \<Longrightarrow> jv_ecdsa env c x y (jv_hash env h msg) (SetBytes rs) (SetBytes ss)
    \<Longrightarrow> signed_by env (''ES'' @ b) (ECPub c x y) msg (rs @ ss)"
| eddsa: "jv_ed env k msg sg \<Longrightarrow> signed_by env ''EdDSA'' (EdPub k) msg sg"

inductive_simps signed_by_RSA: "signed_by env alg (RSAPub n e) msg sg"
inductive_simps signed_by_EC: "signed_by env alg (ECPub c x y) msg sg"
inductive_simps signed_by_Ed: "signed_by env alg (EdPub k) msg sg"
inductive_simps signed_by_Other: "signed_by env alg (OtherPub k) msg sg"

lemmas signed_by_keys = signed_by_RSA signed_by_EC signed_by_Ed signed_by_Other

lemma algToHash_RS: "algToHash (CHR ''R'' # CHR ''S'' # b) = map_of hash_bits b"
  by (auto simp: algToHash_def hash_bits_def)

lemma algToHash_ES: "algToHash (CHR ''E'' # CHR ''S'' # b) = map_of hash_bits b"
  by (auto simp: algToHash_def hash_bits_def)

lemma hash_bits_iff: "(b, h) \<in> set hash_bits \<longleftrightarrow> map_of hash_bits b = Some h"
  by (auto simp: hash_bits_def)

lemma verifyRSA_iff:
  "verifyRSA env (''RS'' @ b) pub msg sg = None \<longleftrightarrow> signed_by env (''RS'' @ b) pub msg sg"
  by (cases pub) (auto simp: verifyRSA_def algToHash_RS signed_by_keys hash_bits_iff split: option.splits)

lemma halves: "length sg = 2 * k \<longleftrightarrow> length (take k sg) = k \<and> length (drop k sg) = k"
  by auto

lemma verifyECDSA_iff:
  "verifyECDSA env (''ES'' @ b) pub msg sg = None \<longleftrightarrow> signed_by env (''ES'' @ b) pub msg sg"
proof (cases pub)
  case (ECPub c x y)
  let ?k = "(BitSize c + 7) div 8"
  have "(\<exists>rs ss. sg = rs @ ss \<and> length rs = ?k \<and> length ss = ?k \<and> P rs ss) \<longleftrightarrow>
      length sg = 2 * ?k \<and> P (take ?k sg) (drop ?k sg)" for P
    unfolding halves by (metis append_eq_conv_conj append_take_drop_id)
  note split = this
  have "signed_by env (''ES'' @ b) pub msg sg \<longleftrightarrow>
      (\<exists>h. map_of hash_bits b = Some h \<and> (\<exists>rs ss. sg = rs @ ss \<and> length rs = ?k \<and> length ss = ?k \<and>
         jv_ecdsa env c x y (jv_hash env h msg) (SetBytes rs) (SetBytes ss)))"
    by (auto simp: ECPub signed_by_EC hash_bits_iff)
  also have "\<dots> \<longleftrightarrow> verifyECDSA env (''ES'' @ b) pub msg sg = None"
    unfolding split by (auto simp: ECPub verifyECDSA_def algToHash_ES Let_def split: option.splits)
  finally show ?thesis by simp
qed (auto simp: verifyECDSA_def signed_by_keys)

lemma signed_by_algs:
  "signed_by env alg pub msg sg \<Longrightarrow> (\<exists>b. alg = ''RS'' @ b) \<or> (\<exists>b. alg = ''ES'' @ b) \<or> alg = ''EdDSA''"
  by (cases rule: signed_by.cases) auto

lemma verifySig_iff: "verifySig env alg pub msg sg = None \<longleftrightarrow> signed_by env alg pub msg sg"
proof -
  consider b where "alg = ''RS'' @ b" | b where "alg = ''ES'' @ b" | "alg = ''EdDSA''"
    | "\<not> has_prefix alg ''RS''" "\<not> has_prefix alg ''ES''" "alg \<noteq> ''EdDSA''"
    by (auto simp: has_prefix_iff)
  then show ?thesis
  proof cases
    case (1 b)
    then show ?thesis using verifyRSA_iff [of env b] by (simp add: verifySig_def has_prefix_iff)
  next
    case (2 b)
    then show ?thesis using verifyECDSA_iff [of env b] by (simp add: verifySig_def has_prefix_iff)
  next
    case 3
    then show ?thesis
      by (cases pub) (auto simp: verifySig_def verifyEdDSA_def has_prefix_iff signed_by_keys hash_bits_def)
  next
    case 4
    then show ?thesis
      using signed_by_algs [of env alg pub msg sg] by (auto simp: verifySig_def has_prefix_iff)
  qed
qed

text \<open>
  The claims a configuration asks for. Time claims matter only where they are
  numbers, the issuer and the audience only where one is required.
\<close>

definition claims_hold :: "jwt_env \<Rightarrow> int \<Rightarrow> VerifyConfig \<Rightarrow> json_map \<Rightarrow> bool" where
  "claims_hold env now cfg claims \<longleftrightarrow>
     (\<forall>n. map_of claims ''exp'' = Some (JNumber n)
        \<longrightarrow> now \<le> unix_add (f64_to_int64 (jv_oob env) n) (vc_ClockSkew cfg)) \<and>
     (\<forall>n. map_of claims ''nbf'' = Some (JNumber n)
        \<longrightarrow> unix_add (f64_to_int64 (jv_oob env) n) (wrap64 (- vc_ClockSkew cfg)) \<le> now) \<and>
     (vc_RequiredIssuer cfg = [] \<or> map_of claims ''iss'' = Some (JString (vc_RequiredIssuer cfg))) \<and>
     (vc_RequiredAudience cfg = [] \<or>
        map_of claims ''aud'' = Some (JString (vc_RequiredAudience cfg)) \<or>
        (\<exists>as. map_of claims ''aud'' = Some (JArray as) \<and> JString (vc_RequiredAudience cfg) \<in> set as))"

lemma audienceContains_iff:
  "audienceContains aud t \<longleftrightarrow> aud = Some (JString t) \<or> (\<exists>as. aud = Some (JArray as) \<and> JString t \<in> set as)"
  by (auto simp: audienceContains_def list_ex_iff split: option.splits json.splits)

lemma string_field_iff: "t \<noteq> [] \<Longrightarrow> string_field m k = t \<longleftrightarrow> map_of m k = Some (JString t)"
  by (auto simp: string_field_def split: option.splits json.splits)

lemma numericClaim_None: "numericClaim env m k = None \<longleftrightarrow> (\<forall>n. map_of m k \<noteq> Some (JNumber n))"
  by (auto simp: numericClaim_def split: option.splits json.splits)

lemma numericClaim_Some:
  "numericClaim env m k = Some i \<longleftrightarrow> (\<exists>n. map_of m k = Some (JNumber n) \<and> i = f64_to_int64 (jv_oob env) n)"
  by (auto simp: numericClaim_def split: option.splits json.splits)

lemma time_claim:
  "(case numericClaim env m k of Some i \<Rightarrow> P i | None \<Rightarrow> False) \<longleftrightarrow>
     (\<exists>n. map_of m k = Some (JNumber n) \<and> P (f64_to_int64 (jv_oob env) n))"
  by (auto simp: numericClaim_None numericClaim_Some split: option.splits)

lemma check_claims_iff: "check_claims env now cfg claims = None \<longleftrightarrow> claims_hold env now cfg claims"
proof -
  have iss: "(vc_RequiredIssuer cfg \<noteq> [] \<and> string_field claims ''iss'' \<noteq> vc_RequiredIssuer cfg) \<longleftrightarrow>
      \<not> (vc_RequiredIssuer cfg = [] \<or> map_of claims ''iss'' = Some (JString (vc_RequiredIssuer cfg)))"
    using string_field_iff by blast
  show ?thesis
    unfolding check_claims_def claims_hold_def check_simps time_claim iss audienceContains_iff
    by (auto simp: not_less not_le)
qed


text \<open>
  The whole contract: three parts; a header that decodes and whose algorithm is
  allowed; the key the resolver gives for exactly this \<open>kid\<close> and algorithm; a
  signature over header and payload as received; and claims that hold.
\<close>

definition accepts :: "jwt_env \<Rightarrow> int \<Rightarrow> VerifyConfig \<Rightarrow> string \<Rightarrow> (string \<Rightarrow> string \<Rightarrow> pub_key option) \<Rightarrow> VerifiedToken \<Rightarrow> bool" where
  "accepts env now cfg token key vt \<longleftrightarrow>
     (\<exists>h p sg hb pb sb pub.
        token = h @ ''.'' @ p @ ''.'' @ sg \<and> CHR ''.'' \<notin> set h \<and> CHR ''.'' \<notin> set p \<and>
        base64URLDecode h = Inr hb \<and> jv_unmarshal env hb = Inr (vt_Header vt) \<and>
        base64URLDecode p = Inr pb \<and> jv_unmarshal env pb = Inr (vt_Claims vt) \<and>
        base64URLDecode sg = Inr sb \<and>
        (vc_AllowedAlgorithms cfg = [] \<or> string_field (vt_Header vt) ''alg'' \<in> set (vc_AllowedAlgorithms cfg)) \<and>
        key (string_field (vt_Header vt) ''kid'') (string_field (vt_Header vt) ''alg'') = Some pub \<and>
        signed_by env (string_field (vt_Header vt) ''alg'') pub (h @ ''.'' @ p) sb \<and>
        claims_hold env now cfg (vt_Claims vt))"

lemma cut_append: "CHR ''.'' \<notin> set h \<Longrightarrow> cut (CHR ''.'') (h @ CHR ''.'' # r) = Some (h, r)"
  by (induction h) (auto simp: cut_def)

lemma split3_Some:
  "split3 t = Some (h, p, sg) \<longleftrightarrow>
     t = h @ ''.'' @ p @ ''.'' @ sg \<and> CHR ''.'' \<notin> set h \<and> CHR ''.'' \<notin> set p"
proof
  assume "split3 t = Some (h, p, sg)"
  then show "t = h @ ''.'' @ p @ ''.'' @ sg \<and> CHR ''.'' \<notin> set h \<and> CHR ''.'' \<notin> set p"
    by (auto simp: split3_def split: option.splits dest!: cut_Some)
next
  assume "t = h @ ''.'' @ p @ ''.'' @ sg \<and> CHR ''.'' \<notin> set h \<and> CHR ''.'' \<notin> set p"
  then show "split3 t = Some (h, p, sg)"
    using cut_append [of h "p @ ''.'' @ sg"] cut_append [of p sg] by (simp add: split3_def)
qed

lemma signed_not_none: "signed_by env alg pub msg sg \<Longrightarrow> \<not> EqualFold alg ''none''"
proof -
  assume "signed_by env alg pub msg sg"
  then consider b where "alg = ''RS'' @ b" | b where "alg = ''ES'' @ b" | "alg = ''EdDSA''"
    using signed_by_algs by blast
  then show ?thesis by cases (simp_all add: EqualFold_def lower_byte_def byte_def char_of_def)
qed

lemma verify_with_iff:
  "verify_with env now cfg header alg (h, p, sg) pub = Inr vt \<longleftrightarrow>
     vt_Header vt = header \<and>
     (\<exists>sb pb. base64URLDecode sg = Inr sb \<and> signed_by env alg pub (h @ ''.'' @ p) sb \<and>
        base64URLDecode p = Inr pb \<and> jv_unmarshal env pb = Inr (vt_Claims vt) \<and>
        claims_hold env now cfg (vt_Claims vt))"
  by (cases vt)
     (auto simp: verify_with_def verifySig_iff [symmetric] check_claims_iff [symmetric] split: sum.splits option.splits)

lemma Verify_accepts:
  "fst (Verify env now token keyFunc ocfg s) = Inr vt \<longleftrightarrow>
     accepts env now (case ocfg of None \<Rightarrow> no_verify_config | Some cfg \<Rightarrow> cfg) token (\<lambda>kid alg. case fst (keyFunc kid alg s) of Inr pub \<Rightarrow> Some pub | Inl _ \<Rightarrow> None) vt"
  (is "?L \<longleftrightarrow> ?R")
proof -
  define cfg where "cfg = (case ocfg of None \<Rightarrow> no_verify_config | Some cfg \<Rightarrow> cfg)"
  let ?alg = "string_field (vt_Header vt) ''alg''" and ?kid = "string_field (vt_Header vt) ''kid''"
  have "?L \<longleftrightarrow> (\<exists>h p sg hb. split3 token = Some (h, p, sg) \<and> base64URLDecode h = Inr hb \<and>
      jv_unmarshal env hb = Inr (vt_Header vt) \<and> \<not> EqualFold ?alg ''none'' \<and>
      (vc_AllowedAlgorithms cfg = [] \<or> ?alg \<in> set (vc_AllowedAlgorithms cfg)) \<and>
      (\<exists>pub. fst (keyFunc ?kid ?alg s) = Inr pub \<and>
        verify_with env now cfg (vt_Header vt) ?alg (h, p, sg) pub = Inr vt))"
    unfolding Verify_def cfg_def [symmetric] Let_def
    by (auto split: option.splits sum.splits if_splits prod.splits simp: verify_with_iff)
  also have "\<dots> \<longleftrightarrow> ?R"
    unfolding cfg_def [symmetric] accepts_def split3_Some verify_with_iff
    using signed_not_none by (fastforce split: sum.splits)
  finally show ?thesis .
qed

text \<open>
  C5: Verification against one key implements the reference \<open>accepts\<close>, in both
  directions: a token is accepted, with this header and these claims, exactly when
  it has three parts that decode, its algorithm is allowed and is one of the seven
  supported ones for the key's own type, the signature over header and payload as
  received is valid for the key, and the required time, issuer and audience claims
  hold. In particular no token selects an algorithm of another key family.
\<close>

theorem VerifyWithKey_contract:
  "VerifyWithKey env now token pub ocfg = Inr vt \<longleftrightarrow>
     accepts env now (case ocfg of None \<Rightarrow> no_verify_config | Some cfg \<Rightarrow> cfg) token (\<lambda>kid alg. Some pub) vt"
  by (simp add: VerifyWithKey_def Verify_accepts const_key_def)

text \<open>For times a clock can show, the bound is the plain sum.\<close>

lemma unix_add_plain:
  assumes "\<bar>sec\<bar> \<le> 2 ^ 60" "in_int64 d"
  shows "unix_add sec d = sec * go_second + d"
proof -
  have w: "wrap64 (sec + unix_to_internal) = sec + unix_to_internal"
    using assms(1) by (intro wrap64_id) (auto simp: in_int64_def unix_to_internal_def)
  have "- 9223372037 \<le> d div go_second" "d div go_second \<le> 9223372037"
    using zdiv_mono1 [of min_int64 d go_second] zdiv_mono1 [of d max_int64 go_second] assms(2)
    by (simp_all add: in_int64_def)
  then have "in_int64 (sec + unix_to_internal + d div go_second)"
    using assms(1) by (auto simp: in_int64_def unix_to_internal_def)
  then have "unix_add sec d = sec * go_second + (d div go_second * go_second + d mod go_second)"
    unfolding unix_add_def sat_add_def w by (simp add: algebra_simps)
  then show ?thesis by (simp only: div_mult_mod_eq)
qed

end
