(* ===== verification/JwtKeys.thy ===== *)
theory JwtKeys
  imports Jwt
begin

text \<open>
  Keys (\<open>jwtx/keys.go\<close>, \<open>kid.go\<close>), their published form (\<open>jwk.go\<close>), the remote
  key set with its cache (\<open>jwk_remote.go\<close>) and signing (\<open>sign.go\<close>). DER and PEM
  coding, SHA-256, key generation, files and the signing library are fields of the
  environment \<open>x509_env\<close>.
\<close>

section \<open>Key identifiers and key pairs (\<open>jwtx/kid.go\<close>, \<open>jwtx/keys.go\<close>)\<close>

text \<open>What a PKCS8 block holds: key material, which may or may not be able to sign.\<close>

datatype priv_key = Signer string | NonSigner string

record KeyPair =
  kp_PrivateKey :: priv_key
  kp_PublicKey :: pub_key
  kp_Algorithm :: string
  kp_KID :: string
  kp_PublicDER :: string

record x509_env =
  xe_sha256 :: "string \<Rightarrow> string"
  xe_MarshalPKIX :: "pub_key \<Rightarrow> string res"
  xe_ParsePKIX :: "string \<Rightarrow> pub_key res"
  xe_MarshalPKCS8 :: "priv_key \<Rightarrow> string res"
  xe_ParsePKCS8 :: "string \<Rightarrow> priv_key res"
  xe_pem_Decode :: "string \<Rightarrow> string option"
  xe_pem_Encode :: "string \<Rightarrow> string \<Rightarrow> string"
  xe_ReadFile :: "string \<Rightarrow> string res"
  xe_GenerateEd :: "(string \<times> string) res"
  xe_GenerateRSA :: "int \<Rightarrow> ((nat \<times> int) \<times> string) res"

definition ComputeKID :: "x509_env \<Rightarrow> string \<Rightarrow> string" where
  "ComputeKID env pubDER = hex_encode (take 8 (xe_sha256 env pubDER))"

definition ComputeKIDFromPublicKey :: "x509_env \<Rightarrow> pub_key \<Rightarrow> string res" where
  "ComputeKIDFromPublicKey env pub =
     (case xe_MarshalPKIX env pub of
        Inl e \<Rightarrow> Inl (Wrapf ''jwtx: marshal public key: %w'' [] e)
      | Inr der \<Rightarrow> Inr (ComputeKID env der))"

definition DetectAlgorithm :: "pub_key \<Rightarrow> string res" where
  "DetectAlgorithm pub =
     (case pub of
        RSAPub _ _ \<Rightarrow> Inr ''RS256''
      | EdPub _ \<Rightarrow> Inr ''EdDSA''
      | _ \<Rightarrow> Inl (New ''jwtx: unsupported public key type %T''))"

definition generateEdDSA :: "x509_env \<Rightarrow> KeyPair res" where
  "generateEdDSA env =
     (case xe_GenerateEd env of
        Inl e \<Rightarrow> Inl (Wrapf ''jwtx: generating Ed25519 key: %w'' [] e)
      | Inr (pub, priv) \<Rightarrow>
          (case xe_MarshalPKIX env (EdPub pub) of
             Inl e \<Rightarrow> Inl (Wrapf ''jwtx: marshalling public key: %w'' [] e)
           | Inr pubDER \<Rightarrow>
               Inr \<lparr>kp_PrivateKey = Signer priv, kp_PublicKey = EdPub pub, kp_Algorithm = ''EdDSA'',
                    kp_KID = ComputeKID env pubDER, kp_PublicDER = pubDER\<rparr>))"

definition generateRSA :: "x509_env \<Rightarrow> int \<Rightarrow> KeyPair res" where
  "generateRSA env bits =
     (case xe_GenerateRSA env bits of
        Inl e \<Rightarrow> Inl (Wrapf ''jwtx: generating RSA-%d key: %w'' [ArgD bits] e)
      | Inr ((n, e), priv) \<Rightarrow>
          (case xe_MarshalPKIX env (RSAPub n e) of
             Inl er \<Rightarrow> Inl (Wrapf ''jwtx: marshalling public key: %w'' [] er)
           | Inr pubDER \<Rightarrow>
               Inr \<lparr>kp_PrivateKey = Signer priv, kp_PublicKey = RSAPub n e, kp_Algorithm = ''RS256'',
                    kp_KID = ComputeKID env pubDER, kp_PublicDER = pubDER\<rparr>))"

text \<open>\<open>GenerateOption\<close>: the options set the RSA size, the last one winning.\<close>

definition WithRSABits :: "int \<Rightarrow> int \<Rightarrow> int" where
  "WithRSABits bits old = bits"

definition GenerateKeyPair :: "x509_env \<Rightarrow> string \<Rightarrow> (int \<Rightarrow> int) list \<Rightarrow> KeyPair res" where
  "GenerateKeyPair env algorithm opts =
     (let rsaBits = foldl (\<lambda>b fn. fn b) 2048 opts
      in if algorithm = ''EdDSA'' then generateEdDSA env
         else if algorithm = ''RS256'' then generateRSA env rsaBits
         else Inl (Errorf ''jwtx: unsupported algorithm %q; supported: RS256, EdDSA'' [ArgS algorithm]))"

definition ParseKeyPairPEM :: "x509_env \<Rightarrow> string \<Rightarrow> string \<Rightarrow> KeyPair res" where
  "ParseKeyPairPEM env privPEM pubPEM =
     (case xe_pem_Decode env privPEM of
        None \<Rightarrow> Inl (New ''jwtx: no PEM block in private key'')
      | Some privBlock \<Rightarrow>
          (case xe_pem_Decode env pubPEM of
             None \<Rightarrow> Inl (New ''jwtx: no PEM block in public key'')
           | Some pubBlock \<Rightarrow>
               (case xe_ParsePKCS8 env privBlock of
                  Inl e \<Rightarrow> Inl (Wrapf ''jwtx: parsing private key: %w'' [] e)
                | Inr privKey \<Rightarrow>
                    (case xe_ParsePKIX env pubBlock of
                       Inl e \<Rightarrow> Inl (Wrapf ''jwtx: parsing public key: %w'' [] e)
                     | Inr pubKey \<Rightarrow>
                         (case privKey of
                            NonSigner _ \<Rightarrow> Inl (New ''jwtx: private key does not implement crypto.Signer'')
                          | Signer _ \<Rightarrow>
                              (case DetectAlgorithm pubKey of
                                 Inl e \<Rightarrow> Inl e
                               | Inr alg \<Rightarrow>
                                   Inr \<lparr>kp_PrivateKey = privKey, kp_PublicKey = pubKey, kp_Algorithm = alg,
                                        kp_KID = ComputeKID env pubBlock, kp_PublicDER = pubBlock\<rparr>))))))"

definition LoadKeyPairFromPEM :: "x509_env \<Rightarrow> string \<Rightarrow> string \<Rightarrow> KeyPair res" where
  "LoadKeyPairFromPEM env privPath pubPath =
     (case xe_ReadFile env privPath of
        Inl e \<Rightarrow> Inl (Wrapf ''jwtx: reading private key: %w'' [] e)
      | Inr privData \<Rightarrow>
          (case xe_ReadFile env pubPath of
             Inl e \<Rightarrow> Inl (Wrapf ''jwtx: reading public key: %w'' [] e)
           | Inr pubData \<Rightarrow> ParseKeyPairPEM env privData pubData))"

definition MarshalKeyPairPEM :: "x509_env \<Rightarrow> KeyPair \<Rightarrow> (string \<times> string) res" where
  "MarshalKeyPairPEM env kp =
     (case xe_MarshalPKCS8 env (kp_PrivateKey kp) of
        Inl e \<Rightarrow> Inl (Wrapf ''jwtx: marshalling private key: %w'' [] e)
      | Inr privDER \<Rightarrow> Inr (xe_pem_Encode env ''PRIVATE KEY'' privDER, xe_pem_Encode env ''PUBLIC KEY'' (kp_PublicDER kp)))"

section \<open>Published keys (\<open>jwtx/jwk.go\<close>)\<close>

record JWK =
  jwk_Kty :: string
  jwk_Kid :: string
  jwk_Use :: string
  jwk_Alg :: string
  jwk_N :: string
  jwk_E :: string
  jwk_Crv :: string
  jwk_X :: string
  jwk_Y :: string

definition no_JWK :: JWK where
  "no_JWK = \<lparr>jwk_Kty = [], jwk_Kid = [], jwk_Use = [], jwk_Alg = [], jwk_N = [], jwk_E = [],
             jwk_Crv = [], jwk_X = [], jwk_Y = []\<rparr>"

definition NewJWKFromPublicKey :: "pub_key \<Rightarrow> string \<Rightarrow> JWK res" where
  "NewJWKFromPublicKey pub kid =
     (case pub of
        EdPub key \<Rightarrow>
          Inr (no_JWK\<lparr>jwk_Kty := ''OKP'', jwk_Kid := kid, jwk_Use := ''sig'', jwk_Alg := ''EdDSA'',
                      jwk_Crv := ''Ed25519'', jwk_X := RawURLEncode key\<rparr>)
      | RSAPub n e \<Rightarrow>
          Inr (no_JWK\<lparr>jwk_Kty := ''RSA'', jwk_Kid := kid, jwk_Use := ''sig'', jwk_Alg := ''RS256'',
                      jwk_N := RawURLEncode (nat_bytes n), jwk_E := RawURLEncode (nat_bytes (nat \<bar>e\<bar>))\<rparr>)
      | _ \<Rightarrow> Inl (New ''jwtx: unsupported key type %T for JWK''))"

text \<open>The exponent is assembled in a Go \<open>int\<close>.\<close>

definition exponent_of :: "string \<Rightarrow> int" where
  "exponent_of bs = foldl (\<lambda>e b. wrap64 (wrap64 (e * 256) + int (byte b))) 0 bs"

definition jwkToRSAPublicKey :: "JWK \<Rightarrow> pub_key res" where
  "jwkToRSAPublicKey jwk =
     (case base64URLDecode (jwk_N jwk) of
        Inl e \<Rightarrow> Inl (Wrapf ''jwtx: decoding RSA modulus: %w'' [] e)
      | Inr nBytes \<Rightarrow>
          (case base64URLDecode (jwk_E jwk) of
             Inl e \<Rightarrow> Inl (Wrapf ''jwtx: decoding RSA exponent: %w'' [] e)
           | Inr eBytes \<Rightarrow> Inr (RSAPub (SetBytes nBytes) (exponent_of eBytes))))"

definition ecCurve :: "string \<Rightarrow> ec_curve res" where
  "ecCurve crv =
     (if crv = ''P-256'' then Inr P256
      else if crv = ''P-384'' then Inr P384
      else if crv = ''P-521'' then Inr P521
      else Inl (Errorf ''jwtx: unsupported EC curve %q'' [ArgS crv]))"

definition jwkToECPublicKey :: "JWK \<Rightarrow> pub_key res" where
  "jwkToECPublicKey jwk =
     (case ecCurve (jwk_Crv jwk) of
        Inl e \<Rightarrow> Inl e
      | Inr curve \<Rightarrow>
          (case base64URLDecode (jwk_X jwk) of
             Inl e \<Rightarrow> Inl (Wrapf ''jwtx: decoding EC x: %w'' [] e)
           | Inr xBytes \<Rightarrow>
               (case base64URLDecode (jwk_Y jwk) of
                  Inl e \<Rightarrow> Inl (Wrapf ''jwtx: decoding EC y: %w'' [] e)
                | Inr yBytes \<Rightarrow> Inr (ECPub curve (SetBytes xBytes) (SetBytes yBytes)))))"

definition jwkToEdPublicKey :: "JWK \<Rightarrow> pub_key res" where
  "jwkToEdPublicKey jwk =
     (if jwk_Crv jwk \<noteq> ''Ed25519'' then Inl (Errorf ''jwtx: unsupported OKP curve %q'' [ArgS (jwk_Crv jwk)])
      else (case base64URLDecode (jwk_X jwk) of
              Inl e \<Rightarrow> Inl (Wrapf ''jwtx: decoding Ed25519 public key: %w'' [] e)
            | Inr xBytes \<Rightarrow>
                if length xBytes \<noteq> 32
                then Inl (Errorf ''jwtx: invalid Ed25519 public key length: %d'' [ArgD (int (length xBytes))])
                else Inr (EdPub xBytes)))"

definition JWKToPublicKey :: "JWK \<Rightarrow> pub_key res" where
  "JWKToPublicKey jwk =
     (if jwk_Kty jwk = ''RSA'' then jwkToRSAPublicKey jwk
      else if jwk_Kty jwk = ''EC'' then jwkToECPublicKey jwk
      else if jwk_Kty jwk = ''OKP'' then jwkToEdPublicKey jwk
      else Inl (Errorf ''jwtx: unsupported key type %q'' [ArgS (jwk_Kty jwk)]))"

fun NewJWKS :: "x509_env \<Rightarrow> pub_key list \<Rightarrow> JWK list res" where
  "NewJWKS env [] = Inr []"
| "NewJWKS env (pub # keys) =
     res_bind (ComputeKIDFromPublicKey env pub) (\<lambda>kid.
     res_bind (NewJWKFromPublicKey pub kid) (\<lambda>jwk.
     res_bind (NewJWKS env keys) (\<lambda>jwks. Inr (jwk # jwks))))"

section \<open>The remote key set (\<open>jwtx/jwk_remote.go\<close>)\<close>

record RemoteJWKS =
  rj_url :: string
  rj_cache :: "(JWK list \<times> int) option"
  rj_ttl :: int

datatype RemoteJWKSOption = WithCacheTTL int

fun apply_jwks_option :: "RemoteJWKSOption \<Rightarrow> RemoteJWKS \<Rightarrow> RemoteJWKS" where
  "apply_jwks_option (WithCacheTTL t) r = r\<lparr>rj_ttl := t\<rparr>"

definition NewRemoteJWKS :: "string \<Rightarrow> RemoteJWKSOption list \<Rightarrow> RemoteJWKS" where
  "NewRemoteJWKS jwksURL opts =
     foldl (\<lambda>r opt. apply_jwks_option opt r) \<lparr>rj_url = jwksURL, rj_cache = None, rj_ttl = 5 * go_minute\<rparr> opts"

text \<open>
  One chance to fetch: the time the cache is looked at, the response of a GET on
  the URL, the decoding of its body, and the time the answer is stored.
\<close>

record jwks_fetch =
  jf_now :: int
  jf_get :: "string \<Rightarrow> http_resp res"
  jf_decode :: "string res \<Rightarrow> JWK list res"
  jf_stored :: int

text \<open>The flag tells whether the endpoint was asked.\<close>

definition getJWKS :: "jwks_fetch \<Rightarrow> RemoteJWKS \<Rightarrow> JWK list res \<times> bool \<times> RemoteJWKS" where
  "getJWKS f r =
     (case (case rj_cache r of
              Some (keys, fetchedAt) \<Rightarrow> if jf_now f - fetchedAt < rj_ttl r then Some keys else None
            | None \<Rightarrow> None) of
        Some keys \<Rightarrow> (Inr keys, False, r)
      | None \<Rightarrow>
          (case jf_get f (rj_url r) of
             Inl e \<Rightarrow> (Inl (Wrapf ''jwtx: fetching JWKS from %s: %w'' [ArgS (rj_url r)] e), True, r)
           | Inr resp \<Rightarrow>
               if hr_Status resp \<noteq> 200
               then (Inl (Errorf ''jwtx: JWKS endpoint returned %d'' [ArgD (hr_Status resp)]), True, r)
               else (case jf_decode f (hr_Body resp) of
                       Inl e \<Rightarrow> (Inl (Wrapf ''jwtx: decoding JWKS response: %w'' [] e), True, r)
                     | Inr keys \<Rightarrow> (Inr keys, True, r\<lparr>rj_cache := Some (keys, jf_stored f)\<rparr>))))"

definition key_matches :: "string \<Rightarrow> string \<Rightarrow> JWK \<Rightarrow> bool" where
  "key_matches kid alg k \<longleftrightarrow>
     \<not> (kid \<noteq> [] \<and> jwk_Kid k \<noteq> kid) \<and> \<not> (jwk_Alg k \<noteq> [] \<and> jwk_Alg k \<noteq> alg) \<and>
     \<not> (jwk_Use k \<noteq> [] \<and> jwk_Use k \<noteq> ''sig'')"

definition matchKey :: "JWK list \<Rightarrow> string \<Rightarrow> string \<Rightarrow> JWK option" where
  "matchKey keys kid alg = List.find (key_matches kid alg) keys"

text \<open>The result, the number of requests sent, and the resolver after the call.\<close>

definition findKey :: "jwks_fetch \<Rightarrow> jwks_fetch \<Rightarrow> string \<Rightarrow> string \<Rightarrow> RemoteJWKS \<Rightarrow> JWK res \<times> nat \<times> RemoteJWKS" where
  "findKey f1 f2 kid alg r =
     (case getJWKS f1 r of
        (Inl e, a, r1) \<Rightarrow> (Inl e, of_bool a, r1)
      | (Inr keys, a, r1) \<Rightarrow>
          (case matchKey keys kid alg of
             Some key \<Rightarrow> (Inr key, of_bool a, r1)
           | None \<Rightarrow>
               (case getJWKS f2 (r1\<lparr>rj_cache := None\<rparr>) of
                  (Inl e, b, r2) \<Rightarrow> (Inl e, of_bool a + of_bool b, r2)
                | (Inr keys, b, r2) \<Rightarrow>
                    (case matchKey keys kid alg of
                       Some key \<Rightarrow> (Inr key, of_bool a + of_bool b, r2)
                     | None \<Rightarrow> (Inl (Errorf ''jwtx: no matching key for kid=%q alg=%q'' [ArgS kid, ArgS alg]),
                                of_bool a + of_bool b, r2)))))"

definition Remote_KeyFunc :: "jwks_fetch \<Rightarrow> jwks_fetch \<Rightarrow> RemoteJWKS KeyFunc" where
  "Remote_KeyFunc f1 f2 kid alg r =
     (case findKey f1 f2 kid alg r of
        (Inl e, _, r') \<Rightarrow> (Inl e, r')
      | (Inr jwk, _, r') \<Rightarrow> (JWKToPublicKey jwk, r'))"

section \<open>Signing (\<open>jwtx/sign.go\<close>)\<close>

record SigningConfig =
  sg_Issuer :: string
  sg_Audience :: "string list"
  sg_TTL :: int

text \<open>A claim: a date of the library (a time), a list of strings, or a value of the caller.\<close>

datatype jwt_claim = ClaimDate int | ClaimStrings "string list" | ClaimString string | ClaimJson json

type_synonym MapClaims = "(string \<times> jwt_claim) list"

datatype signing_key = PrivKey priv_key | HmacSecret string

text \<open>\<open>SignedString\<close> of the token library: method, key, header and claims.\<close>

type_synonym signed_string = "string \<Rightarrow> signing_key \<Rightarrow> (string \<times> string) list \<Rightarrow> MapClaims \<Rightarrow> string res"

definition signingMethodAndKey :: "KeyPair \<Rightarrow> (string \<times> signing_key) res" where
  "signingMethodAndKey kp =
     (if kp_Algorithm kp = ''EdDSA'' then Inr (''EdDSA'', PrivKey (kp_PrivateKey kp))
      else if kp_Algorithm kp = ''RS256'' then Inr (''RS256'', PrivKey (kp_PrivateKey kp))
      else Inl (Errorf ''jwtx: unsupported signing algorithm %q'' [ArgS (kp_Algorithm kp)]))"

text \<open>\<open>jwt.NewWithClaims\<close> sets these header fields.\<close>

definition new_header :: "string \<Rightarrow> (string \<times> string) list" where
  "new_header method = [(''typ'', ''JWT''), (''alg'', method)]"

definition Sign :: "signed_string \<Rightarrow> KeyPair \<Rightarrow> MapClaims \<Rightarrow> string res" where
  "Sign sign kp claims =
     res_bind (signingMethodAndKey kp) (\<lambda>(method, key).
       wrap_res ''jwtx: signing token: %w'' [] (sign method key (put ''kid'' (kp_KID kp) (new_header method)) claims))"

definition config_claims :: "int \<Rightarrow> SigningConfig \<Rightarrow> MapClaims \<Rightarrow> MapClaims" where
  "config_claims now cfg extraClaims =
     (let claims = [(''iat'', ClaimDate now), (''nbf'', ClaimDate now), (''exp'', ClaimDate (now + sg_TTL cfg))];
          claims = (if sg_Issuer cfg \<noteq> [] then put ''iss'' (ClaimString (sg_Issuer cfg)) claims else claims);
          claims = (if sg_Audience cfg \<noteq> [] then put ''aud'' (ClaimStrings (sg_Audience cfg)) claims else claims)
      in foldl (\<lambda>m (k, v). put k v m) claims extraClaims)"

definition SignWithConfig :: "signed_string \<Rightarrow> int \<Rightarrow> KeyPair \<Rightarrow> SigningConfig \<Rightarrow> MapClaims \<Rightarrow> string res" where
  "SignWithConfig sign now kp cfg extraClaims = Sign sign kp (config_claims now cfg extraClaims)"

definition hmacSigningMethod :: "string \<Rightarrow> string res" where
  "hmacSigningMethod alg =
     (if alg = ''HS256'' then Inr ''HS256''
      else Inl (Errorf ''jwtx: unsupported hmac signing algorithm %q'' [ArgS alg]))"

definition SignHMAC :: "signed_string \<Rightarrow> string \<Rightarrow> string \<Rightarrow> MapClaims \<Rightarrow> string res" where
  "SignHMAC sign secret alg claims =
     res_bind (hmacSigningMethod alg) (\<lambda>method.
       if secret = [] then Inl (New ''jwtx: hmac secret is empty'')
       else wrap_res ''jwtx: signing hmac token: %w'' [] (sign method (HmacSecret secret) (new_header method) claims))"

definition SignHMACWithConfig :: "signed_string \<Rightarrow> int \<Rightarrow> string \<Rightarrow> string \<Rightarrow> SigningConfig option \<Rightarrow> MapClaims \<Rightarrow> string res" where
  "SignHMACWithConfig sign now secret alg ocfg extraClaims =
     (case ocfg of
        None \<Rightarrow> Inl (New ''jwtx: signing config is nil'')
      | Some cfg \<Rightarrow> SignHMAC sign secret alg (config_claims now cfg extraClaims))"

section \<open>Key pairs are consistent\<close>

text \<open>
  The typing of a key pair: the algorithm is the one of the public key's type, the
  private part can sign, the identifier is computed from the encoded public key.
\<close>

definition key_pair_ok :: "x509_env \<Rightarrow> KeyPair \<Rightarrow> bool" where
  "key_pair_ok env kp \<longleftrightarrow>
     DetectAlgorithm (kp_PublicKey kp) = Inr (kp_Algorithm kp) \<and>
     (\<exists>m. kp_PrivateKey kp = Signer m) \<and>
     kp_KID kp = ComputeKID env (kp_PublicDER kp)"

lemma generateEdDSA_ok: "generateEdDSA env = Inr kp \<Longrightarrow> key_pair_ok env kp"
  by (auto simp: generateEdDSA_def key_pair_ok_def DetectAlgorithm_def split: sum.splits)

lemma generateRSA_ok: "generateRSA env bits = Inr kp \<Longrightarrow> key_pair_ok env kp"
  by (auto simp: generateRSA_def key_pair_ok_def DetectAlgorithm_def split: sum.splits)

lemma GenerateKeyPair_ok: "GenerateKeyPair env alg opts = Inr kp \<Longrightarrow> key_pair_ok env kp \<and> kp_Algorithm kp = alg"
  using generateEdDSA_ok generateRSA_ok
  by (fastforce simp: GenerateKeyPair_def Let_def generateEdDSA_def generateRSA_def split: if_splits sum.splits)

lemma ParseKeyPairPEM_ok: "ParseKeyPairPEM env a b = Inr kp \<Longrightarrow> key_pair_ok env kp"
  by (auto simp: ParseKeyPairPEM_def key_pair_ok_def split: sum.splits option.splits priv_key.splits)

lemma LoadKeyPairFromPEM_ok: "LoadKeyPairFromPEM env a b = Inr kp \<Longrightarrow> key_pair_ok env kp"
  by (auto simp: LoadKeyPairFromPEM_def ParseKeyPairPEM_ok split: sum.splits)

lemma ok_algorithm: "key_pair_ok env kp \<Longrightarrow> kp_Algorithm kp = ''EdDSA'' \<or> kp_Algorithm kp = ''RS256''"
  by (auto simp: key_pair_ok_def DetectAlgorithm_def split: pub_key.splits)

lemma ok_signs:
  assumes "key_pair_ok env kp"
  shows "Sign sign kp claims =
    wrap_res ''jwtx: signing token: %w'' []
      (sign (kp_Algorithm kp) (PrivKey (kp_PrivateKey kp))
        [(''kid'', kp_KID kp), (''typ'', ''JWT''), (''alg'', kp_Algorithm kp)] claims)"
  using ok_algorithm [OF assms] by (auto simp: Sign_def signingMethodAndKey_def put_def new_header_def)


definition sample_x509 :: x509_env where
  "sample_x509 = \<lparr>xe_sha256 = (\<lambda>s. take 8 (s @ ''01234567'')), xe_MarshalPKIX = (\<lambda>p. Inr ''der''),
     xe_ParsePKIX = (\<lambda>s. Inr (RSAPub 3233 17)), xe_MarshalPKCS8 = (\<lambda>p. Inr ''priv''),
     xe_ParsePKCS8 = (\<lambda>s. Inr (Signer s)), xe_pem_Decode = (\<lambda>s. Some s), xe_pem_Encode = (\<lambda>t b. b),
     xe_ReadFile = (\<lambda>p. Inr p), xe_GenerateEd = Inr (replicate 32 (CHR ''k''), ''seed''),
     xe_GenerateRSA = (\<lambda>b. Inr ((3233, 17), ''primes''))\<rparr>"


text \<open>Writing a key pair and parsing it gives it back, where PEM and DER coding do.\<close>

lemma key_pair_PEM_round_trip:
  assumes "key_pair_ok env kp"
    and "\<And>t b. xe_pem_Decode env (xe_pem_Encode env t b) = Some b"
    and "xe_MarshalPKCS8 env (kp_PrivateKey kp) = Inr der" "xe_ParsePKCS8 env der = Inr (kp_PrivateKey kp)"
    and "xe_ParsePKIX env (kp_PublicDER kp) = Inr (kp_PublicKey kp)"
  shows "res_bind (MarshalKeyPairPEM env kp) (\<lambda>(a, b). ParseKeyPairPEM env a b) = Inr kp"
  using assms by (cases kp) (auto simp: MarshalKeyPairPEM_def ParseKeyPairPEM_def key_pair_ok_def)

section \<open>Published keys come back\<close>

lemma exponent_of_SetBytes: "SetBytes bs < 2 ^ 63 \<Longrightarrow> exponent_of bs = int (SetBytes bs)"
proof (induction bs rule: rev_induct)
  case Nil
  then show ?case by (simp add: exponent_of_def SetBytes_def)
next
  case (snoc b bs)
  have lt: "SetBytes bs * 256 + byte b < 9223372036854775808" using snoc.prems by (simp add: SetBytes_snoc)
  then have "SetBytes bs < 2 ^ 63" by simp
  then have e: "exponent_of bs = int (SetBytes bs)" by (rule snoc.IH)
  have "in_int64 (int (SetBytes bs) * 256)" "in_int64 (int (SetBytes bs) * 256 + int (byte b))"
    using lt by (auto simp: in_int64_def)
  then have "wrap64 (wrap64 (exponent_of bs * 256) + int (byte b)) = int (SetBytes bs) * 256 + int (byte b)"
    by (simp add: e)
  then show ?case by (simp add: exponent_of_def SetBytes_snoc)
qed

text \<open>A key as Go's packages have it: a non-negative exponent that is an \<open>int\<close>, 32 bytes of Ed25519.\<close>

definition go_key :: "pub_key \<Rightarrow> bool" where
  "go_key pub = (case pub of RSAPub n e \<Rightarrow> 0 \<le> e \<and> in_int64 e | EdPub k \<Rightarrow> length k = 32 | _ \<Rightarrow> False)"

lemma JWK_round_trip:
  assumes "go_key pub" "NewJWKFromPublicKey pub kid = Inr jwk"
  shows "JWKToPublicKey jwk = Inr pub"
proof (cases pub)
  case (RSAPub n e)
  with assms(1) have e: "0 \<le> e" "nat e < 2 ^ 63" by (auto simp: go_key_def in_int64_def)
  then have "exponent_of (nat_bytes (nat e)) = e" by (simp add: exponent_of_SetBytes)
  with RSAPub assms(2) e show ?thesis
    by (auto simp: NewJWKFromPublicKey_def JWKToPublicKey_def jwkToRSAPublicKey_def no_JWK_def)
next
  case (EdPub k)
  with assms show ?thesis
    by (auto simp: NewJWKFromPublicKey_def JWKToPublicKey_def jwkToEdPublicKey_def no_JWK_def go_key_def)
qed (use assms in \<open>simp_all add: go_key_def\<close>)

lemma JWK_fields:
  assumes "NewJWKFromPublicKey pub kid = Inr jwk"
  shows "jwk_Kid jwk = kid" "jwk_Use jwk = ''sig''" "DetectAlgorithm pub = Inr (jwk_Alg jwk)"
  using assms by (auto simp: NewJWKFromPublicKey_def DetectAlgorithm_def no_JWK_def split: pub_key.splits)

text \<open>A key set lists one entry per key, in order.\<close>

lemma NewJWKS_entries:
  "NewJWKS env pubs = Inr ks \<Longrightarrow>
     list_all2 (\<lambda>pub jwk. \<exists>kid. ComputeKIDFromPublicKey env pub = Inr kid \<and> NewJWKFromPublicKey pub kid = Inr jwk) pubs ks"
proof (induction pubs arbitrary: ks)
  case (Cons pub pubs)
  then show ?case by (auto simp: res_bind_Inr)
qed simp

lemma matchKey_Some:
  "matchKey keys kid alg = Some k \<Longrightarrow> k \<in> set keys \<and> key_matches kid alg k"
  by (auto simp: matchKey_def find_Some_iff)

lemma published_key_found:
  assumes ks: "NewJWKS env pubs = Inr ks" and pub: "pub \<in> set pubs" and ok: "\<forall>p \<in> set pubs. go_key p"
    and kid: "ComputeKIDFromPublicKey env pub = Inr kid" "kid \<noteq> []"
    and uniq: "\<forall>p \<in> set pubs. ComputeKIDFromPublicKey env p = Inr kid \<longrightarrow> p = pub"
    and alg: "DetectAlgorithm pub = Inr alg"
  shows "\<exists>jwk. matchKey ks kid alg = Some jwk \<and> JWKToPublicKey jwk = Inr pub"
proof -
  note l2 = NewJWKS_entries [OF ks, unfolded list_all2_conv_all_nth]
  obtain i where i: "i < length pubs" "pubs ! i = pub" using pub by (auto simp: in_set_conv_nth)
  with l2 kid(1) have "NewJWKFromPublicKey pub kid = Inr (ks ! i)" "i < length ks" by auto
  then have "ks ! i \<in> set ks" "key_matches kid alg (ks ! i)"
    using JWK_fields [of pub kid "ks ! i"] alg by (auto simp: key_matches_def)
  then have "matchKey ks kid alg \<noteq> None" by (auto simp: matchKey_def find_None_iff)
  then obtain jwk where m: "matchKey ks kid alg = Some jwk" by auto
  then obtain j where j: "j < length ks" "ks ! j = jwk" "key_matches kid alg jwk"
    using matchKey_Some by (metis in_set_conv_nth)
  with l2 obtain kj where kj: "ComputeKIDFromPublicKey env (pubs ! j) = Inr kj"
    "NewJWKFromPublicKey (pubs ! j) kj = Inr jwk" "j < length pubs"
    by metis
  have "kj = kid" using j(3) kid(2) JWK_fields(1) [OF kj(2)] by (auto simp: key_matches_def)
  with uniq kj have "pubs ! j = pub" by auto
  with JWK_round_trip [OF _ kj(2)] ok kj(3) have "JWKToPublicKey jwk = Inr pub" by auto
  with m show ?thesis by blast
qed

section \<open>The resolver\<close>

text \<open>The endpoint serves a key set at a moment.\<close>

definition serves :: "jwks_fetch \<Rightarrow> string \<Rightarrow> JWK list \<Rightarrow> bool" where
  "serves f url ks \<longleftrightarrow> (\<exists>resp. jf_get f url = Inr resp \<and> hr_Status resp = 200 \<and> jf_decode f (hr_Body resp) = Inr ks)"

lemma getJWKS_served:
  assumes "serves f (rj_url r) ks"
  shows "getJWKS f r = (Inr ks, True, r\<lparr>rj_cache := Some (ks, jf_stored f)\<rparr>) \<or>
    (\<exists>keys t. rj_cache r = Some (keys, t) \<and> getJWKS f r = (Inr keys, False, r))"
  using assms by (auto simp: serves_def getJWKS_def split: option.splits prod.splits)

lemma getJWKS_uncached:
  "serves f (rj_url r) ks \<Longrightarrow> rj_cache r = None \<Longrightarrow> getJWKS f r = (Inr ks, True, r\<lparr>rj_cache := Some (ks, jf_stored f)\<rparr>)"
  by (auto simp: serves_def getJWKS_def)

lemma getJWKS_frame: "getJWKS f r = (res, a, r') \<Longrightarrow> rj_url r' = rj_url r \<and> rj_ttl r' = rj_ttl r"
  by (auto simp: getJWKS_def split: option.splits sum.splits if_splits prod.splits)

lemma getJWKS_cached: "getJWKS f r = (Inr keys, a, r') \<Longrightarrow> \<exists>t. rj_cache r' = Some (keys, t)"
  by (auto simp: getJWKS_def split: option.splits sum.splits if_splits prod.splits)

text \<open>A key that is found matches the request, is in the set then cached, and cost at most two requests.\<close>

lemma findKey_sound:
  assumes "findKey f1 f2 kid alg r = (Inr k, n, r')"
  shows "key_matches kid alg k \<and> n \<le> 2 \<and> (\<exists>keys t. rj_cache r' = Some (keys, t) \<and> k \<in> set keys)"
proof -
  obtain res1 a r1 where g1: "getJWKS f1 r = (res1, a, r1)" by (metis prod_cases3)
  obtain res2 b r2 where g2: "getJWKS f2 (r1\<lparr>rj_cache := None\<rparr>) = (res2, b, r2)" by (metis prod_cases3)
  obtain keys1 where k1: "res1 = Inr keys1" using assms g1 by (cases res1) (auto simp: findKey_def)
  show ?thesis
  proof (cases "matchKey keys1 kid alg")
    case (Some key)
    with assms g1 k1 have "k = key" "n = of_bool a" "r' = r1" by (auto simp: findKey_def)
    with matchKey_Some [OF Some] getJWKS_cached [of f1 r keys1 a r1] g1 k1 show ?thesis by auto
  next
    case None
    with assms g1 k1 g2 obtain keys2 where k2: "res2 = Inr keys2" by (cases res2) (auto simp: findKey_def)
    with None assms g1 k1 g2 obtain key where key: "matchKey keys2 kid alg = Some key"
      by (auto simp: findKey_def split: option.splits)
    with None assms g1 k1 g2 k2 have "k = key" "n = of_bool a + of_bool b" "r' = r2" by (auto simp: findKey_def)
    with matchKey_Some [OF key] getJWKS_cached [OF g2 [unfolded k2]] show ?thesis by auto
  qed
qed

lemma findKey_served:
  assumes "serves f1 (rj_url r) ks" "serves f2 (rj_url r) ks" "matchKey ks kid alg = Some jwk"
    and "\<And>keys t. rj_cache r = Some (keys, t) \<Longrightarrow> matchKey keys kid alg \<in> {None, Some jwk}"
  shows "\<exists>n r'. findKey f1 f2 kid alg r = (Inr jwk, n, r')"
proof -
  consider "getJWKS f1 r = (Inr ks, True, r\<lparr>rj_cache := Some (ks, jf_stored f1)\<rparr>)"
    | keys t where "rj_cache r = Some (keys, t)" "getJWKS f1 r = (Inr keys, False, r)"
    using getJWKS_served [OF assms(1)] by blast
  then show ?thesis
  proof cases
    case 1
    with assms(3) show ?thesis by (simp add: findKey_def)
  next
    case (2 keys t)
    have "getJWKS f2 (r\<lparr>rj_cache := None\<rparr>) = (Inr ks, True, (r\<lparr>rj_cache := None\<rparr>)\<lparr>rj_cache := Some (ks, jf_stored f2)\<rparr>)"
      by (rule getJWKS_uncached) (use assms(2) in simp_all)
    with 2 assms(3) assms(4) [OF 2(1)] show ?thesis by (auto simp: findKey_def)
  qed
qed

text \<open>
  A lookup that misses empties the cache before it asks again: when the endpoint is
  down at that moment, a key that was cached, and fresh, is lost.
\<close>

lemma miss_drops_cache:
  assumes "rj_cache r = Some (keys, t)" "jf_now f1 - t < rj_ttl r" "matchKey keys kid alg = None"
    and "jf_get f2 (rj_url r) = Inl e"
  shows "snd (snd (findKey f1 f2 kid alg r)) = r\<lparr>rj_cache := None\<rparr>"
  using assms by (simp add: findKey_def getJWKS_def)

text \<open>A lifetime of zero (or less) never answers from the cache.\<close>

lemma no_ttl_no_cache:
  assumes "rj_ttl r \<le> 0" "\<And>keys t. rj_cache r = Some (keys, t) \<Longrightarrow> t \<le> jf_now f"
  shows "fst (snd (getJWKS f r))"
  using assms by (fastforce simp: getJWKS_def split: option.splits sum.splits prod.splits)

text \<open>
  C20: Keys published as a key set are resolved by a remote verifier: when every
  published key is one Go's packages produce, the key's identifier belongs to no
  other key of the set, and the endpoint serves the set, then asking for a key's
  identifier and algorithm gives back that very key. This holds with a cold cache,
  with the same set cached, and after a rotation, when a fresh cache holds only keys
  with other identifiers: the miss refetches.
\<close>

theorem published_key_resolves:
  assumes "NewJWKS env pubs = Inr ks" "pub \<in> set pubs" "list_all go_key pubs"
    and "ComputeKIDFromPublicKey env pub = Inr kid" "kid \<noteq> []"
    and "filter (\<lambda>p. ComputeKIDFromPublicKey env p = Inr kid) pubs = [pub]"
    and "DetectAlgorithm pub = Inr alg"
    and "serves f1 (rj_url r) ks" "serves f2 (rj_url r) ks"
    and "rj_cache r = None \<or> rj_cache r = Some (ks, t) \<or>
      (rj_cache r = Some (old, t) \<and> kid \<notin> jwk_Kid ` set old)"
  shows "fst (Remote_KeyFunc f1 f2 kid alg r) = Inr pub"
proof -
  have "p = pub" if "p \<in> set pubs" "ComputeKIDFromPublicKey env p = Inr kid" for p
  proof -
    have "p \<in> set (filter (\<lambda>p. ComputeKIDFromPublicKey env p = Inr kid) pubs)" using that by simp
    then show ?thesis unfolding assms(6) by simp
  qed
  then obtain jwk where m: "matchKey ks kid alg = Some jwk" "JWKToPublicKey jwk = Inr pub"
    using published_key_found [OF assms(1,2) _ assms(4,5) _ assms(7)] assms(3) by (auto simp: list_all_iff)
  have "matchKey old kid alg = None" if "kid \<notin> jwk_Kid ` set old"
    using that assms(5) by (auto simp: matchKey_def find_None_iff key_matches_def)
  then have "\<exists>n r'. findKey f1 f2 kid alg r = (Inr jwk, n, r')"
    using assms(10) m(1) by (intro findKey_served [OF assms(8,9) m(1)]) auto
  with m(2) show ?thesis by (auto simp: Remote_KeyFunc_def)
qed

definition sample_fetch :: "JWK list \<Rightarrow> jwks_fetch" where
  "sample_fetch ks = \<lparr>jf_now = 0, jf_get = (\<lambda>u. Inr \<lparr>hr_Status = 200, hr_Header = Map.empty, hr_Body = Inr []\<rparr>),
     jf_decode = (\<lambda>b. Inr ks), jf_stored = 0\<rparr>"

theorem published_key_resolves_witness:
  "\<exists>ks. NewJWKS sample_x509 [EdPub (replicate 32 (CHR ''k''))] = Inr ks \<and>
    fst (Remote_KeyFunc (sample_fetch ks) (sample_fetch ks) ''6465723031323334'' ''EdDSA''
      \<lparr>rj_url = ''https://keys'', rj_cache = Some ([], 0), rj_ttl = go_minute\<rparr>) = Inr (EdPub (replicate 32 (CHR ''k'')))"
proof -
  let ?pub = "EdPub (replicate 32 (CHR ''k''))"
  have kid: "ComputeKIDFromPublicKey sample_x509 p = Inr ''6465723031323334''" for p
    by (simp add: ComputeKIDFromPublicKey_def ComputeKID_def sample_x509_def hex_encode_def hex_digit_def
        byte_def char_of_def bit_0)
  obtain jwk where "NewJWKFromPublicKey ?pub ''6465723031323334'' = Inr jwk"
    unfolding NewJWKFromPublicKey_def by simp
  then have ks: "NewJWKS sample_x509 [?pub] = Inr [jwk]" by (simp add: kid)
  have sv: "serves (sample_fetch [jwk]) u [jwk]" for u by (simp add: serves_def sample_fetch_def)
  show ?thesis
    using published_key_resolves [OF ks, of ?pub "''6465723031323334''" "''EdDSA''" "sample_fetch [jwk]"
        "\<lparr>rj_url = ''https://keys'', rj_cache = Some ([], 0), rj_ttl = go_minute\<rparr>" "sample_fetch [jwk]" 0 "[]"] ks sv
    by (simp add: kid go_key_def DetectAlgorithm_def)
qed

end
