(* ===== verification/GrpcJwt.thy ===== *)
theory GrpcJwt
  imports JwtKeys TokenSources
begin

text \<open>
  Token validation on inbound gRPC calls and self-minted service tokens
  (\<open>grpcjwt\<close>): the validator with its key source, the unary interceptor, and the
  cached token source, which fulfils the contract \<open>token_cache\<close>. The handler behind
  the interceptor is represented by the context it is called with.
\<close>

section \<open>The validator (\<open>grpcjwt/validator.go\<close>)\<close>

record GrpcJwtConfig =
  gj_JWKSURL :: string
  gj_PublicKeyFile :: string
  gj_Issuer :: string
  gj_Audience :: string
  gj_ClockSkew :: int
  gj_SubjectClaim :: string
  gj_CacheTTL :: int

text \<open>The key function of a validator is the remote resolver's or a constant.\<close>

datatype key_source = RemoteKeys RemoteJWKS | StaticKey pub_key

record Validator =
  vd_keyFunc :: key_source
  vd_verifyCfg :: VerifyConfig
  vd_subjectClaim :: string

definition loadPublicKey :: "x509_env \<Rightarrow> string \<Rightarrow> pub_key res" where
  "loadPublicKey env path =
     (case xe_ReadFile env path of
        Inl e \<Rightarrow> Inl e
      | Inr data \<Rightarrow>
          (case xe_pem_Decode env data of
             None \<Rightarrow> Inl (Errorf ''no PEM block found in %s'' [ArgS path])
           | Some block \<Rightarrow> xe_ParsePKIX env block))"

definition NewValidator :: "x509_env \<Rightarrow> GrpcJwtConfig \<Rightarrow> Validator res" where
  "NewValidator env cfg =
     (let subject = (if gj_SubjectClaim cfg = [] then ''sub'' else gj_SubjectClaim cfg);
          vcfg = \<lparr>vc_AllowedAlgorithms = [], vc_RequiredIssuer = gj_Issuer cfg,
                  vc_RequiredAudience = gj_Audience cfg, vc_ClockSkew = gj_ClockSkew cfg\<rparr>
      in if gj_JWKSURL cfg \<noteq> []
         then Inr \<lparr>vd_keyFunc = RemoteKeys (NewRemoteJWKS (gj_JWKSURL cfg) [WithCacheTTL (gj_CacheTTL cfg)]),
                   vd_verifyCfg = vcfg, vd_subjectClaim = subject\<rparr>
         else if gj_PublicKeyFile cfg \<noteq> []
         then (case loadPublicKey env (gj_PublicKeyFile cfg) of
                 Inl e \<Rightarrow> Inl (Wrapf ''grpcjwt: loading public key: %w'' [] e)
               | Inr pub \<Rightarrow> Inr \<lparr>vd_keyFunc = StaticKey pub, vd_verifyCfg = vcfg, vd_subjectClaim = subject\<rparr>)
         else Inl (New ''grpcjwt: one of JWKSURL or PublicKeyFile is required''))"

text \<open>The two chances to fetch of one lookup, and the clock \<open>Verify\<close> reads.\<close>

record validation =
  va_env :: jwt_env
  va_now :: int
  va_fetch1 :: jwks_fetch
  va_fetch2 :: jwks_fetch

fun source_key :: "validation \<Rightarrow> key_source KeyFunc" where
  "source_key va kid alg (RemoteKeys r) =
     (case Remote_KeyFunc (va_fetch1 va) (va_fetch2 va) kid alg r of (res, r') \<Rightarrow> (res, RemoteKeys r'))"
| "source_key va kid alg (StaticKey pub) = (Inr pub, StaticKey pub)"

definition ValidateToken :: "validation \<Rightarrow> Validator \<Rightarrow> string \<Rightarrow> string res \<times> Validator" where
  "ValidateToken va v tokenString =
     (case Verify (va_env va) (va_now va) tokenString (source_key va) (Some (vd_verifyCfg v)) (vd_keyFunc v) of
        (Inl e, ks) \<Rightarrow> (Inl e, v\<lparr>vd_keyFunc := ks\<rparr>)
      | (Inr vt, ks) \<Rightarrow>
          (case map_of (vt_Claims vt) (vd_subjectClaim v) of
             None \<Rightarrow> Inl (Errorf ''grpcjwt: claim %q not found in token'' [ArgS (vd_subjectClaim v)])
           | Some (JString subStr) \<Rightarrow> Inr subStr
           | Some _ \<Rightarrow> Inl (Errorf ''grpcjwt: claim %q is not a string'' [ArgS (vd_subjectClaim v)]),
           v\<lparr>vd_keyFunc := ks\<rparr>))"

section \<open>The interceptor (\<open>grpcjwt/interceptor.go\<close>)\<close>

text \<open>The parts of a call's context that matter: incoming metadata, if any, and the stored subject.\<close>

record call_ctx =
  cx_metadata :: "(string \<rightharpoonup> string list) option"
  cx_subject :: "string option"

text \<open>The handler runs with a context, or the call ends with an \<open>Unauthenticated\<close> status.\<close>

datatype intercepted = Handle_with call_ctx | Unauthenticated go_error

definition UnaryInterceptor :: "validation \<Rightarrow> Validator \<Rightarrow> call_ctx \<Rightarrow> intercepted \<times> Validator" where
  "UnaryInterceptor va v ctx =
     (case cx_metadata ctx of
        None \<Rightarrow> (Handle_with ctx, v)
      | Some md \<Rightarrow>
          (case md ''authorization'' of
             None \<Rightarrow> (Handle_with ctx, v)
           | Some [] \<Rightarrow> (Handle_with ctx, v)
           | Some (a # _) \<Rightarrow>
               (let token = TrimPrefix a ''Bearer ''
                in if token = [] then (Unauthenticated (New ''empty token''), v)
                   else (case ValidateToken va v token of
                           (Inl err, v') \<Rightarrow> (Unauthenticated (Wrapf ''invalid token: %v'' [] err), v')
                         | (Inr subject, v') \<Rightarrow> (Handle_with (ctx\<lparr>cx_subject := Some subject\<rparr>), v')))))"

definition SubjectFromContext :: "call_ctx \<Rightarrow> string \<times> bool" where
  "SubjectFromContext ctx = (case cx_subject ctx of Some s \<Rightarrow> (s, True) | None \<Rightarrow> ([], False))"

section \<open>Service tokens (\<open>grpcjwt/token_source.go\<close>)\<close>

definition tokenRefreshBuffer :: int where
  "tokenRefreshBuffer = 30 * go_second"

record ServiceTokenSource =
  ss_kp :: KeyPair
  ss_cfg :: SigningConfig
  ss_subject :: string
  ss_token :: string
  ss_expiry :: int

definition NewServiceTokenSource :: "KeyPair \<Rightarrow> string \<Rightarrow> SigningConfig \<Rightarrow> ServiceTokenSource" where
  "NewServiceTokenSource kp subject cfg =
     \<lparr>ss_kp = kp, ss_cfg = cfg, ss_subject = subject, ss_token = [], ss_expiry = 0\<rparr>"

text \<open>The signing library, the clock \<open>SignWithConfig\<close> reads and the one read after it.\<close>

record mint_moment =
  mm_sign :: signed_string
  mm_signed :: int
  mm_after :: int

definition cachedToken :: "mint_moment \<Rightarrow> int \<Rightarrow> ServiceTokenSource \<Rightarrow> string res \<times> ServiceTokenSource" where
  "cachedToken mm now s =
     (if ss_token s \<noteq> [] \<and> now < ss_expiry s then (Inr (ss_token s), s)
      else (case SignWithConfig (mm_sign mm) (mm_signed mm) (ss_kp s) (ss_cfg s) [(''sub'', ClaimString (ss_subject s))] of
              Inl e \<Rightarrow> (Inl e, s)
            | Inr tok \<Rightarrow>
                (Inr tok, s\<lparr>ss_token := tok,
                            ss_expiry := mm_after mm + wrap64 (sg_TTL (ss_cfg s) - tokenRefreshBuffer)\<rparr>)))"

definition GetRequestMetadata :: "mint_moment \<Rightarrow> int \<Rightarrow> ServiceTokenSource \<Rightarrow> (string \<times> string) list res \<times> ServiceTokenSource" where
  "GetRequestMetadata mm now s =
     (case cachedToken mm now s of
        (Inl e, s') \<Rightarrow> (Inl e, s')
      | (Inr tok, s') \<Rightarrow> (Inr [(''authorization'', ''Bearer '' @ tok)], s'))"

definition RequireTransportSecurity :: bool where
  "RequireTransportSecurity = True"

interpretation svc: token_cache ss_token "\<lambda>now s. ss_token s \<noteq> [] \<and> now < ss_expiry s" cachedToken
  by unfold_locales (auto simp: cachedToken_def split: if_splits sum.splits)

text \<open>What a minted token says: its subject is the service's, and it outlives the time it is served from the cache.\<close>

lemma config_claims_sub:
  "map_of (config_claims now cfg [(''sub'', v)]) ''sub'' = Some v"
  "map_of (config_claims now cfg [(''sub'', v)]) ''exp'' = Some (ClaimDate (now + sg_TTL cfg))"
  by (simp_all add: config_claims_def Let_def put_def)

lemma cachedToken_window:
  assumes "cachedToken mm now s = (Inr tok, s')" "\<not> (ss_token s \<noteq> [] \<and> now < ss_expiry s)"
    and "0 \<le> sg_TTL (ss_cfg s)" "in_int64 (sg_TTL (ss_cfg s))"
  shows "ss_expiry s' = mm_after mm + (sg_TTL (ss_cfg s) - tokenRefreshBuffer)"
proof -
  have "in_int64 (sg_TTL (ss_cfg s) - tokenRefreshBuffer)"
    using assms(3,4) by (simp add: in_int64_def tokenRefreshBuffer_def)
  with assms(1,2) show ?thesis by (auto simp: cachedToken_def split: sum.splits)
qed

section \<open>Who a handler sees\<close>

lemma ValidateToken_Inr:
  "fst (ValidateToken va v tok) = Inr sub \<longleftrightarrow>
     (\<exists>vt. accepts (va_env va) (va_now va) (vd_verifyCfg v) tok
             (\<lambda>kid alg. case fst (source_key va kid alg (vd_keyFunc v)) of Inr pub \<Rightarrow> Some pub | Inl _ \<Rightarrow> None) vt \<and>
           map_of (vt_Claims vt) (vd_subjectClaim v) = Some (JString sub))"
proof -
  have "fst (ValidateToken va v tok) = Inr sub \<longleftrightarrow>
      (\<exists>vt. fst (Verify (va_env va) (va_now va) tok (source_key va) (Some (vd_verifyCfg v)) (vd_keyFunc v)) = Inr vt \<and>
         map_of (vt_Claims vt) (vd_subjectClaim v) = Some (JString sub))"
    by (auto simp: ValidateToken_def split: prod.splits sum.splits option.splits json.splits)
  then show ?thesis by (simp add: Verify_accepts)
qed

definition auth_values :: "call_ctx \<Rightarrow> string list" where
  "auth_values ctx = (case cx_metadata ctx of None \<Rightarrow> [] | Some md \<Rightarrow> (case md ''authorization'' of None \<Rightarrow> [] | Some vs \<Rightarrow> vs))"

lemma UnaryInterceptor_alt:
  "UnaryInterceptor va v ctx =
     (case auth_values ctx of
        [] \<Rightarrow> (Handle_with ctx, v)
      | a # _ \<Rightarrow>
          if TrimPrefix a ''Bearer '' = [] then (Unauthenticated (New ''empty token''), v)
          else (case ValidateToken va v (TrimPrefix a ''Bearer '') of
                  (Inl err, v') \<Rightarrow> (Unauthenticated (Wrapf ''invalid token: %v'' [] err), v')
                | (Inr subject, v') \<Rightarrow> (Handle_with (ctx\<lparr>cx_subject := Some subject\<rparr>), v')))"
  by (auto simp: UnaryInterceptor_def auth_values_def Let_def split: option.splits list.splits)

text \<open>
  C14: The handler of a call is reached in two ways only. Without an authorization
  value it runs with the context unchanged, so with no subject of this interceptor.
  With one, it runs exactly when the token (the first value, without the Bearer
  prefix) is not empty and is accepted by the reference \<open>accepts\<close> under the
  validator's configuration and key source, and its subject claim is a string; that
  string is then what \<open>SubjectFromContext\<close> returns.
\<close>

theorem interceptor_authenticates:
  "fst (UnaryInterceptor va v ctx) = Handle_with ctx' \<longleftrightarrow>
     (auth_values ctx = [] \<and> ctx' = ctx) \<or>
     (\<exists>a as sub vt.
        auth_values ctx = a # as \<and> TrimPrefix a ''Bearer '' \<noteq> [] \<and>
        accepts (va_env va) (va_now va) (vd_verifyCfg v) (TrimPrefix a ''Bearer '')
          (\<lambda>kid alg. case fst (source_key va kid alg (vd_keyFunc v)) of Inr pub \<Rightarrow> Some pub | Inl _ \<Rightarrow> None) vt \<and>
        map_of (vt_Claims vt) (vd_subjectClaim v) = Some (JString sub) \<and>
        ctx' = ctx\<lparr>cx_subject := Some sub\<rparr> \<and> SubjectFromContext ctx' = (sub, True))"
proof (cases "auth_values ctx")
  case Nil
  then show ?thesis by (auto simp: UnaryInterceptor_alt)
next
  case (Cons a as)
  have "fst (UnaryInterceptor va v ctx) = Handle_with ctx' \<longleftrightarrow>
      TrimPrefix a ''Bearer '' \<noteq> [] \<and>
      (\<exists>sub. fst (ValidateToken va v (TrimPrefix a ''Bearer '')) = Inr sub \<and> ctx' = ctx\<lparr>cx_subject := Some sub\<rparr>)"
    using Cons by (auto simp: UnaryInterceptor_alt split: prod.splits sum.splits)
  then show ?thesis unfolding ValidateToken_Inr using Cons by (auto simp: SubjectFromContext_def)
qed

text \<open>
  A validator configured without a cache lifetime never answers from the cache: the
  zero of the configuration replaces the resolver's default of five minutes.
\<close>

lemma zero_ttl_validator:
  assumes "NewValidator env cfg = Inr v" "gj_JWKSURL cfg \<noteq> []" "gj_CacheTTL cfg = 0"
  shows "\<exists>r. vd_keyFunc v = RemoteKeys r \<and> rj_ttl r = 0"
  using assms by (auto simp: NewValidator_def Let_def NewRemoteJWKS_def)

text \<open>Neither a missing lifetime nor a clock can make a token without a numeric expiry expire.\<close>

lemma no_expiry:
  assumes "\<And>n. map_of claims ''exp'' \<noteq> Some (JNumber n)" "claims_hold env now cfg claims" "now \<le> later"
  shows "claims_hold env later cfg claims"
  using assms by (fastforce simp: claims_hold_def)

end
