(* ===== verification/AuditOutbox.thy ===== *)
theory AuditOutbox
  imports AuditEvents "HOL-Library.Product_Lexorder"
begin

text \<open>
  The transactional outbox (\<open>audit/outbox.go\<close>): the table, the statements the code
  runs on it, one delivery, and the system of several replicas that deliver from one
  table. A statement runs atomically, as PostgreSQL runs it; a statement that reports
  an error may or may not have taken effect. Times are microseconds of the
  database clock.
\<close>

section \<open>The table\<close>

text \<open>The table's CHECK ties the two lease columns together: both are set or neither is.\<close>

record OutboxRow =
  or_id :: nat
  or_service :: string
  or_payload :: string
  or_enqueued :: int
  or_next :: int
  or_attempts :: int
  or_lease :: "(nat \<times> int) option"

type_synonym outbox_table = "OutboxRow list"

record PGOutbox =
  ob_service :: string

definition db_second :: int where "db_second = 1000000"

definition outboxLease :: int where "outboxLease = 60 * db_second"
definition maxOutboxPayload :: nat where "maxOutboxPayload = 262144"

definition ErrOutboxLeaseLost :: go_error where
  "ErrOutboxLeaseLost = New ''audit outbox lease lost''"

definition NewPGOutbox :: "bool \<Rightarrow> string \<Rightarrow> PGOutbox res" where
  "NewPGOutbox pool service =
     (if \<not> pool \<or> service = [] then Inl (New ''audit outbox requires pool and service'')
      else Inr \<lparr>ob_service = service\<rparr>)"

text \<open>How the database answers a statement; \<open>Db_error True\<close> failed after it took effect.\<close>

datatype db_outcome = Db_ok | Db_error go_error bool

section \<open>Enqueue\<close>

text \<open>The INSERT with its conflict clause: rows affected, and the table.\<close>

definition outbox_insert :: "int \<Rightarrow> nat \<Rightarrow> string \<Rightarrow> string \<Rightarrow> outbox_table \<Rightarrow> nat \<times> outbox_table" where
  "outbox_insert now uid service payload tbl =
     (case List.find (\<lambda>r. or_id r = uid) tbl of
        None \<Rightarrow> (1, tbl @ [\<lparr>or_id = uid, or_service = service, or_payload = payload, or_enqueued = now,
                           or_next = now, or_attempts = 0, or_lease = None\<rparr>])
      | Some r \<Rightarrow> if or_service r = service \<and> or_payload r = payload then (1, tbl) else (0, tbl))"

record enqueue_env =
  eq_uuid :: uuid_lib
  eq_random :: "nat res"
  eq_time :: int
  eq_valid :: "string \<Rightarrow> bool"
  eq_marshal :: "Event \<Rightarrow> string res"
  eq_db :: err
  eq_now :: int

text \<open>
  The statement runs in the caller's transaction, which is rolled back on an error:
  what is returned is the table after that transaction.
\<close>

definition EnqueueTx :: "enqueue_env \<Rightarrow> PGOutbox \<Rightarrow> Event option \<Rightarrow> outbox_table \<Rightarrow> err \<times> outbox_table" where
  "EnqueueTx env ob oevent tbl =
     (case PrepareEvent (eq_uuid env) (eq_random env) (eq_time env) oevent of
        Inl e \<Rightarrow> (Some e, tbl)
      | Inr prepared \<Rightarrow>
          if ev_Service prepared \<noteq> [] \<and> ev_Service prepared \<noteq> ob_service ob
          then (Some (New ''audit outbox service mismatch''), tbl)
          else (let prepared = prepared\<lparr>ev_Service := ob_service ob\<rparr>
                in case ValidateEvent (eq_uuid env) (eq_valid env) (Some prepared) of
                     Some e \<Rightarrow> (Some e, tbl)
                   | None \<Rightarrow>
                       (case eq_marshal env prepared of
                          Inl e \<Rightarrow> (Some e, tbl)
                        | Inr payload \<Rightarrow>
                            if length payload > maxOutboxPayload
                            then (Some (New ''audit outbox payload too large''), tbl)
                            else (case eq_db env of
                                    Some e \<Rightarrow> (Some (Wrapf ''enqueue audit outbox: %w'' [] e), tbl)
                                  | None \<Rightarrow>
                                      (case ul_Parse (eq_uuid env) (ev_ID prepared) of
                                         None \<Rightarrow> (Some (New ''enqueue audit outbox: invalid uuid''), tbl)
                                       | Some uid \<Rightarrow>
                                           (case outbox_insert (eq_now env) uid (ob_service ob) payload tbl of
                                              (n, tbl') \<Rightarrow>
                                                if n \<noteq> 1 then (Some (New ''audit outbox event identity conflict''), tbl)
                                                else (None, tbl')))))))"

section \<open>Claim and finish\<close>

record outboxClaim =
  oc_id :: nat
  oc_token :: nat
  oc_payload :: string
  oc_attempts :: int

text \<open>\<open>locked\<close> are the rows other transactions hold, which the candidate query skips.\<close>

definition claimable :: "string \<Rightarrow> (nat \<Rightarrow> bool) \<Rightarrow> int \<Rightarrow> OutboxRow \<Rightarrow> bool" where
  "claimable service locked now r \<longleftrightarrow>
     or_service r = service \<and> or_next r \<le> now \<and>
     (case or_lease r of None \<Rightarrow> True | Some (_, until) \<Rightarrow> until \<le> now) \<and> \<not> locked (or_id r)"

definition candidate :: "string \<Rightarrow> (nat \<Rightarrow> bool) \<Rightarrow> int \<Rightarrow> outbox_table \<Rightarrow> OutboxRow option" where
  "candidate service locked now tbl =
     (case sort_key (\<lambda>r. (or_next r, or_enqueued r, or_id r)) (filter (claimable service locked now) tbl) of
        [] \<Rightarrow> None
      | r # _ \<Rightarrow> Some r)"

definition update_row :: "nat \<Rightarrow> (OutboxRow \<Rightarrow> OutboxRow) \<Rightarrow> outbox_table \<Rightarrow> outbox_table" where
  "update_row uid f tbl = map (\<lambda>r. if or_id r = uid then f r else r) tbl"

text \<open>The clock is read when rows are filtered (\<open>now\<close>) and again for the lease (\<open>now'\<close>).\<close>

definition claim :: "db_outcome \<Rightarrow> (nat \<Rightarrow> bool) \<Rightarrow> int \<Rightarrow> int \<Rightarrow> nat \<Rightarrow> PGOutbox \<Rightarrow> outbox_table \<Rightarrow> outboxClaim option res \<times> outbox_table" where
  "claim db locked now now' token ob tbl =
     (let run = (case candidate (ob_service ob) locked now tbl of
                   None \<Rightarrow> (None, tbl)
                 | Some r \<Rightarrow>
                     (Some \<lparr>oc_id = or_id r, oc_token = token, oc_payload = or_payload r, oc_attempts = or_attempts r + 1\<rparr>,
                      update_row (or_id r)
                        (\<lambda>x. x\<lparr>or_lease := Some (token, now' + outboxLease), or_attempts := or_attempts x + 1\<rparr>) tbl))
      in case db of
           Db_ok \<Rightarrow> (Inr (fst run), snd run)
         | Db_error e effect \<Rightarrow> (Inl e, if effect then snd run else tbl))"

definition retrySeconds :: "int \<Rightarrow> int" where
  "retrySeconds attempts =
     (if attempts > 5 then 30 else if attempts < 1 then 1 else 2 ^ nat (attempts - 1))"

definition holds_lease :: "outboxClaim \<Rightarrow> int \<Rightarrow> OutboxRow \<Rightarrow> bool" where
  "holds_lease c now r \<longleftrightarrow>
     or_id r = oc_id c \<and> (case or_lease r of None \<Rightarrow> False | Some (token, until) \<Rightarrow> token = oc_token c \<and> until > now)"

definition finish :: "db_outcome \<Rightarrow> int \<Rightarrow> outboxClaim \<Rightarrow> bool \<Rightarrow> outbox_table \<Rightarrow> err \<times> outbox_table" where
  "finish db now c delivered tbl =
     (let affected = length (filter (holds_lease c now) tbl);
          tbl' = (if delivered then filter (\<lambda>r. \<not> holds_lease c now r) tbl
                  else map (\<lambda>r. if holds_lease c now r
                                then r\<lparr>or_next := now + retrySeconds (oc_attempts c) * db_second, or_lease := None\<rparr> else r) tbl)
      in case db of
           Db_error e effect \<Rightarrow> (Some e, if effect then tbl' else tbl)
         | Db_ok \<Rightarrow> (if affected \<noteq> 1 then Some ErrOutboxLeaseLost else None, tbl'))"

section \<open>One delivery\<close>

text \<open>
  The transport answers a batch with an error or not; \<open>others\<close> is what the other
  replicas and producers do to the table between claim and finish.
\<close>

record deliver_env =
  dl_claim_db :: db_outcome
  dl_locked :: "nat \<Rightarrow> bool"
  dl_now :: int
  dl_now' :: int
  dl_token :: nat
  dl_decode :: "string \<Rightarrow> Event res"
  dl_send :: "(Event list \<Rightarrow> err) option"
  dl_others :: "outbox_table \<Rightarrow> outbox_table"
  dl_finish_db :: db_outcome
  dl_finish_now :: int

definition send_claim :: "(string \<Rightarrow> Event res) \<Rightarrow> (Event list \<Rightarrow> err) \<Rightarrow> outboxClaim \<Rightarrow> err" where
  "send_claim decode send c = (case decode (oc_payload c) of Inl e \<Rightarrow> Some e | Inr event \<Rightarrow> send [event])"

definition DeliverOne :: "deliver_env \<Rightarrow> PGOutbox \<Rightarrow> outbox_table \<Rightarrow> (bool \<times> err) \<times> outbox_table" where
  "DeliverOne env ob tbl =
     (case dl_send env of
        None \<Rightarrow> ((False, Some (New ''audit outbox transport required'')), tbl)
      | Some send \<Rightarrow>
          (case claim (dl_claim_db env) (dl_locked env) (dl_now env) (dl_now' env) (dl_token env) ob tbl of
             (Inl e, tbl1) \<Rightarrow> ((False, Some e), tbl1)
           | (Inr None, tbl1) \<Rightarrow> ((False, None), tbl1)
           | (Inr (Some c), tbl1) \<Rightarrow>
               (let sendErr = send_claim (dl_decode env) send c
                in case finish (dl_finish_db env) (dl_finish_now env) c (sendErr = None) (dl_others env tbl1) of
                     (Some e, tbl2) \<Rightarrow> ((True, Some e), tbl2)
                   | (None, tbl2) \<Rightarrow>
                       if sendErr \<noteq> None
                       then ((True, Some (New ''audit outbox delivery failed; retained for retry'')), tbl2)
                       else ((True, None), tbl2))))"

text \<open>
  The worker loop, over the deliveries it gets to make before its context ends, with
  what happens in between; a pause is one second, taken when there was nothing to do
  or something failed.
\<close>

fun Run :: "(deliver_env \<times> (outbox_table \<Rightarrow> outbox_table)) list \<Rightarrow> PGOutbox \<Rightarrow> outbox_table \<Rightarrow> bool list \<times> outbox_table" where
  "Run [] ob tbl = ([], tbl)"
| "Run ((env, between) # es) ob tbl =
     (case DeliverOne env ob tbl of
        ((worked, e), tbl') \<Rightarrow>
          (case Run es ob (between tbl') of (pauses, tbl'') \<Rightarrow> ((\<not> (worked \<and> e = None)) # pauses, tbl'')))"

section \<open>Backlog\<close>

record OutboxBacklog =
  bl_Count :: nat
  bl_OldestAge :: int

text \<open>The age comes back in seconds, as a \<open>float8\<close>, and is scaled to nanoseconds.\<close>

definition Backlog :: "(f64 \<Rightarrow> int) \<Rightarrow> err \<Rightarrow> int \<Rightarrow> PGOutbox \<Rightarrow> outbox_table \<Rightarrow> OutboxBacklog \<times> err" where
  "Backlog oob db now ob tbl =
     (let rows = filter (\<lambda>r. or_service r = ob_service ob) tbl;
          age = (if rows = [] then 0 else max 0 (now - Min (or_enqueued ` set rows)));
          secs = fl64 (of_int age / 1000000)
      in if db = None
         then (\<lparr>bl_Count = length rows, bl_OldestAge = f64_to_int64 oob (Fin (fl64 (secs * 1000000000)))\<rparr>, None)
         else (\<lparr>bl_Count = 0, bl_OldestAge = 0\<rparr>, db))"

section \<open>Behaviour of single operations\<close>

text \<open>The pause doubles from one second and stays at thirty.\<close>

lemma retrySeconds_values:
  "retrySeconds 1 = 1" "retrySeconds 2 = 2" "retrySeconds 3 = 4" "retrySeconds 4 = 8" "retrySeconds 5 = 16"
  "6 \<le> n \<Longrightarrow> retrySeconds n = 30"
  by (simp_all add: retrySeconds_def)

lemma retrySeconds_range: "1 \<le> retrySeconds n \<and> retrySeconds n \<le> 30"
proof -
  consider "n < 1" | "n = 1" | "n = 2" | "n = 3" | "n = 4" | "n = 5" | "6 \<le> n" by linarith
  then show ?thesis by cases (simp_all add: retrySeconds_def)
qed

text \<open>A delivery that reports success decoded the claimed payload, had it accepted, and finished its lease.\<close>

lemma DeliverOne_success:
  assumes "DeliverOne env ob tbl = ((True, None), tbl')"
  shows "\<exists>send c tbl1 event. dl_send env = Some send \<and>
    claim (dl_claim_db env) (dl_locked env) (dl_now env) (dl_now' env) (dl_token env) ob tbl = (Inr (Some c), tbl1) \<and>
    dl_decode env (oc_payload c) = Inr event \<and> send [event] = None \<and>
    finish (dl_finish_db env) (dl_finish_now env) c True (dl_others env tbl1) = (None, tbl')"
  using assms
  by (auto simp: DeliverOne_def Let_def send_claim_def split: option.splits prod.splits sum.splits if_splits)

text \<open>A failed send keeps the row: only its lease and its next attempt change.\<close>

lemma DeliverOne_failed_send:
  assumes "dl_send env = Some send" "claim (dl_claim_db env) (dl_locked env) (dl_now env) (dl_now' env) (dl_token env) ob tbl = (Inr (Some c), tbl1)"
    and "send_claim (dl_decode env) send c = Some e"
  shows "map or_payload (snd (DeliverOne env ob tbl)) = map or_payload (dl_others env tbl1) \<and>
    snd (fst (DeliverOne env ob tbl)) \<noteq> None"
  using assms
  by (auto simp: DeliverOne_def Let_def finish_def split: prod.splits option.splits db_outcome.splits if_splits)

text \<open>Enqueueing is idempotent under the event's identity.\<close>

lemma outbox_insert_again:
  assumes "outbox_insert now uid sv p tbl = (1, tbl')"
  shows "outbox_insert now' uid sv p tbl' = (1, tbl')"
proof (cases "List.find (\<lambda>r. or_id r = uid) tbl")
  case None
  then have "List.find (\<lambda>r. or_id r = uid) (tbl @ [r]) = (if or_id r = uid then Some r else None)" for r
    by (induction tbl) (auto split: if_splits)
  with None assms show ?thesis by (auto simp: outbox_insert_def)
next
  case (Some r)
  with assms show ?thesis by (auto simp: outbox_insert_def split: if_splits)
qed

end
