(* ===== verification/OutboxRuns.thy ===== *)
theory OutboxRuns
  imports AuditOutbox
begin

text \<open>
  Several replicas on one outbox table: an interleaving of enqueues, claims, sends,
  finishes, crashes and the passing of time. It refines a specification of
  at-least-once delivery in which an event is forgotten only after it was accepted.
\<close>

section \<open>The system\<close>

text \<open>A worker between deliveries, with a claim, or with the transport's answer; the lease's end is a ghost.\<close>

datatype worker = Idle | Claimed outboxClaim int | Answered outboxClaim int bool

fun worker_claim :: "worker \<Rightarrow> (outboxClaim \<times> int) option" where
  "worker_claim Idle = None"
| "worker_claim (Claimed c u) = Some (c, u)"
| "worker_claim (Answered c u _) = Some (c, u)"

type_synonym item = "nat \<times> string"

record outbox_sys =
  sy_now :: int
  sy_table :: outbox_table
  sy_worker :: "nat \<Rightarrow> worker"
  sy_tokens :: "nat set"
  sy_accepted :: "item set"

definition row_item :: "OutboxRow \<Rightarrow> item" where
  "row_item r = (or_id r, or_payload r)"

definition claim_item :: "outboxClaim \<Rightarrow> item" where
  "claim_item c = (oc_id c, oc_payload c)"

definition pending :: "outbox_sys \<Rightarrow> item set" where
  "pending s = row_item ` set (sy_table s)"

inductive outbox_step :: "outbox_sys \<Rightarrow> outbox_sys \<Rightarrow> bool" where
  tick: "sy_now s \<le> t \<Longrightarrow> outbox_step s (s\<lparr>sy_now := t\<rparr>)"
| enqueue: "EnqueueTx env ob oe (sy_table s) = (e, tbl') \<Longrightarrow> outbox_step s (s\<lparr>sy_table := tbl'\<rparr>)"
| claim_row: "sy_worker s w = Idle \<Longrightarrow> token \<notin> sy_tokens s \<Longrightarrow> sy_now s \<le> t
    \<Longrightarrow> claim Db_ok locked (sy_now s) t token ob (sy_table s) = (Inr (Some c), tbl')
    \<Longrightarrow> outbox_step s (s\<lparr>sy_now := t, sy_table := tbl', sy_tokens := insert token (sy_tokens s),
                         sy_worker := (sy_worker s)(w := Claimed c (t + outboxLease))\<rparr>)"
| claim_failed: "token \<notin> sy_tokens s \<Longrightarrow> sy_now s \<le> t
    \<Longrightarrow> claim (Db_error e effect) locked (sy_now s) t token ob (sy_table s) = (res, tbl')
    \<Longrightarrow> outbox_step s (s\<lparr>sy_now := t, sy_table := tbl', sy_tokens := insert token (sy_tokens s)\<rparr>)"
| send_ok: "sy_worker s w = Claimed c u
    \<Longrightarrow> outbox_step s (s\<lparr>sy_worker := (sy_worker s)(w := Answered c u True),
                         sy_accepted := insert (claim_item c) (sy_accepted s)\<rparr>)"
| send_unsure: "sy_worker s w = Claimed c u \<Longrightarrow> A = sy_accepted s \<or> A = insert (claim_item c) (sy_accepted s)
    \<Longrightarrow> outbox_step s (s\<lparr>sy_worker := (sy_worker s)(w := Answered c u False), sy_accepted := A\<rparr>)"
| finish_row: "sy_worker s w = Answered c u ok \<Longrightarrow> finish db (sy_now s) c ok (sy_table s) = (e, tbl')
    \<Longrightarrow> outbox_step s (s\<lparr>sy_table := tbl', sy_worker := (sy_worker s)(w := Idle)\<rparr>)"
| crash: "outbox_step s (s\<lparr>sy_worker := (sy_worker s)(w := Idle)\<rparr>)"

definition outbox_init :: "outbox_sys \<Rightarrow> bool" where
  "outbox_init s \<longleftrightarrow> sy_table s = [] \<and> sy_worker s = (\<lambda>_. Idle) \<and> sy_tokens s = {} \<and> sy_accepted s = {}"

section \<open>What the statements do\<close>

lemma outbox_insert_cases:
  "outbox_insert now uid sv p tbl = (n, tbl') \<Longrightarrow>
     tbl' = tbl \<or> (\<exists>r. tbl' = tbl @ [r] \<and> or_lease r = None \<and> or_id r = uid \<and> uid \<notin> or_id ` set tbl)"
  by (auto simp: outbox_insert_def find_None_iff split: option.splits if_splits)

lemma EnqueueTx_cases:
  assumes "EnqueueTx env ob oe tbl = (e, tbl')"
  shows "tbl' = tbl \<or> (\<exists>r. tbl' = tbl @ [r] \<and> or_lease r = None \<and> or_id r \<notin> or_id ` set tbl)"
  using assms outbox_insert_cases
  by (fastforce simp: EnqueueTx_def Let_def split: sum.splits option.splits if_splits prod.splits)

lemma candidate_Some:
  "candidate sv locked now tbl = Some r \<Longrightarrow> r \<in> set tbl \<and> claimable sv locked now r"
proof -
  assume "candidate sv locked now tbl = Some r"
  then obtain rs where "sort_key (\<lambda>r. (or_next r, or_enqueued r, or_id r)) (filter (claimable sv locked now) tbl) = r # rs"
    by (auto simp: candidate_def split: list.splits)
  then have "r \<in> set (sort_key (\<lambda>r. (or_next r, or_enqueued r, or_id r)) (filter (claimable sv locked now) tbl))"
    by simp
  then show ?thesis by simp
qed

lemma update_row_items: "(\<And>r. row_item (f r) = row_item r) \<Longrightarrow> map row_item (update_row uid f tbl) = map row_item tbl"
  by (simp add: update_row_def)

definition leased :: "nat \<Rightarrow> int \<Rightarrow> OutboxRow \<Rightarrow> OutboxRow" where
  "leased token u x = x\<lparr>or_lease := Some (token, u), or_attempts := or_attempts x + 1\<rparr>"

lemma leased_simps [simp]:
  "or_id (leased token u r) = or_id r" "or_payload (leased token u r) = or_payload r"
  "or_lease (leased token u r) = Some (token, u)" "row_item (leased token u r) = row_item r"
  by (simp_all add: leased_def row_item_def)

lemma claim_cases:
  assumes "claim db locked now t token ob tbl = (res, tbl')"
  shows "tbl' = tbl \<or>
    (\<exists>r \<in> set tbl. claimable (ob_service ob) locked now r \<and> tbl' = update_row (or_id r) (leased token (t + outboxLease)) tbl)"
  using assms candidate_Some
  by (fastforce simp: claim_def Let_def leased_def [abs_def] split: option.splits db_outcome.splits if_splits)

lemma claim_Some:
  assumes "claim db locked now t token ob tbl = (Inr (Some c), tbl')"
  shows "\<exists>r \<in> set tbl. claimable (ob_service ob) locked now r \<and> tbl' = update_row (or_id r) (leased token (t + outboxLease)) tbl \<and>
    claim_item c = row_item r \<and> oc_token c = token"
  using assms candidate_Some
  by (fastforce simp: claim_def Let_def leased_def [abs_def] claim_item_def row_item_def split: option.splits db_outcome.splits if_splits)

definition retained :: "int \<Rightarrow> outboxClaim \<Rightarrow> OutboxRow \<Rightarrow> OutboxRow" where
  "retained now c r = r\<lparr>or_next := now + retrySeconds (oc_attempts c) * db_second, or_lease := None\<rparr>"

lemma retained_simps [simp]:
  "or_id (retained now c r) = or_id r" "or_lease (retained now c r) = None" "row_item (retained now c r) = row_item r"
  by (simp_all add: retained_def row_item_def)

lemma finish_cases:
  assumes "finish db now c ok tbl = (e, tbl')"
  shows "tbl' = tbl \<or> (ok \<and> tbl' = filter (\<lambda>r. \<not> holds_lease c now r) tbl) \<or>
    (\<not> ok \<and> tbl' = map (\<lambda>r. if holds_lease c now r then retained now c r else r) tbl)"
  using assms by (auto simp: finish_def Let_def retained_def [abs_def] split: db_outcome.splits if_splits)

section \<open>The invariant\<close>

definition tokens_ok :: "nat set \<Rightarrow> outbox_table \<Rightarrow> bool" where
  "tokens_ok T tbl \<longleftrightarrow> (\<forall>r \<in> set tbl. \<forall>tok u. or_lease r = Some (tok, u) \<longrightarrow> tok \<in> T)"

text \<open>
  A worker's claim: its token is only on the row it claimed, as long as the lease
  lives it is there, and the item is pending or accepted; an answer of success
  means acceptance.
\<close>

definition own_token :: "outbox_table \<Rightarrow> outboxClaim \<Rightarrow> int \<Rightarrow> bool" where
  "own_token tbl c u \<longleftrightarrow> (\<forall>r \<in> set tbl. \<forall>v. or_lease r = Some (oc_token c, v) \<longrightarrow> row_item r = claim_item c \<and> v = u)"

definition has_row :: "outbox_table \<Rightarrow> outboxClaim \<Rightarrow> int \<Rightarrow> bool" where
  "has_row tbl c u \<longleftrightarrow> (\<exists>r \<in> set tbl. row_item r = claim_item c \<and> or_lease r = Some (oc_token c, u))"

definition claim_ok :: "int \<Rightarrow> outbox_table \<Rightarrow> nat set \<Rightarrow> item set \<Rightarrow> outboxClaim \<Rightarrow> int \<Rightarrow> bool" where
  "claim_ok now tbl T A c u \<longleftrightarrow>
     oc_token c \<in> T \<and> own_token tbl c u \<and> (now < u \<longrightarrow> has_row tbl c u) \<and> claim_item c \<in> row_item ` set tbl \<union> A"

fun holder_ok :: "int \<Rightarrow> outbox_table \<Rightarrow> nat set \<Rightarrow> item set \<Rightarrow> worker \<Rightarrow> bool" where
  "holder_ok now tbl T A Idle = True"
| "holder_ok now tbl T A (Claimed c u) = claim_ok now tbl T A c u"
| "holder_ok now tbl T A (Answered c u ok) = (claim_ok now tbl T A c u \<and> (ok \<longrightarrow> claim_item c \<in> A))"

definition distinct_holders :: "(nat \<Rightarrow> worker) \<Rightarrow> bool" where
  "distinct_holders wk \<longleftrightarrow>
     (\<forall>w w' c c' u u'. worker_claim (wk w) = Some (c, u) \<longrightarrow> worker_claim (wk w') = Some (c', u') \<longrightarrow>
        w \<noteq> w' \<longrightarrow> oc_token c \<noteq> oc_token c')"

definition outbox_inv :: "outbox_sys \<Rightarrow> bool" where
  "outbox_inv s \<longleftrightarrow>
     distinct (map or_id (sy_table s)) \<and> tokens_ok (sy_tokens s) (sy_table s) \<and>
     (\<forall>w. holder_ok (sy_now s) (sy_table s) (sy_tokens s) (sy_accepted s) (sy_worker s w)) \<and>
     distinct_holders (sy_worker s)"

text \<open>To carry a worker over a change it is enough to carry its claim.\<close>

lemma holder_mono:
  assumes "holder_ok now tbl T A x" "A \<subseteq> A'"
    and "\<And>c u. worker_claim x = Some (c, u) \<Longrightarrow> claim_ok now tbl T A c u \<Longrightarrow> claim_ok now' tbl' T' A' c u"
  shows "holder_ok now' tbl' T' A' x"
  using assms by (cases x) auto

lemma claim_ok_later:
  "claim_ok now tbl T A c u \<Longrightarrow> now \<le> t \<Longrightarrow> T \<subseteq> T' \<Longrightarrow> A \<subseteq> A' \<Longrightarrow> claim_ok t tbl T' A' c u"
  by (auto simp: claim_ok_def)

lemma claim_ok_enqueue:
  "claim_ok now tbl T A c u \<Longrightarrow> or_lease r = None \<Longrightarrow> claim_ok now (tbl @ [r]) T A c u"
  by (auto simp: claim_ok_def own_token_def has_row_def)

lemma same_row:
  "distinct (map or_id tbl) \<Longrightarrow> r \<in> set tbl \<Longrightarrow> q \<in> set tbl \<Longrightarrow> or_id q = or_id r \<Longrightarrow> q = r"
  by (auto simp: distinct_map inj_on_def)

lemma leased_set:
  assumes "distinct (map or_id tbl)" "r \<in> set tbl"
  shows "set (update_row (or_id r) (leased token u) tbl) = insert (leased token u r) (set tbl - {r})"
proof -
  have "set (update_row (or_id r) (leased token u) tbl) = (\<lambda>q. if q = r then leased token u r else q) ` set tbl"
    unfolding update_row_def set_map by (rule image_cong [OF refl]) (use same_row [OF assms] in auto)
  then show ?thesis using assms(2) by auto
qed

lemma leased_items: "row_item ` set (update_row uid (leased token u) tbl) = row_item ` set tbl"
proof -
  have "map row_item (update_row uid (leased token u) tbl) = map row_item tbl" by (rule update_row_items) simp
  then show ?thesis by (metis list.set_map)
qed

lemma claim_ok_lease:
  assumes h: "claim_ok now tbl T A c u" and tok: "token \<notin> T" and cl: "claimable sv locked now r" "r \<in> set tbl"
    and d: "distinct (map or_id tbl)"
  shows "claim_ok now (update_row (or_id r) (leased token u') tbl) T A c u"
proof -
  let ?tbl = "update_row (or_id r) (leased token u') tbl"
  note st = leased_set [OF d cl(2)]
  have ne: "oc_token c \<noteq> token" using h tok by (auto simp: claim_ok_def)
  then have "own_token ?tbl c u" using h by (auto simp: claim_ok_def own_token_def st)
  moreover have "has_row ?tbl c u" if u: "now < u"
  proof -
    from h u obtain q where q: "q \<in> set tbl" "row_item q = claim_item c" "or_lease q = Some (oc_token c, u)"
      by (auto simp: claim_ok_def has_row_def)
    have "q \<noteq> r" using q(3) cl(1) u by (auto simp: claimable_def)
    with q show ?thesis by (auto simp: has_row_def st)
  qed
  ultimately show ?thesis using h by (simp add: claim_ok_def leased_items)
qed

lemma claim_ok_new:
  assumes "r \<in> set tbl" "distinct (map or_id tbl)" "tokens_ok T tbl" "token \<notin> T"
    and "claim_item c = row_item r" "oc_token c = token"
  shows "claim_ok t (update_row (or_id r) (leased token u) tbl) (insert token T) A c u"
  using assms by (auto simp: claim_ok_def own_token_def has_row_def leased_set tokens_ok_def leased_items)

text \<open>A finish touches only the row of its own claim.\<close>

lemma holds_lease_item:
  assumes "claim_ok now tbl T A c u" "r \<in> set tbl" "holds_lease c now r"
  shows "row_item r = claim_item c" "\<exists>v. or_lease r = Some (oc_token c, v)"
  using assms by (auto simp: holds_lease_def claim_ok_def own_token_def split: option.splits prod.splits)

lemma retained_items:
  "row_item ` set (map (\<lambda>r. if holds_lease c now r then retained now c r else r) tbl) = row_item ` set tbl"
proof -
  have "map row_item (map (\<lambda>r. if holds_lease c now r then retained now c r else r) tbl) = map row_item tbl" by simp
  then show ?thesis by (metis list.set_map)
qed

lemma finish_items:
  assumes "claim_ok now tbl T A c u" "ok \<longrightarrow> claim_item c \<in> A" "finish db now c ok tbl = (e, tbl')"
  shows "row_item ` set tbl' \<union> A = row_item ` set tbl \<union> A" "row_item ` set tbl' \<subseteq> row_item ` set tbl"
proof -
  consider "tbl' = tbl" | "ok" "tbl' = filter (\<lambda>r. \<not> holds_lease c now r) tbl"
    | "tbl' = map (\<lambda>r. if holds_lease c now r then retained now c r else r) tbl"
    using finish_cases [OF assms(3)] by blast
  then have "row_item ` set tbl' \<union> A = row_item ` set tbl \<union> A \<and> row_item ` set tbl' \<subseteq> row_item ` set tbl"
  proof cases
    case 2
    then show ?thesis using assms(2) holds_lease_item(1) [OF assms(1)] by auto
  next
    case 3
    then have "row_item ` set tbl' = row_item ` set tbl" by (simp only: retained_items)
    then show ?thesis by simp
  qed simp
  then show "row_item ` set tbl' \<union> A = row_item ` set tbl \<union> A" "row_item ` set tbl' \<subseteq> row_item ` set tbl" by auto
qed

lemma claim_ok_finish:
  assumes h: "claim_ok now tbl T A c u" and h': "claim_ok now tbl T A c' u'" "ok \<longrightarrow> claim_item c' \<in> A"
    and ne: "oc_token c \<noteq> oc_token c'" and f: "finish db now c' ok tbl = (e, tbl')"
  shows "claim_ok now tbl' T A c u"
proof -
  have keep: "q \<in> set tbl'" if "q \<in> set tbl" "or_lease q = Some (oc_token c, v)" for q v
  proof -
    have "\<not> holds_lease c' now q" using that(2) ne by (auto simp: holds_lease_def)
    with that(1) show ?thesis using finish_cases [OF f] by (auto simp: image_iff intro!: bexI [of _ q])
  qed
  have prev: "q \<in> set tbl \<or> or_lease q = None" if "q \<in> set tbl'" for q
    using that finish_cases [OF f] by (auto split: if_splits)
  have "own_token tbl' c u" using h prev by (fastforce simp: claim_ok_def own_token_def)
  moreover have "now < u \<longrightarrow> has_row tbl' c u" using h keep by (auto simp: claim_ok_def has_row_def)
  ultimately show ?thesis using h finish_items(1) [OF h' f] by (auto simp: claim_ok_def)
qed

section \<open>The invariant is kept\<close>

lemma outbox_invI:
  assumes "distinct (map or_id tbl)" "tokens_ok T tbl" "\<And>w. holder_ok now tbl T A (wk w)" "distinct_holders wk"
  shows "outbox_inv \<lparr>sy_now = now, sy_table = tbl, sy_worker = wk, sy_tokens = T, sy_accepted = A\<rparr>"
  using assms by (simp add: outbox_inv_def)

lemma outbox_invD:
  assumes "outbox_inv s"
  shows "distinct (map or_id (sy_table s))" "tokens_ok (sy_tokens s) (sy_table s)"
    "holder_ok (sy_now s) (sy_table s) (sy_tokens s) (sy_accepted s) (sy_worker s w)"
    "distinct_holders (sy_worker s)"
  using assms by (simp_all add: outbox_inv_def)

lemma holder_claim:
  "holder_ok now tbl T A x \<Longrightarrow> worker_claim x = Some (c, u) \<Longrightarrow> claim_ok now tbl T A c u"
  by (cases x) auto

lemma distinct_holdersD:
  "distinct_holders wk \<Longrightarrow> worker_claim (wk w) = Some (c, u) \<Longrightarrow> worker_claim (wk w') = Some (c', u') \<Longrightarrow> w \<noteq> w'
     \<Longrightarrow> oc_token c \<noteq> oc_token c'"
  unfolding distinct_holders_def by blast

lemma claim_ok_row:
  "claim_ok now tbl T A c u \<Longrightarrow> now < u \<Longrightarrow> \<exists>r \<in> set tbl. row_item r = claim_item c \<and> or_lease r = Some (oc_token c, u)"
  by (simp add: claim_ok_def has_row_def)

lemma distinct_holders_same:
  "distinct_holders wk \<Longrightarrow> worker_claim x = worker_claim (wk w) \<or> worker_claim x = None \<Longrightarrow> distinct_holders (wk(w := x))"
  unfolding distinct_holders_def by (metis fun_upd_apply option.distinct(1))

lemma distinct_holders_new:
  assumes "distinct_holders wk" "\<And>w c u. worker_claim (wk w) = Some (c, u) \<Longrightarrow> oc_token c \<noteq> oc_token c'"
  shows "distinct_holders (wk(w := Claimed c' u'))"
  using assms unfolding distinct_holders_def by (metis fun_upd_apply option.inject prod.inject worker_claim.simps(2))

lemma leased_ids: "map or_id (update_row uid (leased token u) tbl) = map or_id tbl"
  by (simp add: update_row_def)

lemma tokens_ok_leased:
  "tokens_ok T tbl \<Longrightarrow> tokens_ok (insert token T) (update_row uid (leased token u) tbl)"
  by (auto simp: tokens_ok_def update_row_def)

lemma finish_frame:
  assumes "finish db now c ok tbl = (e, tbl')"
  shows "distinct (map or_id tbl) \<Longrightarrow> distinct (map or_id tbl')" "tokens_ok T tbl \<Longrightarrow> tokens_ok T tbl'"
proof -
  have m: "or_id \<circ> (\<lambda>r. if holds_lease c now r then retained now c r else r) = or_id" by (simp add: fun_eq_iff)
  show "distinct (map or_id tbl')" if "distinct (map or_id tbl)"
    using finish_cases [OF assms] that by (auto simp: distinct_map_filter m)
  show "tokens_ok T tbl'" if "tokens_ok T tbl"
    using finish_cases [OF assms] that by (auto simp: tokens_ok_def split: if_splits)
qed

lemma inv_claim:
  assumes inv: "outbox_inv s" and tok: "token \<notin> sy_tokens s" and t: "sy_now s \<le> t"
    and c: "claim db locked (sy_now s) t token ob (sy_table s) = (res, tbl')"
  shows "distinct (map or_id tbl')" "tokens_ok (insert token (sy_tokens s)) tbl'"
    "\<And>w. holder_ok t tbl' (insert token (sy_tokens s)) (sy_accepted s) (sy_worker s w)"
    "row_item ` set tbl' = pending s"
proof -
  note d = outbox_invD [OF inv]
  consider "tbl' = sy_table s" | r where "r \<in> set (sy_table s)" "claimable (ob_service ob) locked (sy_now s) r"
      "tbl' = update_row (or_id r) (leased token (t + outboxLease)) (sy_table s)"
    using claim_cases [OF c] by blast
  note alt = this
  show "distinct (map or_id tbl')" "tokens_ok (insert token (sy_tokens s)) tbl'" "row_item ` set tbl' = pending s"
    using d(1,2) tokens_ok_leased by (cases rule: alt; auto simp: leased_ids leased_items pending_def tokens_ok_def)+
  show "holder_ok t tbl' (insert token (sy_tokens s)) (sy_accepted s) (sy_worker s w)" for w
  proof (rule holder_mono [OF d(3)])
    fix c u assume h: "claim_ok (sy_now s) (sy_table s) (sy_tokens s) (sy_accepted s) c u"
    have "claim_ok (sy_now s) tbl' (sy_tokens s) (sy_accepted s) c u"
      using claim_ok_lease [OF h tok _ _ d(1)] h by (cases rule: alt) auto
    then show "claim_ok t tbl' (insert token (sy_tokens s)) (sy_accepted s) c u"
      by (rule claim_ok_later) (use t in auto)
  qed simp
qed

lemma inv_step: "outbox_step s s' \<Longrightarrow> outbox_inv s \<Longrightarrow> outbox_inv s'"
proof (induction rule: outbox_step.induct)
  case (tick s t)
  then show ?case
    using holder_mono claim_ok_later by (simp add: outbox_inv_def) (metis holder_mono claim_ok_later order_refl)
next
  case (enqueue env ob oe s e tbl')
  note d = outbox_invD [OF enqueue.prems]
  from EnqueueTx_cases [OF enqueue.hyps] consider "tbl' = sy_table s"
    | r where "tbl' = sy_table s @ [r]" "or_lease r = None" "or_id r \<notin> or_id ` set (sy_table s)" by blast
  then show ?case
  proof cases
    case (2 r)
    have "holder_ok (sy_now s) tbl' (sy_tokens s) (sy_accepted s) (sy_worker s w)" for w
      by (rule holder_mono [OF d(3)]) (use 2 claim_ok_enqueue in auto)
    with 2 d show ?thesis by (auto simp: outbox_inv_def tokens_ok_def)
  qed (use enqueue.prems in simp)
next
  case (claim_row s w token t locked ob c tbl')
  note d = outbox_invD [OF claim_row.prems] and i = inv_claim [OF claim_row.prems claim_row.hyps(2,3,4)]
  obtain r where r: "r \<in> set (sy_table s)" "tbl' = update_row (or_id r) (leased token (t + outboxLease)) (sy_table s)"
    "claim_item c = row_item r" "oc_token c = token"
    using claim_Some [OF claim_row.hyps(4)] by blast
  have "claim_ok t tbl' (insert token (sy_tokens s)) (sy_accepted s) c (t + outboxLease)"
    unfolding r(2) by (rule claim_ok_new [OF r(1) d(1,2) claim_row.hyps(2) r(3,4)])
  moreover have "oc_token c' \<noteq> oc_token c" if "worker_claim (sy_worker s w') = Some (c', u)" for w' c' u
    using holder_claim [OF d(3) that] claim_row.hyps(2) r(4) by (auto simp: claim_ok_def)
  then have "distinct_holders ((sy_worker s)(w := Claimed c (t + outboxLease)))"
    using d(4) by (intro distinct_holders_new) auto
  ultimately show ?case using i by (simp add: outbox_inv_def)
next
  case (claim_failed token s t e effect locked ob res tbl')
  then show ?case using inv_claim [OF claim_failed.prems claim_failed.hyps] outbox_invD(4) by (simp add: outbox_inv_def)
next
  case (send_ok s w c u)
  note d = outbox_invD [OF send_ok.prems]
  have h: "claim_ok (sy_now s) (sy_table s) (sy_tokens s) (insert (claim_item c) (sy_accepted s)) c u"
    using d(3) [of w] send_ok.hyps claim_ok_later [OF _ order_refl order_refl subset_insertI] by auto
  have "holder_ok (sy_now s) (sy_table s) (sy_tokens s) (insert (claim_item c) (sy_accepted s)) (sy_worker s w')" for w'
    by (rule holder_mono [OF d(3)]) (use claim_ok_later in blast)+
  with h d distinct_holders_same [OF d(4), of "Answered c u True" w] send_ok.hyps show ?case
    by (simp add: outbox_inv_def)
next
  case (send_unsure s w c u A)
  note d = outbox_invD [OF send_unsure.prems]
  have A: "sy_accepted s \<subseteq> A" using send_unsure.hyps(2) by blast
  have h: "claim_ok (sy_now s) (sy_table s) (sy_tokens s) A c u"
    using d(3) [of w] send_unsure.hyps(1) claim_ok_later [OF _ order_refl order_refl A] by auto
  have "holder_ok (sy_now s) (sy_table s) (sy_tokens s) A (sy_worker s w')" for w'
    by (rule holder_mono [OF d(3) A]) (use claim_ok_later A in blast)
  with h d distinct_holders_same [OF d(4), of "Answered c u False" w] send_unsure.hyps(1) show ?case
    by (simp add: outbox_inv_def)
next
  case (finish_row s w c u ok db e tbl')
  note d = outbox_invD [OF finish_row.prems]
  have h: "claim_ok (sy_now s) (sy_table s) (sy_tokens s) (sy_accepted s) c u" "ok \<longrightarrow> claim_item c \<in> sy_accepted s"
    using d(3) [of w] finish_row.hyps(1) by auto
  have "holder_ok (sy_now s) tbl' (sy_tokens s) (sy_accepted s) (sy_worker s w')" if "w' \<noteq> w" for w'
  proof (rule holder_mono [OF d(3)])
    fix c' u' assume c': "worker_claim (sy_worker s w') = Some (c', u')"
      "claim_ok (sy_now s) (sy_table s) (sy_tokens s) (sy_accepted s) c' u'"
    have "oc_token c' \<noteq> oc_token c"
      using d(4) c'(1) finish_row.hyps(1) that unfolding distinct_holders_def by (metis worker_claim.simps(3))
    then show "claim_ok (sy_now s) tbl' (sy_tokens s) (sy_accepted s) c' u'"
      by (rule claim_ok_finish [OF c'(2) h _ finish_row.hyps(2)])
  qed simp
  with finish_frame [OF finish_row.hyps(2)] d distinct_holders_same [OF d(4), of Idle w] show ?case
    by (simp add: outbox_inv_def)
next
  case (crash s w)
  note d = outbox_invD [OF crash.prems]
  from d distinct_holders_same [OF d(4), of Idle w] show ?case by (simp add: outbox_inv_def)
qed

section \<open>The specification\<close>

text \<open>
  At-least-once delivery: an item is added, accepted (any number of times, even after
  it was forgotten), and forgotten once it is accepted.
\<close>

inductive delivery_step :: "item set \<times> item set \<Rightarrow> item set \<times> item set \<Rightarrow> bool" where
  add: "delivery_step (P, A) (insert x P, A)"
| accept: "x \<in> P \<union> A \<Longrightarrow> delivery_step (P, A) (P, insert x A)"
| forget: "x \<in> A \<Longrightarrow> delivery_step (P, A) (P - {x}, A)"

definition abs_sys :: "outbox_sys \<Rightarrow> item set \<times> item set" where
  "abs_sys s = (pending s, sy_accepted s)"

lemma delivery_stay: "P' = P \<Longrightarrow> delivery_step\<^sup>*\<^sup>* (P, A) (P', A)"
  by simp

lemma finish_pending:
  assumes "claim_ok now tbl T A c u" "ok \<longrightarrow> claim_item c \<in> A" "finish db now c ok tbl = (e, tbl')"
    and d: "distinct (map or_id tbl)"
  shows "delivery_step\<^sup>*\<^sup>* (row_item ` set tbl, A) (row_item ` set tbl', A)"
proof -
  let ?f = "filter (\<lambda>r. \<not> holds_lease c now r) tbl"
  consider "tbl' = tbl" | "ok" "tbl' = ?f" | "tbl' = map (\<lambda>r. if holds_lease c now r then retained now c r else r) tbl"
    using finish_cases [OF assms(3)] by blast
  then show ?thesis
  proof cases
    case 2
    show ?thesis
    proof (cases "\<exists>r \<in> set tbl. holds_lease c now r")
      case True
      then obtain r where r: "r \<in> set tbl" "holds_lease c now r" by blast
      have ri: "row_item r = claim_item c" by (rule holds_lease_item(1) [OF assms(1) r])
      have "holds_lease c now q" if "q \<in> set tbl" "row_item q = claim_item c" for q
      proof -
        have "or_id q = or_id r" using that(2) ri by (simp add: row_item_def claim_item_def)
        then show ?thesis using same_row [OF d r(1) that(1)] r(2) by simp
      qed
      then have iff: "holds_lease c now q \<longleftrightarrow> row_item q = claim_item c" if "q \<in> set tbl" for q
        using holds_lease_item(1) [OF assms(1) that] that by blast
      have "row_item ` set ?f = row_item ` set tbl - {claim_item c}"
        unfolding set_filter using iff by (force simp: image_iff)
      moreover have "delivery_step (row_item ` set tbl, A) (row_item ` set tbl - {claim_item c}, A)"
        by (rule delivery_step.forget) (use 2(1) assms(2) in simp)
      ultimately show ?thesis unfolding 2(2) by (metis r_into_rtranclp)
    next
      case False
      then have "?f = tbl" by (simp add: filter_id_conv)
      with 2 show ?thesis by simp
    qed
  next
    case 3
    then show ?thesis by (simp only: retained_items rtranclp.rtrancl_refl)
  qed simp
qed

lemma accept_refines:
  assumes "claim_item c \<in> pending s \<union> sy_accepted s" "A = sy_accepted s \<or> A = insert (claim_item c) (sy_accepted s)"
  shows "delivery_step\<^sup>*\<^sup>* (pending s, sy_accepted s) (pending s, A)"
proof (cases "A = sy_accepted s")
  case False
  with assms(2) have "A = insert (claim_item c) (sy_accepted s)" by simp
  then show ?thesis using delivery_step.accept [OF assms(1)] by (simp add: r_into_rtranclp)
qed simp

lemma step_refines:
  assumes "outbox_step s s'" "outbox_inv s"
  shows "delivery_step\<^sup>*\<^sup>* (abs_sys s) (abs_sys s')"
  using assms
proof (induction rule: outbox_step.induct)
  case (enqueue env ob oe s e tbl')
  from EnqueueTx_cases [OF enqueue.hyps] consider "tbl' = sy_table s" | r where "tbl' = sy_table s @ [r]" by blast
  then show ?case
  proof cases
    case (2 r)
    have "delivery_step (abs_sys s) (abs_sys (s\<lparr>sy_table := tbl'\<rparr>))"
      using delivery_step.add [of "pending s" "sy_accepted s" "row_item r"] 2 by (simp add: abs_sys_def pending_def)
    then show ?thesis by (rule r_into_rtranclp)
  qed simp
next
  case (claim_row s w token t locked ob c tbl')
  show ?case using inv_claim(4) [OF claim_row.prems claim_row.hyps(2,3,4)] by (simp add: abs_sys_def pending_def)
next
  case (claim_failed token s t e effect locked ob res tbl')
  show ?case using inv_claim(4) [OF claim_failed.prems claim_failed.hyps] by (simp add: abs_sys_def pending_def)
next
  case (send_ok s w c u)
  have "claim_item c \<in> pending s \<union> sy_accepted s"
    using outbox_invD(3) [OF send_ok.prems, of w] send_ok.hyps by (auto simp: claim_ok_def pending_def)
  from accept_refines [OF this, of "insert (claim_item c) (sy_accepted s)"] show ?case
    by (simp add: abs_sys_def pending_def)
next
  case (send_unsure s w c u A)
  have "claim_item c \<in> pending s \<union> sy_accepted s"
    using outbox_invD(3) [OF send_unsure.prems, of w] send_unsure.hyps(1) by (auto simp: claim_ok_def pending_def)
  from accept_refines [OF this send_unsure.hyps(2)] show ?case by (simp add: abs_sys_def pending_def)
next
  case (finish_row s w c u ok db e tbl')
  have "claim_ok (sy_now s) (sy_table s) (sy_tokens s) (sy_accepted s) c u" "ok \<longrightarrow> claim_item c \<in> sy_accepted s"
    using outbox_invD(3) [OF finish_row.prems, of w] finish_row.hyps(1) by auto
  from finish_pending [OF this finish_row.hyps(2) outbox_invD(1) [OF finish_row.prems]] show ?case
    by (simp add: abs_sys_def pending_def)
qed (simp_all add: abs_sys_def pending_def)

lemma init_inv: "outbox_init s \<Longrightarrow> outbox_inv s"
  by (simp add: outbox_init_def outbox_inv_def tokens_ok_def distinct_holders_def)

interpretation outbox: kept_invariant outbox_step outbox_inv
  by unfold_locales (rule inv_step)

lemmas run_inv = outbox.run_keeps

lemma run_refines: "outbox_step\<^sup>*\<^sup>* s s' \<Longrightarrow> outbox_inv s \<Longrightarrow> delivery_step\<^sup>*\<^sup>* (abs_sys s) (abs_sys s')"
  by (rule outbox.run_extends [where R = "\<lambda>x y. delivery_step\<^sup>*\<^sup>* (abs_sys x) (abs_sys y)"])
     (auto intro: step_refines rtranclp_trans)

lemma delivery_keeps: "delivery_step\<^sup>*\<^sup>* x y \<Longrightarrow> fst x \<union> snd x \<subseteq> fst y \<union> snd y"
proof (induction rule: rtranclp_induct)
  case (step y z)
  from step.hyps(2) have "fst y \<union> snd y \<subseteq> fst z \<union> snd z" by cases auto
  with step.IH show ?case by blast
qed simp

text \<open>
  C2: However many replicas claim, send, finish, crash and fail in whatever order, with
  whatever statement errors and expired leases, the outbox implements at-least-once
  delivery: every run is a run of the specification, so an event once committed to the
  outbox is at every later moment still in the table or has been accepted by the
  transport.
\<close>

theorem outbox_refines_delivery:
  assumes "outbox_init s0" "outbox_step\<^sup>*\<^sup>* s0 s" "outbox_step\<^sup>*\<^sup>* s s'"
  shows "delivery_step\<^sup>*\<^sup>* (abs_sys s) (abs_sys s') \<and> pending s \<subseteq> pending s' \<union> sy_accepted s'"
proof -
  have r: "delivery_step\<^sup>*\<^sup>* (abs_sys s) (abs_sys s')"
    by (rule run_refines [OF assms(3) run_inv [OF assms(2) init_inv [OF assms(1)]]])
  moreover have "pending s \<subseteq> pending s' \<union> sy_accepted s'"
    using delivery_keeps [OF r] by (auto simp: abs_sys_def)
  ultimately show ?thesis by blast
qed

text \<open>
  C25: Leases exclude. As long as a worker's lease has not expired, its claim is the
  only one on that event among all workers, no claim of any replica gives out the row,
  and its finish succeeds: it removes exactly that row when the event was delivered,
  and otherwise releases it. A worker whose lease was taken over cannot touch the row.
\<close>

theorem outbox_lease_exclusive:
  assumes "outbox_init s0" "outbox_step\<^sup>*\<^sup>* s0 s" "worker_claim (sy_worker s w) = Some (c, u)" "sy_now s < u"
  shows "(\<forall>w' c' u'. worker_claim (sy_worker s w') = Some (c', u') \<and> sy_now s < u' \<and> oc_id c' = oc_id c \<longrightarrow> w' = w) \<and>
    (\<forall>sv locked r. candidate sv locked (sy_now s) (sy_table s) = Some r \<longrightarrow> or_id r \<noteq> oc_id c) \<and>
    fst (finish Db_ok (sy_now s) c ok (sy_table s)) = None"
proof -
  have inv: "outbox_inv s" by (rule run_inv [OF assms(2) init_inv [OF assms(1)]])
  note d = outbox_invD [OF inv]
  note h = holder_claim [OF d(3) assms(3)]
  obtain r where r: "r \<in> set (sy_table s)" "row_item r = claim_item c" "or_lease r = Some (oc_token c, u)"
    using claim_ok_row [OF h assms(4)] by blast
  have rid: "or_id r = oc_id c" using r(2) by (simp add: row_item_def claim_item_def)
  have excl: "w' = w" if a: "worker_claim (sy_worker s w') = Some (c', u')" "sy_now s < u'" "oc_id c' = oc_id c" for w' c' u'
  proof (rule ccontr)
    assume "w' \<noteq> w"
    obtain q where q: "q \<in> set (sy_table s)" "row_item q = claim_item c'" "or_lease q = Some (oc_token c', u')"
      using claim_ok_row [OF holder_claim [OF d(3) a(1)] a(2)] by blast
    have "or_id q = or_id r" using q(2) rid a(3) by (simp add: row_item_def claim_item_def)
    then have "q = r" by (rule same_row [OF d(1) r(1) q(1)])
    then have "oc_token c' = oc_token c" using q(3) r(3) by simp
    with distinct_holdersD [OF d(4) a(1) assms(3) \<open>w' \<noteq> w\<close>] show False by simp
  qed
  have cand: "or_id q \<noteq> oc_id c" if "candidate sv locked (sy_now s) (sy_table s) = Some q" for sv locked q
  proof
    assume i: "or_id q = oc_id c"
    have c: "q \<in> set (sy_table s)" "claimable sv locked (sy_now s) q" using candidate_Some [OF that] by blast+
    have "q = r" by (rule same_row [OF d(1) r(1) c(1)]) (simp add: i rid)
    with c(2) have "claimable sv locked (sy_now s) r" by simp
    with r(3) assms(4) show False by (simp add: claimable_def)
  qed
  have "length (filter (holds_lease c (sy_now s)) (sy_table s)) = 1"
  proof -
    have hr: "holds_lease c (sy_now s) r" using r(3) rid assms(4) by (simp add: holds_lease_def)
    have "q = r" if "q \<in> set (sy_table s)" "holds_lease c (sy_now s) q" for q
      by (rule same_row [OF d(1) r(1) that(1)]) (use that(2) rid in \<open>simp add: holds_lease_def\<close>)
    then have st: "set (filter (holds_lease c (sy_now s)) (sy_table s)) = {r}"
      unfolding set_filter using r(1) hr by blast
    have "distinct (filter (holds_lease c (sy_now s)) (sy_table s))"
      using d(1) by (simp add: distinct_map)
    from distinct_card [OF this] show ?thesis unfolding st by simp
  qed
  then have fin: "fst (finish Db_ok (sy_now s) c ok (sy_table s)) = None" by (simp add: finish_def Let_def)
  show ?thesis
  proof (intro conjI allI impI)
    fix w' c' u'
    assume "worker_claim (sy_worker s w') = Some (c', u') \<and> sy_now s < u' \<and> oc_id c' = oc_id c"
    then show "w' = w" using excl by blast
  next
    fix sv locked q
    assume "candidate sv locked (sy_now s) (sy_table s) = Some q"
    then show "or_id q \<noteq> oc_id c" by (rule cand)
  qed (rule fin)
qed

section \<open>A delivery, step by step\<close>

definition sample_event :: Event where
  "sample_event = \<lparr>ev_ID = ''7'', ev_Service = [], ev_Actor = ''alice'', ev_Action = ''delete'', ev_TargetType = ''role'',
     ev_TargetID = ''r1'', ev_ScopeType = ''tenant'', ev_ScopeID = ''t1'', ev_BeforeState = [], ev_AfterState = [],
     ev_Metadata = [], ev_RequestID = [], ev_ClientIP = [], ev_CreatedAt = 5000\<rparr>"

definition sample_enqueue :: enqueue_env where
  "sample_enqueue = \<lparr>eq_uuid = \<lparr>ul_Parse = (\<lambda>s. Some 7), ul_String = (\<lambda>u. ''7'')\<rparr>, eq_random = Inr 7, eq_time = 0,
     eq_valid = (\<lambda>s. True), eq_marshal = (\<lambda>e. Inr (ev_Actor e)), eq_db = None, eq_now = 10\<rparr>"

definition sys :: "int \<Rightarrow> outbox_table \<Rightarrow> worker \<Rightarrow> nat set \<Rightarrow> item set \<Rightarrow> outbox_sys" where
  "sys now tbl x T A = \<lparr>sy_now = now, sy_table = tbl, sy_worker = (\<lambda>_. Idle)(0 := x), sy_tokens = T, sy_accepted = A\<rparr>"

abbreviation row7 :: "(nat \<times> int) option \<Rightarrow> int \<Rightarrow> OutboxRow" where
  "row7 l n \<equiv> \<lparr>or_id = 7, or_service = ''svc'', or_payload = ''alice'', or_enqueued = 10, or_next = 10, or_attempts = n, or_lease = l\<rparr>"

abbreviation claim7 :: outboxClaim where
  "claim7 \<equiv> \<lparr>oc_id = 7, oc_token = 1, oc_payload = ''alice'', oc_attempts = 1\<rparr>"

lemma sample_enqueued: "EnqueueTx sample_enqueue \<lparr>ob_service = ''svc''\<rparr> (Some sample_event) [] = (None, [row7 None 0])"
  by (simp add: EnqueueTx_def PrepareEvent_def cloneEvent_def parseEventID_def ValidateEvent_def ValidateEventID_def
      sample_enqueue_def sample_event_def fail_if_def each_check_def MaxStateBytes_def MaxMetadataBytes_def
      maxOutboxPayload_def outbox_insert_def Let_def)

lemma sample_claimed:
  "claim Db_ok (\<lambda>_. False) 10 11 1 \<lparr>ob_service = ''svc''\<rparr> [row7 None 0] = (Inr (Some claim7), [row7 (Some (1, 60000011)) 1])"
  by (simp add: claim_def candidate_def claimable_def update_row_def outboxLease_def db_second_def Let_def)

lemma sample_finished:
  "finish Db_ok 11 claim7 True [row7 (Some (1, 60000011)) 1] = (None, [])"
  by (simp add: finish_def holds_lease_def)

abbreviation s_init :: outbox_sys where "s_init \<equiv> sys 10 [] Idle {} {}"
abbreviation s_enqueued :: outbox_sys where "s_enqueued \<equiv> sys 10 [row7 None 0] Idle {} {}"
abbreviation s_claimed :: outbox_sys where
  "s_claimed \<equiv> sys 11 [row7 (Some (1, 60000011)) 1] (Claimed claim7 60000011) {1} {}"
abbreviation s_sent :: outbox_sys where
  "s_sent \<equiv> sys 11 [row7 (Some (1, 60000011)) 1] (Answered claim7 60000011 True) {1} {(7, ''alice'')}"
abbreviation s_done :: outbox_sys where "s_done \<equiv> sys 11 [] Idle {1} {(7, ''alice'')}"

lemma sample_steps:
  "outbox_init s_init" "outbox_step s_init s_enqueued" "outbox_step s_enqueued s_claimed"
  "outbox_step s_claimed s_sent" "outbox_step s_sent s_done"
proof -
  show "outbox_init s_init" by (simp add: outbox_init_def sys_def fun_eq_iff)
  show "outbox_step s_init s_enqueued"
    using outbox_step.enqueue [of sample_enqueue "\<lparr>ob_service = ''svc''\<rparr>" "Some sample_event" s_init] sample_enqueued
    by (simp add: sys_def)
  show "outbox_step s_enqueued s_claimed"
    using outbox_step.claim_row [of s_enqueued 0 1 11 "\<lambda>_. False" "\<lparr>ob_service = ''svc''\<rparr>" claim7] sample_claimed
    by (simp add: sys_def outboxLease_def db_second_def)
  show "outbox_step s_claimed s_sent"
    using outbox_step.send_ok [of s_claimed 0 claim7 60000011] by (simp add: sys_def claim_item_def)
  show "outbox_step s_sent s_done"
    using outbox_step.finish_row [of s_sent 0 claim7 60000011 True Db_ok None "[]"] sample_finished by (simp add: sys_def)
qed

theorem outbox_refines_delivery_witness:
  "pending s_enqueued = {(7, ''alice'')} \<and> pending s_enqueued \<subseteq> pending s_done \<union> sy_accepted s_done \<and> pending s_done = {}"
proof -
  have "outbox_step\<^sup>*\<^sup>* s_init s_enqueued" using sample_steps(2) by blast
  moreover have "outbox_step\<^sup>*\<^sup>* s_enqueued s_done"
    using sample_steps(3-5) by (meson converse_rtranclp_into_rtranclp rtranclp.rtrancl_refl)
  ultimately have "pending s_enqueued \<subseteq> pending s_done \<union> sy_accepted s_done"
    using outbox_refines_delivery [OF sample_steps(1)] by blast
  then show ?thesis by (simp add: pending_def sys_def row_item_def)
qed

theorem outbox_lease_exclusive_witness:
  "fst (finish Db_ok (sy_now s_claimed) claim7 True (sy_table s_claimed)) = None \<and>
   candidate ''svc'' (\<lambda>_. False) (sy_now s_claimed) (sy_table s_claimed) = None"
proof -
  have r: "outbox_step\<^sup>*\<^sup>* s_init s_claimed"
    using sample_steps(2,3) by (meson converse_rtranclp_into_rtranclp rtranclp.rtrancl_refl)
  have "worker_claim (sy_worker s_claimed 0) = Some (claim7, 60000011)" "sy_now s_claimed < 60000011"
    by (simp_all add: sys_def)
  note e = outbox_lease_exclusive [OF sample_steps(1) r this, of True]
  have "candidate ''svc'' (\<lambda>_. False) (sy_now s_claimed) (sy_table s_claimed) \<noteq> Some q" for q
  proof
    assume a: "candidate ''svc'' (\<lambda>_. False) (sy_now s_claimed) (sy_table s_claimed) = Some q"
    have "q \<in> set (sy_table s_claimed)" using candidate_Some [OF a] by blast
    then have "or_id q = oc_id claim7" by (simp add: sys_def)
    with e a show False by blast
  qed
  with e show ?thesis by blast
qed

end
