(* ===== verification/BatchClient.thy ===== *)
theory BatchClient
  imports AuditEvents "HOL-Library.Multiset"
begin

text \<open>
  The asynchronous clients of \<open>audit/client.go\<close> and \<open>notify/client.go\<close>. They are the
  same machine, a bounded queue, a dispatcher that collects batches, a bounded channel
  of batches and a pool of workers, and differ in how \<open>Record\<close> and \<open>Close\<close> take the
  lock. Goroutines interleave: each send, receive and critical section is a step.
  A timer may fire whenever it is armed, which it is exactly while a batch is open.
\<close>

section \<open>Configuration\<close>

record ClientConfig =
  cc_Transport :: bool
  cc_BufferSize :: int
  cc_FlushTimeout :: int
  cc_Workers :: int
  cc_FallbackToLog :: "bool option"

definition defaultClientBufferSize :: int where "defaultClientBufferSize = 1000"
definition defaultClientFlushTimeout :: int where "defaultClientFlushTimeout = 100 * go_millisecond"
definition defaultClientWorkers :: int where "defaultClientWorkers = 2"
definition defaultClientMaxBatch :: nat where "defaultClientMaxBatch = 100"
definition batchOutChanMultiplier :: int where "batchOutChanMultiplier = 4"

text \<open>
  A client: the capacities it was started with, the two channels, the dispatcher's
  batch, the batches workers hold, and what became of the events so far. \<open>bc_logged\<close>
  are the fallback records with their reason; \<open>bc_dropped\<close> what is lost without one.
\<close>

record 'e client =
  bc_cap :: nat
  bc_outCap :: nat
  bc_workers :: nat
  bc_fallbackLog :: bool
  bc_closed :: bool
  bc_events_closed :: bool
  bc_events :: "'e list"
  bc_batch :: "'e list"
  bc_dispatching :: bool
  bc_batches :: "'e list list"
  bc_sending :: "'e list list"
  bc_sent :: "'e list"
  bc_logged :: "('e \<times> string) list"
  bc_dropped :: "'e list"
  bc_offered :: "'e list"
  bc_panicked :: bool

definition client_defaults :: "ClientConfig \<Rightarrow> ClientConfig" where
  "client_defaults cfg =
     cfg\<lparr>cc_BufferSize := (if cc_BufferSize cfg \<le> 0 then defaultClientBufferSize else cc_BufferSize cfg),
         cc_FlushTimeout := (if cc_FlushTimeout cfg \<le> 0 then defaultClientFlushTimeout else cc_FlushTimeout cfg),
         cc_Workers := (if cc_Workers cfg \<le> 0 then defaultClientWorkers else cc_Workers cfg)\<rparr>"

definition start_client :: "ClientConfig \<Rightarrow> 'e client" where
  "start_client cfg =
     (let fb = (case cc_FallbackToLog cfg of None \<Rightarrow> True | Some b \<Rightarrow> b);
          n = cc_Workers cfg * batchOutChanMultiplier;
          outCap = (if n < 4 then 4 else n)
      in \<lparr>bc_cap = nat (cc_BufferSize cfg), bc_outCap = nat outCap, bc_workers = nat (cc_Workers cfg), bc_fallbackLog = fb,
          bc_closed = False, bc_events_closed = False, bc_events = [], bc_batch = [], bc_dispatching = True,
          bc_batches = [], bc_sending = [], bc_sent = [], bc_logged = [], bc_dropped = [], bc_offered = [], bc_panicked = False\<rparr>)"

definition audit_NewClient :: "ClientConfig \<Rightarrow> Event client res" where
  "audit_NewClient cfg =
     (if \<not> cc_Transport cfg then Inl (New ''audit: ClientConfig.Transport is required'')
      else Inr (start_client (client_defaults cfg)))"

section \<open>Steps of the machine\<close>

text \<open>\<open>logFallback\<close> and \<open>logFallbackErr\<close>: a record with the reason, or nothing at all.\<close>

definition logFallback :: "'e \<Rightarrow> string \<Rightarrow> 'e client \<Rightarrow> 'e client" where
  "logFallback e reason c =
     (if \<not> bc_fallbackLog c then c\<lparr>bc_dropped := bc_dropped c @ [e]\<rparr>
      else c\<lparr>bc_logged := bc_logged c @ [(e, reason)]\<rparr>)"

definition logFallbacks :: "'e list \<Rightarrow> string \<Rightarrow> 'e client \<Rightarrow> 'e client" where
  "logFallbacks es reason c = foldl (\<lambda>c e. logFallback e reason c) c es"

text \<open>The \<open>select\<close> of \<open>Record\<close>: a send on a closed channel panics.\<close>

definition enqueue_event :: "'e \<Rightarrow> 'e client \<Rightarrow> 'e client" where
  "enqueue_event e c =
     (if bc_events_closed c then c\<lparr>bc_panicked := True\<rparr>
      else if length (bc_events c) < bc_cap c then c\<lparr>bc_events := bc_events c @ [e]\<rparr>
      else logFallback e ''buffer_full'' c)"

definition offer :: "'e \<Rightarrow> 'e client \<Rightarrow> 'e client" where
  "offer e c = c\<lparr>bc_offered := bc_offered c @ [e]\<rparr>"

text \<open>\<open>flush\<close> of the dispatcher.\<close>

definition flush :: "'e client \<Rightarrow> 'e client" where
  "flush c =
     (if bc_batch c = [] then c
      else (let out = bc_batch c; c1 = c\<lparr>bc_batch := []\<rparr>
            in if length (bc_batches c1) < bc_outCap c1 then c1\<lparr>bc_batches := bc_batches c1 @ [out]\<rparr>
               else logFallbacks out ''batch_channel_full'' c1))"

text \<open>One receive of the dispatcher; \<open>None\<close> when it would block. On a closed, empty channel it flushes and ends.\<close>

definition dispatch_receive :: "'e client \<Rightarrow> 'e client option" where
  "dispatch_receive c =
     (if \<not> bc_dispatching c then None
      else (case bc_events c of
              [] \<Rightarrow> if bc_events_closed c then Some ((flush c)\<lparr>bc_dispatching := False\<rparr>) else None
            | e # es \<Rightarrow>
                (let c1 = c\<lparr>bc_events := es, bc_batch := bc_batch c @ [e]\<rparr>
                 in Some (if bc_batch c = [] then c1
                          else if length (bc_batch c1) \<ge> defaultClientMaxBatch then flush c1 else c1))))"

text \<open>The timer's branch of the \<open>select\<close>, which is only reached with an open batch.\<close>

definition dispatch_timer :: "'e client \<Rightarrow> 'e client option" where
  "dispatch_timer c = (if bc_dispatching c \<and> bc_batch c \<noteq> [] then Some (flush c) else None)"

text \<open>A worker takes a batch, and later hears from the transport.\<close>

definition worker_take :: "'e client \<Rightarrow> 'e client option" where
  "worker_take c =
     (case bc_batches c of
        b # bs \<Rightarrow> if length (bc_sending c) < bc_workers c
                  then Some (c\<lparr>bc_batches := bs, bc_sending := bc_sending c @ [b]\<rparr>) else None
      | [] \<Rightarrow> None)"

definition worker_answer :: "nat \<Rightarrow> err \<Rightarrow> 'e client \<Rightarrow> 'e client option" where
  "worker_answer i e c =
     (if i < length (bc_sending c)
      then (let b = bc_sending c ! i;
                c1 = c\<lparr>bc_sending := take i (bc_sending c) @ drop (Suc i) (bc_sending c)\<rparr>
            in Some (if e = None then c1\<lparr>bc_sent := bc_sent c1 @ b\<rparr> else logFallbacks b ''transport_error'' c1))
      else None)"

inductive machine_step :: "'e client \<Rightarrow> 'e client \<Rightarrow> bool" where
  receive: "dispatch_receive c = Some c' \<Longrightarrow> machine_step c c'"
| timer: "dispatch_timer c = Some c' \<Longrightarrow> machine_step c c'"
| take_batch: "worker_take c = Some c' \<Longrightarrow> machine_step c c'"
| answer: "worker_answer i e c = Some c' \<Longrightarrow> machine_step c c'"

section \<open>The audit client\<close>

text \<open>\<open>Record\<close> holds the lock over the check and the send.\<close>

definition audit_Record :: "uuid_lib \<Rightarrow> nat res \<Rightarrow> int \<Rightarrow> Event option \<Rightarrow> Event client \<Rightarrow> Event client" where
  "audit_Record ul random now oevent c =
     (case oevent of
        None \<Rightarrow> c
      | Some event \<Rightarrow>
          (case PrepareEvent ul random now (Some event) of
             Inl _ \<Rightarrow> c
           | Inr prepared \<Rightarrow>
               if bc_closed c then logFallback prepared ''client_closed'' (offer prepared c)
               else enqueue_event prepared (offer prepared c)))"

definition audit_RecordSync :: "uuid_lib \<Rightarrow> nat res \<Rightarrow> int \<Rightarrow> (Event list \<Rightarrow> err) option \<Rightarrow> Event option \<Rightarrow> err" where
  "audit_RecordSync ul random now transport oevent =
     (case oevent of
        None \<Rightarrow> None
      | Some event \<Rightarrow>
          (case transport of
             None \<Rightarrow> Some (New ''audit: transport is nil'')
           | Some send \<Rightarrow>
               (case PrepareEvent ul random now (Some event) of Inl e \<Rightarrow> Some e | Inr prepared \<Rightarrow> send [prepared])))"

text \<open>The critical section of \<open>Close\<close>; then it waits for the dispatcher and the workers.\<close>

definition audit_Close :: "'e client \<Rightarrow> 'e client" where
  "audit_Close c = (if bc_closed c then c else c\<lparr>bc_closed := True, bc_events_closed := True\<rparr>)"

definition drained :: "'e client \<Rightarrow> bool" where
  "drained c \<longleftrightarrow> \<not> bc_dispatching c \<and> bc_batches c = [] \<and> bc_sending c = []"

inductive audit_step :: "Event client \<Rightarrow> Event client \<Rightarrow> bool" where
  recorded: "audit_step c (audit_Record ul random now oevent c)"
| closing: "audit_step c (audit_Close c)"
| machine: "machine_step c c' \<Longrightarrow> audit_step c c'"

section \<open>The notification client\<close>

record Notification =
  nt_ID :: string
  nt_Topic :: string
  nt_Title :: string
  nt_Body :: string
  nt_Link :: string
  nt_Metadata :: "(string \<times> string) list"
  nt_Priority :: string
  nt_Recipients :: "string list"
  nt_Channels :: "string list"
  nt_Sender :: string

text \<open>Maps and slices are values here, so the copy is the notification itself.\<close>

definition cloneNotification :: "Notification \<Rightarrow> Notification" where
  "cloneNotification n = n"

definition notify_NewClient :: "ClientConfig \<Rightarrow> Notification client res" where
  "notify_NewClient cfg =
     (if \<not> cc_Transport cfg then Inl (New ''notify: ClientConfig.Transport is required'')
      else Inr (start_client (client_defaults cfg)))"

text \<open>
  \<open>Record\<close> releases the lock between the check and the send, and \<open>Close\<close> closes the
  channel after it has released the lock. \<open>ns_recording\<close> are the calls in between,
  \<open>ns_closing\<close> tells whether a \<open>Close\<close> is.
\<close>

record notify_sys =
  ns_client :: "Notification client"
  ns_recording :: "Notification list"
  ns_closing :: bool

definition notify_Record_check :: "Notification option \<Rightarrow> notify_sys \<Rightarrow> notify_sys" where
  "notify_Record_check on s =
     (case on of
        None \<Rightarrow> s
      | Some n \<Rightarrow>
          (let c = offer (cloneNotification n) (ns_client s)
           in if bc_closed c then s\<lparr>ns_client := logFallback (cloneNotification n) ''client_closed'' c\<rparr>
              else s\<lparr>ns_client := c, ns_recording := ns_recording s @ [cloneNotification n]\<rparr>))"

definition notify_Record_send :: "nat \<Rightarrow> notify_sys \<Rightarrow> notify_sys option" where
  "notify_Record_send i s =
     (if i < length (ns_recording s)
      then Some (s\<lparr>ns_client := enqueue_event (ns_recording s ! i) (ns_client s),
                   ns_recording := take i (ns_recording s) @ drop (Suc i) (ns_recording s)\<rparr>)
      else None)"

definition notify_RecordSync :: "(Notification list \<Rightarrow> err) option \<Rightarrow> Notification option \<Rightarrow> err" where
  "notify_RecordSync transport on =
     (case on of
        None \<Rightarrow> None
      | Some n \<Rightarrow> (case transport of None \<Rightarrow> Some (New ''notify: transport is nil'') | Some send \<Rightarrow> send [cloneNotification n]))"

definition notify_Close_mark :: "notify_sys \<Rightarrow> notify_sys" where
  "notify_Close_mark s =
     (if bc_closed (ns_client s) then s
      else s\<lparr>ns_client := (ns_client s)\<lparr>bc_closed := True\<rparr>, ns_closing := True\<rparr>)"

definition notify_Close_channel :: "notify_sys \<Rightarrow> notify_sys option" where
  "notify_Close_channel s =
     (if ns_closing s then Some (s\<lparr>ns_client := (ns_client s)\<lparr>bc_events_closed := True\<rparr>, ns_closing := False\<rparr>) else None)"

inductive notify_step :: "notify_sys \<Rightarrow> notify_sys \<Rightarrow> bool" where
  checked: "notify_step s (notify_Record_check on s)"
| queued: "notify_Record_send i s = Some s' \<Longrightarrow> notify_step s s'"
| marked: "notify_step s (notify_Close_mark s)"
| closed: "notify_Close_channel s = Some s' \<Longrightarrow> notify_step s s'"
| machine: "machine_step (ns_client s) c' \<Longrightarrow> notify_step s (s\<lparr>ns_client := c'\<rparr>)"

section \<open>Where events are\<close>

definition in_transit :: "'e client \<Rightarrow> 'e multiset" where
  "in_transit c = mset (bc_events c) + mset (bc_batch c) + mset (concat (bc_batches c)) + mset (concat (bc_sending c))"

definition settled :: "'e client \<Rightarrow> 'e multiset" where
  "settled c = mset (bc_sent c) + mset (map fst (bc_logged c)) + mset (bc_dropped c)"

definition account :: "'e client \<Rightarrow> 'e multiset" where
  "account c = in_transit c + settled c"

lemma logFallback_account [simp]: "account (logFallback e reason c) = add_mset e (account c)"
  by (simp add: account_def in_transit_def settled_def logFallback_def)

lemma logFallbacks_Cons: "logFallbacks (e # es) reason c = logFallbacks es reason (logFallback e reason c)"
  by (simp add: logFallbacks_def)

lemma logFallbacks_account [simp]: "account (logFallbacks es reason c) = account c + mset es"
  by (induction es arbitrary: c) (simp_all add: logFallbacks_Cons, simp add: logFallbacks_def)

text \<open>A fallback touches nothing but the two records of losses.\<close>

lemma logFallback_fields [simp]:
  "bc_cap (logFallback e r c) = bc_cap c" "bc_outCap (logFallback e r c) = bc_outCap c"
  "bc_workers (logFallback e r c) = bc_workers c" "bc_fallbackLog (logFallback e r c) = bc_fallbackLog c"
  "bc_closed (logFallback e r c) = bc_closed c" "bc_events_closed (logFallback e r c) = bc_events_closed c"
  "bc_events (logFallback e r c) = bc_events c" "bc_batch (logFallback e r c) = bc_batch c"
  "bc_dispatching (logFallback e r c) = bc_dispatching c" "bc_batches (logFallback e r c) = bc_batches c"
  "bc_sending (logFallback e r c) = bc_sending c" "bc_offered (logFallback e r c) = bc_offered c"
  "bc_panicked (logFallback e r c) = bc_panicked c"
  "bc_fallbackLog c \<Longrightarrow> bc_dropped (logFallback e r c) = bc_dropped c"
  by (simp_all add: logFallback_def)

lemma logFallbacks_field: "(\<And>e c. f (logFallback e r c) = f c) \<Longrightarrow> f (logFallbacks es r c) = f c"
  by (induction es arbitrary: c) (simp_all add: logFallbacks_Cons, simp add: logFallbacks_def)

lemma logFallbacks_fields [simp]:
  "bc_cap (logFallbacks es r c) = bc_cap c" "bc_outCap (logFallbacks es r c) = bc_outCap c"
  "bc_workers (logFallbacks es r c) = bc_workers c" "bc_fallbackLog (logFallbacks es r c) = bc_fallbackLog c"
  "bc_closed (logFallbacks es r c) = bc_closed c" "bc_events_closed (logFallbacks es r c) = bc_events_closed c"
  "bc_events (logFallbacks es r c) = bc_events c" "bc_batch (logFallbacks es r c) = bc_batch c"
  "bc_dispatching (logFallbacks es r c) = bc_dispatching c" "bc_batches (logFallbacks es r c) = bc_batches c"
  "bc_sending (logFallbacks es r c) = bc_sending c" "bc_offered (logFallbacks es r c) = bc_offered c"
  "bc_panicked (logFallbacks es r c) = bc_panicked c"
  by (rule logFallbacks_field, simp)+

lemma logFallbacks_dropped [simp]: "bc_fallbackLog c \<Longrightarrow> bc_dropped (logFallbacks es r c) = bc_dropped c"
  by (induction es arbitrary: c) (simp_all add: logFallbacks_Cons, simp add: logFallbacks_def)

section \<open>The invariant of the machine\<close>

text \<open>
  Every offered event is somewhere: in transit, settled, or with a caller that has not
  sent it yet (\<open>extra\<close>). All queues respect their capacity, batches their size, and a
  dispatcher that has ended has left nothing behind.
\<close>

definition client_upto :: "nat \<Rightarrow> 'e multiset \<Rightarrow> 'e client \<Rightarrow> bool" where
  "client_upto n extra c \<longleftrightarrow>
     mset (bc_offered c) = account c + extra \<and>
     (bc_fallbackLog c \<longrightarrow> bc_dropped c = []) \<and>
     length (bc_events c) \<le> bc_cap c \<and> length (bc_batch c) < n \<and>
     length (bc_batches c) \<le> bc_outCap c \<and> length (bc_sending c) \<le> bc_workers c \<and>
     (\<forall>b \<in> set (bc_batches c) \<union> set (bc_sending c). b \<noteq> [] \<and> length b \<le> defaultClientMaxBatch) \<and>
     (\<not> bc_dispatching c \<longrightarrow> bc_events c = [] \<and> bc_batch c = [] \<and> bc_events_closed c) \<and>
     (bc_events_closed c \<longrightarrow> bc_closed c) \<and> 0 < bc_workers c \<and> 0 < bc_outCap c \<and> 0 < bc_cap c"

abbreviation client_ok :: "'e multiset \<Rightarrow> 'e client \<Rightarrow> bool" where
  "client_ok \<equiv> client_upto defaultClientMaxBatch"

lemmas client_ok_def = client_upto_def

lemma ok_logFallback: "client_ok (add_mset e extra) c \<Longrightarrow> client_ok extra (logFallback e r c)"
  by (simp add: client_ok_def)

lemma ok_offer: "client_ok extra c \<Longrightarrow> client_ok (add_mset e extra) (offer e c)"
  by (simp add: client_ok_def offer_def account_def in_transit_def settled_def)

lemma ok_enqueue:
  assumes "client_ok (add_mset e extra) c" "\<not> bc_events_closed c"
  shows "client_ok extra (enqueue_event e c)"
proof (cases "length (bc_events c) < bc_cap c")
  case True
  with assms show ?thesis
    by (auto simp: enqueue_event_def client_ok_def account_def in_transit_def settled_def)
next
  case False
  with assms ok_logFallback show ?thesis by (simp add: enqueue_event_def)
qed

lemma flush_fields [simp]:
  "bc_cap (flush c) = bc_cap c" "bc_outCap (flush c) = bc_outCap c" "bc_workers (flush c) = bc_workers c"
  "bc_fallbackLog (flush c) = bc_fallbackLog c" "bc_closed (flush c) = bc_closed c" "bc_events_closed (flush c) = bc_events_closed c"
  "bc_events (flush c) = bc_events c" "bc_batch (flush c) = []" "bc_dispatching (flush c) = bc_dispatching c"
  "bc_sending (flush c) = bc_sending c" "bc_offered (flush c) = bc_offered c" "bc_panicked (flush c) = bc_panicked c"
  "bc_fallbackLog c \<Longrightarrow> bc_dropped (flush c) = bc_dropped c"
  by (simp_all add: flush_def Let_def)

lemma flush_account [simp]: "account (flush c) = account c"
  by (simp add: flush_def Let_def) (simp add: account_def in_transit_def settled_def)

lemma flush_batches:
  "bc_batches (flush c) = bc_batches c \<or>
   (bc_batch c \<noteq> [] \<and> length (bc_batches c) < bc_outCap c \<and> bc_batches (flush c) = bc_batches c @ [bc_batch c])"
  by (simp add: flush_def Let_def)

text \<open>A batch that is flushed may just have reached its full size.\<close>

lemma ok_flush:
  assumes "client_upto (Suc defaultClientMaxBatch) extra c" "bc_dispatching c"
  shows "client_ok extra (flush c)"
  using assms flush_batches [of c]
  by (elim disjE conjE) (simp_all add: client_ok_def defaultClientMaxBatch_def less_Suc_eq_le)

lemma upto_mono: "client_upto n extra c \<Longrightarrow> n \<le> m \<Longrightarrow> client_upto m extra c"
  by (simp add: client_upto_def)

lemma ok_receive:
  assumes ok: "client_ok extra c" and r: "dispatch_receive c = Some c'"
  shows "client_ok extra c'"
proof (cases "bc_events c")
  case Nil
  with r have c': "c' = (flush c)\<lparr>bc_dispatching := False\<rparr>" "bc_events_closed c" "bc_dispatching c"
    by (auto simp: dispatch_receive_def split: if_splits)
  have "client_ok extra (flush c)" by (rule ok_flush [OF upto_mono [OF ok] c'(3)]) simp
  with c' Nil show ?thesis by (simp add: client_ok_def account_def in_transit_def settled_def)
next
  case (Cons e es)
  define c1 where "c1 = c\<lparr>bc_events := es, bc_batch := bc_batch c @ [e]\<rparr>"
  have d: "bc_dispatching c" using r by (auto simp: dispatch_receive_def split: if_splits)
  have acc: "account c1 = account c" by (simp add: c1_def account_def in_transit_def settled_def Cons)
  have up: "client_upto (Suc defaultClientMaxBatch) extra c1"
    using ok Cons d by (simp add: client_upto_def acc [unfolded c1_def] c1_def)
  have c': "c' = (if bc_batch c = [] then c1 else if length (bc_batch c1) \<ge> defaultClientMaxBatch then flush c1 else c1)"
  proof -
    have "dispatch_receive c = Some (if bc_batch c = [] then c1 else if length (bc_batch c1) \<ge> defaultClientMaxBatch then flush c1 else c1)"
      unfolding dispatch_receive_def Let_def Cons c1_def using d by (simp only: list.case if_True simp_thms if_False)
    with r show ?thesis by simp
  qed
  show ?thesis
  proof (cases "bc_batch c = [] \<or> length (bc_batch c1) < defaultClientMaxBatch")
    case True
    then have "length (bc_batch c1) < defaultClientMaxBatch" by (auto simp: c1_def defaultClientMaxBatch_def)
    moreover have "c' = c1" using True c' by auto
    ultimately show ?thesis using up by (simp add: client_upto_def)
  next
    case False
    then have "c' = flush c1" using c' by simp
    then show ?thesis using ok_flush [OF up] d by (simp add: c1_def)
  qed
qed

lemma ok_timer: "client_ok extra c \<Longrightarrow> dispatch_timer c = Some c' \<Longrightarrow> client_ok extra c'"
proof -
  assume ok: "client_ok extra c" and t: "dispatch_timer c = Some c'"
  then have "c' = flush c" "bc_dispatching c" by (simp_all add: dispatch_timer_def split: if_splits)
  with ok_flush [OF upto_mono [OF ok]] show ?thesis by simp
qed

lemma ok_take: "client_ok extra c \<Longrightarrow> worker_take c = Some c' \<Longrightarrow> client_ok extra c'"
proof -
  assume ok: "client_ok extra c" and t: "worker_take c = Some c'"
  then obtain b bs where b: "bc_batches c = b # bs" "length (bc_sending c) < bc_workers c"
      "c' = c\<lparr>bc_batches := bs, bc_sending := bc_sending c @ [b]\<rparr>"
    by (auto simp: worker_take_def split: list.splits if_splits)
  have "account c' = account c" by (simp add: b account_def in_transit_def settled_def)
  with ok b show ?thesis by (simp add: client_ok_def)
qed

lemma ok_answer:
  assumes ok: "client_ok extra c" and a: "worker_answer i e c = Some c'"
  shows "client_ok extra c'"
proof -
  let ?b = "bc_sending c ! i" and ?rest = "take i (bc_sending c) @ drop (Suc i) (bc_sending c)"
  have i: "i < length (bc_sending c)" using a by (auto simp: worker_answer_def split: if_splits)
  then have s: "bc_sending c = take i (bc_sending c) @ ?b # drop (Suc i) (bc_sending c)" by (rule id_take_nth_drop)
  have "mset (concat (bc_sending c)) = mset (concat (take i (bc_sending c) @ ?b # drop (Suc i) (bc_sending c)))"
    by (rule arg_cong [OF s])
  then have acc: "account c = account (c\<lparr>bc_sending := ?rest\<rparr>) + mset ?b"
    by (simp add: account_def in_transit_def settled_def)
  have "set ?rest \<subseteq> set (bc_sending c)" by (auto dest: in_set_takeD in_set_dropD)
  then have "client_ok (extra + mset ?b) (c\<lparr>bc_sending := ?rest\<rparr>)"
    using ok i acc by (auto simp: client_ok_def)
  then have "client_ok extra ((c\<lparr>bc_sending := ?rest\<rparr>)\<lparr>bc_sent := bc_sent c @ ?b\<rparr>)"
    "client_ok extra (logFallbacks ?b r (c\<lparr>bc_sending := ?rest\<rparr>))" for r
    by (simp_all add: client_ok_def ac_simps) (simp add: account_def in_transit_def settled_def ac_simps)
  with a i show ?thesis by (auto simp: worker_answer_def Let_def split: if_splits)
qed

lemma ok_machine: "machine_step c c' \<Longrightarrow> client_ok extra c \<Longrightarrow> client_ok extra c'"
  by (induction rule: machine_step.induct) (auto intro: ok_receive ok_timer ok_take ok_answer)

section \<open>The audit client keeps every event\<close>

lemma ok_start: "client_ok {#} (start_client (client_defaults cfg))"
  by (auto simp: client_ok_def start_client_def client_defaults_def account_def in_transit_def settled_def Let_def
      defaultClientBufferSize_def defaultClientWorkers_def batchOutChanMultiplier_def defaultClientMaxBatch_def)

lemma ok_audit_Close: "client_ok extra c \<Longrightarrow> client_ok extra (audit_Close c)"
  by (simp add: audit_Close_def client_ok_def account_def in_transit_def settled_def)

lemma ok_audit_Record: "client_ok {#} c \<Longrightarrow> client_ok {#} (audit_Record ul random now oevent c)"
proof -
  assume ok: "client_ok {#} c"
  have "client_ok {#} (logFallback e r (offer e c))" for e r by (rule ok_logFallback [OF ok_offer [OF ok]])
  moreover have "client_ok {#} (enqueue_event e (offer e c))" if "\<not> bc_closed c" for e
    by (rule ok_enqueue [OF ok_offer [OF ok]]) (use ok that in \<open>auto simp: client_ok_def offer_def\<close>)
  ultimately show ?thesis using ok by (auto simp: audit_Record_def split: option.splits sum.splits)
qed

lemma machine_flags:
  assumes "machine_step c c'"
  shows "bc_panicked c' = bc_panicked c" "bc_closed c' = bc_closed c" "bc_events_closed c' = bc_events_closed c"
    "bc_offered c' = bc_offered c" "bc_fallbackLog c' = bc_fallbackLog c"
  using assms
  by (induction rule: machine_step.induct;
      auto simp: dispatch_receive_def dispatch_timer_def worker_take_def worker_answer_def Let_def
        split: list.splits if_splits)+

definition audit_inv :: "Event client \<Rightarrow> bool" where
  "audit_inv c \<longleftrightarrow> client_ok {#} c \<and> \<not> bc_panicked c \<and> bc_events_closed c = bc_closed c"

lemma enqueue_flags [simp]:
  "bc_closed (enqueue_event e c) = bc_closed c" "bc_events_closed (enqueue_event e c) = bc_events_closed c"
  "\<not> bc_events_closed c \<Longrightarrow> bc_panicked (enqueue_event e c) = bc_panicked c"
  by (simp_all add: enqueue_event_def)

lemma audit_keeps: "audit_step c c' \<Longrightarrow> audit_inv c \<Longrightarrow> audit_inv c'"
proof (induction rule: audit_step.induct)
  case (recorded c ul random now oevent)
  then have "\<not> bc_panicked (audit_Record ul random now oevent c)"
    "bc_events_closed (audit_Record ul random now oevent c) = bc_closed (audit_Record ul random now oevent c)"
    by (auto simp: audit_inv_def audit_Record_def offer_def split: option.splits sum.splits)
  with recorded show ?case by (simp add: audit_inv_def ok_audit_Record)
next
  case (closing c)
  then show ?case by (simp add: audit_inv_def ok_audit_Close) (simp add: audit_Close_def)
next
  case (machine c c')
  then show ?case using ok_machine machine_flags(1-3) unfolding audit_inv_def by metis
qed

interpretation audit: kept_invariant audit_step audit_inv
  by unfold_locales (rule audit_keeps)

lemma audit_start: "audit_NewClient cfg = Inr c \<Longrightarrow> audit_inv c"
  by (auto simp: audit_NewClient_def audit_inv_def ok_start split: if_splits) (simp_all add: start_client_def Let_def)

section \<open>Close drains\<close>

definition drain_weight :: "'e client \<Rightarrow> nat" where
  "drain_weight c =
     4 * length (bc_events c) + 3 * length (bc_batch c) + 2 * length (concat (bc_batches c)) +
     length (concat (bc_sending c)) + of_bool (bc_dispatching c)"

lemma flush_weight: "bc_batch c \<noteq> [] \<Longrightarrow> drain_weight (flush c) < drain_weight c"
  by (simp add: flush_def drain_weight_def Let_def)

lemma flush_weight_le: "drain_weight (flush c) \<le> drain_weight c"
  using flush_weight [of c] by (cases "bc_batch c = []") (simp_all add: flush_def)

lemma receive_weight:
  assumes r: "dispatch_receive c = Some c'"
  shows "drain_weight c' < drain_weight c"
proof (cases "bc_events c")
  case Nil
  with r have c': "c' = (flush c)\<lparr>bc_dispatching := False\<rparr>" "bc_dispatching c"
    by (auto simp: dispatch_receive_def split: if_splits)
  then have "Suc (drain_weight c') = drain_weight (flush c)" by (simp add: drain_weight_def)
  with flush_weight_le [of c] show ?thesis by simp
next
  case (Cons e es)
  let ?c = "c\<lparr>bc_events := es, bc_batch := bc_batch c @ [e]\<rparr>"
  have "c' = ?c \<or> c' = flush ?c" using r Cons by (auto simp: dispatch_receive_def Let_def split: if_splits)
  moreover have "drain_weight ?c < drain_weight c" using Cons by (simp add: drain_weight_def)
  ultimately show ?thesis using flush_weight_le [of ?c] by auto
qed

lemma take_weight:
  assumes "client_ok extra c" "worker_take c = Some c'"
  shows "drain_weight c' < drain_weight c"
proof -
  from assms(2) obtain b bs where b: "bc_batches c = b # bs" "c' = c\<lparr>bc_batches := bs, bc_sending := bc_sending c @ [b]\<rparr>"
    by (auto simp: worker_take_def split: list.splits if_splits)
  then have "b \<noteq> []" using assms(1) by (simp add: client_ok_def)
  with b show ?thesis by (simp add: drain_weight_def)
qed

lemma answer_weight:
  assumes "client_ok extra c" "worker_answer i e c = Some c'"
  shows "drain_weight c' < drain_weight c"
proof -
  let ?b = "bc_sending c ! i" and ?rest = "take i (bc_sending c) @ drop (Suc i) (bc_sending c)"
  have i: "i < length (bc_sending c)" using assms(2) by (auto simp: worker_answer_def split: if_splits)
  then have "?b \<noteq> []" using assms(1) by (simp add: client_ok_def)
  then have "0 < length ?b" by simp
  moreover have "length (concat (bc_sending c)) = length (concat (take i (bc_sending c) @ ?b # drop (Suc i) (bc_sending c)))"
    by (rule arg_cong [OF id_take_nth_drop [OF i]])
  moreover have "drain_weight c' + length (concat (bc_sending c)) = drain_weight c + length (concat ?rest)"
    using assms(2) i by (auto simp: worker_answer_def drain_weight_def Let_def split: if_splits)
  ultimately show ?thesis by (simp del: length_greater_0_conv)
qed

lemma machine_weight: "machine_step c c' \<Longrightarrow> client_ok extra c \<Longrightarrow> drain_weight c' < drain_weight c"
  by (induction rule: machine_step.induct)
     (auto intro: receive_weight take_weight answer_weight flush_weight simp: dispatch_timer_def split: if_splits)

lemma machine_length: "(machine_step ^^ n) c c' \<Longrightarrow> client_ok extra c \<Longrightarrow> n + drain_weight c' \<le> drain_weight c"
proof (induction n arbitrary: c)
  case (Suc n)
  then obtain d where d: "machine_step c d" "(machine_step ^^ n) d c'" by (metis relpowp_Suc_D2)
  have "n + drain_weight c' \<le> drain_weight d" by (rule Suc.IH [OF d(2) ok_machine [OF d(1) Suc.prems(2)]])
  with machine_weight [OF d(1) Suc.prems(2)] show ?case by simp
qed simp

text \<open>A closed client that cannot move has nothing left to do.\<close>

lemma stuck_drained:
  assumes ok: "client_ok extra c" and cl: "bc_events_closed c" and st: "\<nexists>c'. machine_step c c'"
  shows "drained c" "in_transit c = {#}"
proof -
  have "bc_sending c = []"
    using st machine_step.answer [of 0 None c] by (cases "bc_sending c") (auto simp: worker_answer_def)
  moreover have "bc_batches c = []"
  proof (rule ccontr)
    assume "bc_batches c \<noteq> []"
    then obtain c' where "worker_take c = Some c'"
      using calculation ok by (auto simp: worker_take_def client_ok_def neq_Nil_conv)
    with st show False by (auto intro: machine_step.take_batch)
  qed
  moreover have d: "\<not> bc_dispatching c"
  proof
    assume "bc_dispatching c"
    then obtain c' where "dispatch_receive c = Some c'" using cl by (cases "bc_events c") (auto simp: dispatch_receive_def Let_def)
    with st show False by (auto intro: machine_step.receive)
  qed
  moreover have "bc_events c = []" "bc_batch c = []" using d ok by (simp_all add: client_ok_def)
  ultimately show "drained c" "in_transit c = {#}" by (simp_all add: drained_def in_transit_def)
qed

lemma machine_star:
  assumes "machine_step\<^sup>*\<^sup>* c c'" "client_ok extra c"
  shows "client_ok extra c' \<and> bc_events_closed c' = bc_events_closed c \<and> bc_fallbackLog c' = bc_fallbackLog c \<and> bc_offered c' = bc_offered c"
  using assms
proof (induction rule: rtranclp_induct)
  case (step y z)
  with ok_machine [OF step.hyps(2)] machine_flags [OF step.hyps(2)] show ?case by simp
qed simp

text \<open>
  C7: In every interleaving of recording callers, the dispatcher, the timer, the
  workers and Close, the audit client loses no event silently: each prepared event it
  was given is in the queue, in the open batch, in the channel of batches, with a
  worker, was sent, or was written to the fallback log; it is dropped without a trace
  only when the fallback was switched off. The queue, the batches and their number
  stay within their limits, and no send ever meets a closed channel.
\<close>

theorem audit_client_conserves:
  assumes "audit_NewClient cfg = Inr c0" "audit_step\<^sup>*\<^sup>* c0 c"
  shows "mset (bc_offered c) = in_transit c + mset (bc_sent c) + mset (map fst (bc_logged c)) + mset (bc_dropped c) \<and>
    (bc_fallbackLog c \<longrightarrow> bc_dropped c = []) \<and>
    length (bc_events c) \<le> bc_cap c \<and> length (bc_batch c) < 100 \<and> length (bc_batches c) \<le> bc_outCap c \<and>
    length (bc_sending c) \<le> bc_workers c \<and> list_all (\<lambda>b. length b \<le> 100) (bc_batches c @ bc_sending c) \<and>
    \<not> bc_panicked c"
proof -
  have "audit_inv c" by (rule audit.run_keeps [OF assms(2) audit_start [OF assms(1)]])
  then show ?thesis
    by (simp add: audit_inv_def client_ok_def account_def settled_def defaultClientMaxBatch_def list_all_iff ac_simps)
qed

definition sample_cfg :: ClientConfig where
  "sample_cfg = \<lparr>cc_Transport = True, cc_BufferSize = 0, cc_FlushTimeout = 0, cc_Workers = 0, cc_FallbackToLog = None\<rparr>"

definition sample_uuids :: uuid_lib where
  "sample_uuids = \<lparr>ul_Parse = (\<lambda>s. Some 7), ul_String = (\<lambda>u. ''7'')\<rparr>"

definition recorded_event :: Event where
  "recorded_event = \<lparr>ev_ID = ''7'', ev_Service = [], ev_Actor = ''alice'', ev_Action = ''delete'', ev_TargetType = ''role'',
     ev_TargetID = ''r1'', ev_ScopeType = ''tenant'', ev_ScopeID = ''t1'', ev_BeforeState = [], ev_AfterState = [],
     ev_Metadata = [], ev_RequestID = [], ev_ClientIP = [], ev_CreatedAt = 5000\<rparr>"

definition recorded_client :: "Event client" where
  "recorded_client = audit_Record sample_uuids (Inr 7) 0 (Some recorded_event) (start_client (client_defaults sample_cfg))"

lemma recorded_client_events:
  "bc_offered recorded_client = [recorded_event]" "bc_events recorded_client = [recorded_event]" "bc_dispatching recorded_client"
  "\<not> bc_closed recorded_client"
  by (simp_all add: recorded_client_def audit_Record_def PrepareEvent_def cloneEvent_def parseEventID_def sample_uuids_def
      recorded_event_def truncate_us_def start_client_def client_defaults_def sample_cfg_def offer_def enqueue_event_def
      defaultClientBufferSize_def Let_def)

lemma recorded_client_reached:
  "audit_NewClient sample_cfg = Inr (start_client (client_defaults sample_cfg))"
  "audit_step\<^sup>*\<^sup>* (start_client (client_defaults sample_cfg)) recorded_client"
  by (simp add: audit_NewClient_def sample_cfg_def)
     (simp add: recorded_client_def audit_step.recorded r_into_rtranclp)

theorem audit_client_conserves_witness:
  "mset (bc_offered recorded_client) = {#recorded_event#} \<and>
   mset (bc_offered recorded_client) = in_transit recorded_client + mset (bc_sent recorded_client) +
     mset (map fst (bc_logged recorded_client)) + mset (bc_dropped recorded_client)"
  using audit_client_conserves [OF recorded_client_reached] recorded_client_events(1) by simp

text \<open>
  C32: After Close the client drains: however dispatcher, timer and workers take turns,
  they make at most as many steps as the weight of what is in transit allows, and when
  none of them can move the dispatcher has ended, nothing is in transit and every
  event recorded is sent, logged or, with the fallback off, dropped. So the wait in
  Close ends as soon as the transport answers.
\<close>

theorem audit_Close_drains:
  assumes "audit_NewClient cfg = Inr c0" "audit_step\<^sup>*\<^sup>* c0 c"
  shows "((machine_step ^^ n) (audit_Close c) c' \<longrightarrow> n \<le> drain_weight (audit_Close c)) \<and>
    (machine_step\<^sup>*\<^sup>* (audit_Close c) c' \<and> (\<nexists>c''. machine_step c' c'') \<longrightarrow>
      drained c' \<and> mset (bc_offered c) = mset (bc_sent c') + mset (map fst (bc_logged c')) + mset (bc_dropped c'))"
proof -
  have "audit_inv c" by (rule audit.run_keeps [OF assms(2) audit_start [OF assms(1)]])
  then have ok: "client_ok {#} (audit_Close c)" and cl: "bc_events_closed (audit_Close c)"
    by (simp add: audit_inv_def ok_audit_Close) (use \<open>audit_inv c\<close> in \<open>simp add: audit_inv_def audit_Close_def\<close>)
  have "n \<le> drain_weight (audit_Close c)" if "(machine_step ^^ n) (audit_Close c) c'"
    using machine_length [OF that ok] by simp
  moreover have "drained c' \<and> mset (bc_offered c) = mset (bc_sent c') + mset (map fst (bc_logged c')) + mset (bc_dropped c')"
    if run: "machine_step\<^sup>*\<^sup>* (audit_Close c) c'" and st: "\<nexists>c''. machine_step c' c''"
  proof -
    have m: "client_ok {#} c'" "bc_events_closed c'" "bc_offered c' = bc_offered c"
      using machine_star [OF run ok] cl by (simp_all add: audit_Close_def split: if_splits)
    from stuck_drained [OF m(1,2) st] m(1,3) show ?thesis by (simp add: client_ok_def account_def settled_def)
  qed
  ultimately show ?thesis by blast
qed

theorem audit_Close_drains_witness:
  "\<exists>c'. (machine_step ^^ 1) (audit_Close recorded_client) c' \<and> 1 \<le> drain_weight (audit_Close recorded_client)"
proof -
  obtain c' where "dispatch_receive (audit_Close recorded_client) = Some c'"
    using recorded_client_events by (simp add: dispatch_receive_def audit_Close_def Let_def)
  then have r: "(machine_step ^^ 1) (audit_Close recorded_client) c'" 
    unfolding relpowp_1 by (rule machine_step.receive)
  with audit_Close_drains [OF recorded_client_reached, of 1 c'] show ?thesis by blast
qed

section \<open>The notification client\<close>

definition notify_inv :: "notify_sys \<Rightarrow> bool" where
  "notify_inv s \<longleftrightarrow> bc_panicked (ns_client s) \<or>
     (client_ok (mset (ns_recording s)) (ns_client s) \<and> (ns_closing s \<longrightarrow> bc_closed (ns_client s)))"

lemma mset_remove_nth: "i < length xs \<Longrightarrow> mset xs = add_mset (xs ! i) (mset (take i xs @ drop (Suc i) xs))"
  using arg_cong [OF id_take_nth_drop [of i xs], of mset] by simp

lemma notify_keeps: "notify_step s s' \<Longrightarrow> notify_inv s \<Longrightarrow> notify_inv s'"
proof (induction rule: notify_step.induct)
  case (checked s on)
  show ?case
  proof (cases "on = None \<or> bc_panicked (ns_client s)")
    case True
    then have "notify_Record_check on s = s \<or> bc_panicked (ns_client (notify_Record_check on s))"
      by (cases on) (auto simp: notify_Record_check_def Let_def offer_def)
    then show ?thesis using checked by (auto simp: notify_inv_def)
  next
    case False
    then obtain n where n: "on = Some n" and ok: "client_ok (mset (ns_recording s)) (ns_client s)"
      "ns_closing s \<longrightarrow> bc_closed (ns_client s)"
      using checked by (auto simp: notify_inv_def)
    have 1: "client_ok (add_mset n (mset (ns_recording s))) (offer n (ns_client s))" by (rule ok_offer [OF ok(1)])
    have 2: "client_ok (mset (ns_recording s)) (logFallback n ''client_closed'' (offer n (ns_client s)))"
      by (rule ok_logFallback [OF 1])
    have 3: "bc_closed (offer n (ns_client s)) = bc_closed (ns_client s)" by (simp add: offer_def)
show ?thesis
    proof (cases "bc_closed (ns_client s)")
      case True
      then have "notify_Record_check on s = s\<lparr>ns_client := logFallback n ''client_closed'' (offer n (ns_client s))\<rparr>"
        by (simp add: n 3 notify_Record_check_def cloneNotification_def Let_def)
      then show ?thesis using 2 3 True by (simp add: notify_inv_def)
    next
      case False
      then have "notify_Record_check on s = s\<lparr>ns_client := offer n (ns_client s), ns_recording := ns_recording s @ [n]\<rparr>"
        by (simp add: n 3 notify_Record_check_def cloneNotification_def Let_def)
      then show ?thesis using 1 ok(2) False by (simp add: notify_inv_def)
    qed
  qed
next
  case (queued i s s')
  then have i: "i < length (ns_recording s)"
    and s': "ns_client s' = enqueue_event (ns_recording s ! i) (ns_client s)" "ns_closing s' = ns_closing s"
      "ns_recording s' = take i (ns_recording s) @ drop (Suc i) (ns_recording s)"
    by (auto simp: notify_Record_send_def split: if_splits)
  show ?case
  proof (cases "bc_panicked (ns_client s) \<or> bc_events_closed (ns_client s)")
    case True
    then have "bc_panicked (ns_client s')" by (auto simp: s'(1) enqueue_event_def)
    then show ?thesis by (simp add: notify_inv_def)
  next
    case False
    then have "client_ok (mset (ns_recording s)) (ns_client s)" "ns_closing s \<longrightarrow> bc_closed (ns_client s)"
      using queued.prems by (auto simp: notify_inv_def)
    moreover have "client_ok (mset (ns_recording s')) (ns_client s')"
      unfolding s' by (rule ok_enqueue) (use calculation False mset_remove_nth [OF i] in simp_all)
    ultimately show ?thesis by (simp add: notify_inv_def s'(1,2))
  qed
next
  case (marked s)
  have "client_ok extra c \<Longrightarrow> client_ok extra (c\<lparr>bc_closed := True\<rparr>)" for extra and c :: "Notification client"
    by (simp add: client_ok_def account_def in_transit_def settled_def)
  with marked show ?case
    by (cases "bc_closed (ns_client s)") (simp_all add: notify_inv_def notify_Close_mark_def, blast)
next
  case (closed s s')
  have "client_ok extra c \<Longrightarrow> bc_closed c \<Longrightarrow> client_ok extra (c\<lparr>bc_events_closed := True\<rparr>)" for extra and c :: "Notification client"
    by (simp add: client_ok_def account_def in_transit_def settled_def)
  moreover have "ns_closing s" "s' = s\<lparr>ns_client := (ns_client s)\<lparr>bc_events_closed := True\<rparr>, ns_closing := False\<rparr>"
    using closed.hyps by (simp_all add: notify_Close_channel_def split: if_splits)
  ultimately show ?case using closed.prems by (simp add: notify_inv_def, blast)
next
  case (machine s c')
  then show ?case
    using ok_machine [OF machine.hyps, of "mset (ns_recording s)"] machine_flags(1,2) [OF machine.hyps]
    by (simp add: notify_inv_def, blast)
qed

interpretation notify: kept_invariant notify_step notify_inv
  by unfold_locales (rule notify_keeps)

definition notify_start :: "Notification client \<Rightarrow> notify_sys" where
  "notify_start c = \<lparr>ns_client = c, ns_recording = [], ns_closing = False\<rparr>"

text \<open>As long as nothing panicked the notification client keeps its events as the audit client does.\<close>

lemma notify_conserves:
  assumes "notify_NewClient cfg = Inr c0" "notify_step\<^sup>*\<^sup>* (notify_start c0) s" "\<not> bc_panicked (ns_client s)"
  shows "mset (bc_offered (ns_client s)) = account (ns_client s) + mset (ns_recording s)"
proof -
  have "notify_inv (notify_start c0)"
    using assms(1) ok_start by (auto simp: notify_NewClient_def notify_inv_def notify_start_def split: if_splits)
  from notify.run_keeps [OF assms(2) this] assms(3) show ?thesis by (simp add: notify_inv_def client_ok_def)
qed

text \<open>
  C40: The notification client can crash its process. Its Record releases the lock
  between looking at the closed flag and sending, and its Close closes the channel
  after releasing the lock. So a Record that has passed the check when Close runs
  sends on a closed channel, which panics; any client and any notification will do.
\<close>

theorem notify_Record_panics:
  assumes "notify_NewClient cfg = Inr c0"
  shows "\<exists>s s'. notify_Close_channel (notify_Close_mark (notify_Record_check (Some n) (notify_start c0))) = Some s \<and>
    notify_Record_send 0 s = Some s' \<and> notify_step\<^sup>*\<^sup>* (notify_start c0) s' \<and> bc_panicked (ns_client s')"
proof -
  let ?s1 = "notify_Record_check (Some n) (notify_start c0)"
  have open0: "\<not> bc_closed c0" using assms by (auto simp: notify_NewClient_def start_client_def Let_def split: if_splits)
  then have s1: "?s1 = \<lparr>ns_client = offer n c0, ns_recording = [n], ns_closing = False\<rparr>"
    by (simp add: notify_Record_check_def notify_start_def cloneNotification_def offer_def)
  have s2: "notify_Close_mark ?s1 = \<lparr>ns_client = (offer n c0)\<lparr>bc_closed := True\<rparr>, ns_recording = [n], ns_closing = True\<rparr>"
    using open0 by (simp add: s1 notify_Close_mark_def) (simp add: offer_def)
  let ?s3 = "\<lparr>ns_client = (offer n c0)\<lparr>bc_closed := True, bc_events_closed := True\<rparr>, ns_recording = [n], ns_closing = False\<rparr>"
  have s3: "notify_Close_channel (notify_Close_mark ?s1) = Some ?s3" by (simp add: s2 notify_Close_channel_def)
  obtain s4 where s4: "notify_Record_send 0 ?s3 = Some s4" "bc_panicked (ns_client s4)"
    by (simp add: notify_Record_send_def enqueue_event_def)
  have "notify_step (notify_start c0) ?s1" "notify_step ?s1 (notify_Close_mark ?s1)"
    "notify_step (notify_Close_mark ?s1) ?s3" "notify_step ?s3 s4"
    by (rule notify_step.checked, rule notify_step.marked, rule notify_step.closed [OF s3], rule notify_step.queued [OF s4(1)])
  then have "notify_step\<^sup>*\<^sup>* (notify_start c0) s4"
    by (meson converse_rtranclp_into_rtranclp rtranclp.rtrancl_refl)
  with s3 s4 show ?thesis by blast
qed

definition sample_notification :: Notification where
  "sample_notification = \<lparr>nt_ID = [], nt_Topic = ''billing'', nt_Title = ''due'', nt_Body = [], nt_Link = [], nt_Metadata = [],
     nt_Priority = ''high'', nt_Recipients = [''u1''], nt_Channels = [''site''], nt_Sender = []\<rparr>"

theorem notify_Record_panics_witness:
  "\<exists>c0 s s'. notify_NewClient sample_cfg = Inr c0 \<and>
    notify_Close_channel (notify_Close_mark (notify_Record_check (Some sample_notification) (notify_start c0))) = Some s \<and>
    notify_Record_send 0 s = Some s' \<and> bc_panicked (ns_client s')"
proof -
  have "notify_NewClient sample_cfg = Inr (start_client (client_defaults sample_cfg))"
    by (simp add: notify_NewClient_def sample_cfg_def)
  with notify_Record_panics [OF this, of sample_notification] show ?thesis by blast
qed

end
