(* ===== verification/RetryTransport.thy ===== *)
theory RetryTransport
  imports TokenSources
begin

text \<open>
  The retrying transport of the router client (\<open>stsclient/retry_transport.go\<close>)
  with its token-bucket retry budget, and \<open>NewRouterClient\<close>
  (\<open>stsclient/service.go\<close>), which stacks it under the bearer transport. The base
  transport, the clock, the random source and the request context are the
  environment of a round trip, indexed by the attempt.
\<close>

section \<open>The retry budget\<close>

record retryBudget =
  rb_tokens :: int
  rb_last :: int

definition budget_take :: "int \<Rightarrow> retryBudget \<Rightarrow> bool \<times> retryBudget" where
  "budget_take now b =
     (let elapsed = now - rb_last b;
          b1 = (if elapsed \<ge> go_second
                then b\<lparr>rb_tokens := min 20 (rb_tokens b + elapsed div go_second), rb_last := now\<rparr> else b)
      in if rb_tokens b1 \<le> 0 then (False, b1) else (True, b1\<lparr>rb_tokens := rb_tokens b1 - 1\<rparr>))"

section \<open>Round trips\<close>

text \<open>A transport error: whether it is a \<open>net.Error\<close> that timed out, and its text.\<close>

record net_err =
  ne_timeout :: bool
  ne_msg :: string

datatype rt_result =
    RTErr net_err
  | RTResp "http_resp option"
  | RTFail go_error

record retry_env =
  re_base :: "nat \<Rightarrow> http_req \<Rightarrow> net_err + http_resp option"
  re_now :: "nat \<Rightarrow> int"
  re_rand :: "nat \<Rightarrow> int \<Rightarrow> int"
  re_sleep :: "nat \<Rightarrow> int \<Rightarrow> err"

definition isRetryableRequest :: "http_req \<Rightarrow> bool" where
  "isRetryableRequest req =
     (if hq_Method req \<in> {''GET'', ''HEAD'', ''OPTIONS'', ''TRACE''} then True
      else if hq_Method req \<in> {''POST'', ''PUT'', ''PATCH'', ''DELETE''} then
        Header_Get (hq_Header req) ''Idempotency-Key'' \<noteq> [] \<and> (hq_Body req = None \<or> hq_GetBody req \<noteq> None)
      else False)"

definition cloneRequestForAttempt :: "http_req \<Rightarrow> nat \<Rightarrow> http_req res" where
  "cloneRequestForAttempt req attempt =
     (if attempt = 0 then Inr req
      else case hq_GetBody req of
        None \<Rightarrow> Inr req
      | Some (Inl e) \<Rightarrow> Inl e
      | Some (Inr body) \<Rightarrow> Inr (req\<lparr>hq_Body := Some body\<rparr>))"

definition isRetryableNetworkError :: "net_err \<Rightarrow> bool" where
  "isRetryableNetworkError e \<longleftrightarrow>
     ne_timeout e \<or>
     (let msg = to_lower (ne_msg e)
      in contains msg ''connection reset'' \<or> contains msg ''connection refused'' \<or>
         contains msg ''broken pipe'' \<or> contains msg ''unexpected eof'')"

definition shouldRetryResponse :: "net_err + http_resp option \<Rightarrow> bool" where
  "shouldRetryResponse out =
     (case out of
        Inl e \<Rightarrow> isRetryableNetworkError e
      | Inr None \<Rightarrow> False
      | Inr (Some resp) \<Rightarrow> hr_Status resp \<in> {502, 503, 504})"

definition fullJitterDelay :: "(int \<Rightarrow> int) \<Rightarrow> nat \<Rightarrow> int" where
  "fullJitterDelay rnd attempt =
     (let maxDelay = min (100 * go_millisecond * 2 ^ attempt) go_second in rnd (maxDelay + 1))"

definition rt_return :: "net_err + http_resp option \<Rightarrow> rt_result" where
  "rt_return out = (case out of Inl e \<Rightarrow> RTErr e | Inr r \<Rightarrow> RTResp r)"

text \<open>
  The loop of \<open>retryTransport.RoundTrip\<close>: the result, the requests handed to the
  base transport in order, and the budget left.
\<close>

function retry_loop ::
  "retry_env \<Rightarrow> http_req \<Rightarrow> nat \<Rightarrow> retryBudget \<Rightarrow> rt_result \<times> http_req list \<times> retryBudget" where
  "retry_loop e req attempt b =
     (case cloneRequestForAttempt req attempt of
        Inl x \<Rightarrow> (RTFail x, [], b)
      | Inr q \<Rightarrow>
          (let out = re_base e attempt q in
           if \<not> shouldRetryResponse out then (rt_return out, [q], b)
           else if attempt \<ge> 2 then (rt_return out, [q], b)
           else case budget_take (re_now e attempt) b of (granted, b') \<Rightarrow>
             (if \<not> granted then (rt_return out, [q], b')
              else case re_sleep e attempt (fullJitterDelay (re_rand e attempt) attempt) of
                Some x \<Rightarrow> (RTFail x, [q], b')
              | None \<Rightarrow>
                  (case retry_loop e req (Suc attempt) b' of (r, qs, b'') \<Rightarrow> (r, q # qs, b'')))))"
  by pat_completeness auto
termination
  by (relation "measure (\<lambda>(e, req, attempt, b). 2 - attempt)") auto

declare retry_loop.simps [simp del]

definition retry_RoundTrip ::
  "retry_env \<Rightarrow> http_req \<Rightarrow> retryBudget \<Rightarrow> rt_result \<times> http_req list \<times> retryBudget" where
  "retry_RoundTrip e req b =
     (if \<not> isRetryableRequest req then (rt_return (re_base e 0 req), [req], b)
      else retry_loop e req 0 b)"

section \<open>The router client\<close>

record RouterClient =
  rc_source :: TokenSource
  rc_budget :: retryBudget
  rc_Timeout :: int
  rc_BaseURL :: string

text \<open>Key loading and TLS set-up are parameters: they give the key pair, or the first error.\<close>

definition NewRouterClient ::
  "(string \<Rightarrow> string \<Rightarrow> nat res) \<Rightarrow> (STSTLSConfig \<Rightarrow> err) \<Rightarrow> (RouterTLSConfig \<Rightarrow> err) \<Rightarrow> int \<Rightarrow>
   ServiceAuthConfig \<Rightarrow> RouterClient res" where
  "NewRouterClient load_keys sts_tls router_tls now cfg =
     (case load_keys (jk_PrivateKeyFile (sa_JWT cfg)) (jk_PublicKeyFile (sa_JWT cfg)) of
        Inl x \<Rightarrow> Inl (Wrapf ''service auth: loading jwt keys: %w'' [] x)
      | Inr kp \<Rightarrow>
          (case sts_tls (sa_STSTLS cfg) of
             Some x \<Rightarrow> Inl (Wrapf ''service auth: sts transport: %w'' [] x)
           | None \<Rightarrow>
               (case router_tls (sa_RouterTLS cfg) of
                  Some x \<Rightarrow> Inl (Wrapf ''service auth: router transport: %w'' [] x)
                | None \<Rightarrow>
                    (case STS_New (Some \<lparr>sc_STSEndpoint = sa_STSEndpoint cfg, sc_Audience = sa_Audience cfg,
                             sc_ServiceName = sa_ServiceName cfg, sc_AssertionAudience = sa_AssertionAudience cfg,
                             sc_KeyPair = Some kp, sc_AssertionTTL = 4 * go_minute\<rparr>) of
                       Inl x \<Rightarrow> Inl (Wrapf ''service auth: token source: %w'' [] x)
                     | Inr ts \<Rightarrow>
                         Inr \<lparr>rc_source = ts, rc_budget = \<lparr>rb_tokens = 20, rb_last = now\<rparr>,
                              rc_Timeout = (if sa_RouterTimeout cfg > 0 then sa_RouterTimeout cfg else 0),
                              rc_BaseURL = sa_RouterBaseURL cfg\<rparr>))))"

section \<open>Properties\<close>

definition budget_ok :: "retryBudget \<Rightarrow> bool" where
  "budget_ok b \<longleftrightarrow> 0 \<le> rb_tokens b \<and> rb_tokens b \<le> 20"

text \<open>A run of calls at the given times: how many were granted.\<close>

fun takes :: "int list \<Rightarrow> retryBudget \<Rightarrow> nat \<times> retryBudget" where
  "takes [] b = (0, b)"
| "takes (t # ts) b =
     (case budget_take t b of (ok, b') \<Rightarrow> (case takes ts b' of (n, b'') \<Rightarrow> ((if ok then Suc n else n), b'')))"

lemma budget_take_ok:
  assumes "budget_ok b" "budget_take now b = (g, b')"
  shows "budget_ok b'"
proof -
  have "0 \<le> (now - rb_last b) div go_second" if "now - rb_last b \<ge> go_second"
    using that by (simp add: pos_imp_zdiv_nonneg_iff)
  with assms show ?thesis by (auto simp: budget_take_def budget_ok_def Let_def split: if_splits)
qed

lemma budget_take_accounts:
  assumes "budget_take now b = (g, b')"
  shows "(if g then 1 else 0) + rb_tokens b' \<le> rb_tokens b + (rb_last b' - rb_last b) div go_second"
    "rb_last b' = rb_last b \<or> rb_last b' = now"
  using assms by (auto simp: budget_take_def Let_def split: if_splits)

lemma div_add_le: "(a::int) div go_second + b div go_second \<le> (a + b) div go_second"
proof -
  have "a = go_second * (a div go_second) + a mod go_second" "b = go_second * (b div go_second) + b mod go_second"
    by simp_all
  then have "(a + b) div go_second = (a div go_second + b div go_second) + (a mod go_second + b mod go_second) div go_second"
    using div_mult_self2 [of go_second "a mod go_second + b mod go_second" "a div go_second + b div go_second"]
    by (simp add: algebra_simps)
  then show ?thesis by (simp add: pos_imp_zdiv_nonneg_iff)
qed

lemma takes_accounts:
  "takes ts b = (n, b') \<Longrightarrow>
     int n + rb_tokens b' \<le> rb_tokens b + (rb_last b' - rb_last b) div go_second \<and>
     (rb_last b' = rb_last b \<or> rb_last b' \<in> set ts) \<and> (budget_ok b \<longrightarrow> budget_ok b')"
proof (induction ts arbitrary: b n b')
  case (Cons t ts)
  obtain g c where c: "budget_take t b = (g, c)" by fastforce
  obtain m d where d: "takes ts c = (m, d)" by fastforce
  note IH = Cons.IH [OF d]
  have n: "n = (if g then Suc m else m)" "b' = d" using Cons.prems c d by auto
  have "(rb_last c - rb_last b) div go_second + (rb_last d - rb_last c) div go_second
      \<le> (rb_last d - rb_last b) div go_second"
    using div_add_le [of "rb_last c - rb_last b" "rb_last d - rb_last c"] by simp
  with IH budget_take_accounts [OF c] n have "int n + rb_tokens b' \<le> rb_tokens b + (rb_last b' - rb_last b) div go_second"
    by (cases g) auto
  moreover have "rb_last b' = rb_last b \<or> rb_last b' \<in> set (t # ts)"
    using IH budget_take_accounts(2) [OF c] n by auto
  moreover have "budget_ok b \<longrightarrow> budget_ok b'" using IH budget_take_ok c n by blast
  ultimately show ?case by blast
qed simp

text \<open>
  C6: The retry budget is a token bucket: it always holds between 0 and 20 tokens,
  and over any run of requests it grants at most its initial tokens plus one per
  elapsed second, however many callers ask.
\<close>

theorem takes_rate_limited:
  assumes "budget_ok b" "\<forall>t \<in> set ts. rb_last b \<le> t \<and> t \<le> rb_last b + d" "0 \<le> d" "takes ts b = (n, b')"
  shows "int n \<le> rb_tokens b + d div go_second \<and> int n \<le> 20 + d div go_second \<and> budget_ok b'"
proof -
  note acc = takes_accounts [OF assms(4)]
  have "rb_last b' - rb_last b \<le> d" using acc assms(2,3) by auto
  then have "(rb_last b' - rb_last b) div go_second \<le> d div go_second" by (rule zdiv_mono1) simp
  with acc assms(1) show ?thesis by (auto simp: budget_ok_def)
qed

theorem takes_rate_limited_witness:
  "fst (takes (replicate 30 0) \<lparr>rb_tokens = 20, rb_last = 0\<rparr>) \<le> 20"
proof -
  obtain n b' where "takes (replicate 30 0) \<lparr>rb_tokens = 20, rb_last = 0\<rparr> = (n, b')" by fastforce
  with takes_rate_limited [of "\<lparr>rb_tokens = 20, rb_last = 0\<rparr>" "replicate 30 0" 0 n b'] show ?thesis
    by (simp add: budget_ok_def)
qed

text \<open>The part of a request that retries must keep.\<close>

definition same_request :: "http_req \<Rightarrow> http_req \<Rightarrow> bool" where
  "same_request q req \<longleftrightarrow>
     hq_Method q = hq_Method req \<and> hq_URL q = hq_URL req \<and> hq_Header q = hq_Header req \<and>
     (q = req \<or> hq_GetBody req = map_option Inr (hq_Body q))"

lemma clone_same: "cloneRequestForAttempt req i = Inr q \<Longrightarrow> same_request q req"
  by (auto simp: cloneRequestForAttempt_def same_request_def split: if_splits option.splits sum.splits)

lemma retry_loop_sent:
  "retry_loop e req i b = (r, qs, b') \<Longrightarrow>
     length qs \<le> 3 - i \<or> (i > 2 \<and> length qs \<le> 1)"
proof (induction e req i b arbitrary: r qs b' rule: retry_loop.induct)
  case (1 e req i b)
  show ?case
  proof (cases "cloneRequestForAttempt req i")
    case (Inl x)
    with 1(2) show ?thesis by (simp add: retry_loop.simps [of e req i b])
  next
    case (Inr q)
    show ?thesis
    proof (cases "\<exists>r' qs' b0 b''. qs = q # qs' \<and> i < 2 \<and> retry_loop e req (Suc i) b0 = (r', qs', b'')
        \<and> shouldRetryResponse (re_base e i q) \<and> budget_take (re_now e i) b = (True, b0)
        \<and> re_sleep e i (fullJitterDelay (re_rand e i) i) = None")
      case True
      then obtain r' qs' b0 b'' where h: "qs = q # qs'" "i < 2" "retry_loop e req (Suc i) b0 = (r', qs', b'')"
        "shouldRetryResponse (re_base e i q)" "budget_take (re_now e i) b = (True, b0)"
        "re_sleep e i (fullJitterDelay (re_rand e i) i) = None"
        by blast
      from 1(1) [OF Inr refl _ _ h(5) [symmetric] _ h(6) h(3)] h show ?thesis by auto
    next
      case False
      with 1(2) Inr have "length qs \<le> 1"
        by (auto simp: retry_loop.simps [of e req i b] Let_def split: if_splits option.splits prod.splits)
      then show ?thesis by (cases "i > 2") auto
    qed
  qed
qed

lemma retry_loop_same:
  "retry_loop e req i b = (r, qs, b') \<Longrightarrow> q \<in> set qs \<Longrightarrow> same_request q req"
proof (induction e req i b arbitrary: r qs b' rule: retry_loop.induct)
  case (1 e req i b)
  show ?case
  proof (cases "cloneRequestForAttempt req i")
    case (Inl x)
    with 1 show ?thesis by (simp add: retry_loop.simps [of e req i b])
  next
    case (Inr q0)
    with 1 clone_same [OF Inr] show ?thesis
      by (auto simp: retry_loop.simps [of e req i b] Let_def split: if_splits option.splits prod.splits)
  qed
qed

lemma retry_RoundTrip_cases:
  assumes "retry_RoundTrip e req b = (r, qs, b')"
  shows "length qs \<le> 3" "\<forall>q \<in> set qs. same_request q req"
    "\<not> isRetryableRequest req \<Longrightarrow> qs = [req] \<and> b' = b \<and> r = rt_return (re_base e 0 req)"
proof -
  show "length qs \<le> 3"
    using assms retry_loop_sent [of e req 0 b r qs b'] by (auto simp: retry_RoundTrip_def split: if_splits)
  show "\<forall>q \<in> set qs. same_request q req"
    using assms retry_loop_same [of e req 0 b r qs b']
    by (auto simp: retry_RoundTrip_def same_request_def split: if_splits)
  show "\<not> isRetryableRequest req \<Longrightarrow> qs = [req] \<and> b' = b \<and> r = rt_return (re_base e 0 req)"
    using assms by (simp add: retry_RoundTrip_def)
qed


definition down_env :: retry_env where
  "down_env = \<lparr>re_base = \<lambda>_ _. Inl \<lparr>ne_timeout = True, ne_msg = ''timeout''\<rparr>, re_now = \<lambda>_. 0, re_rand = \<lambda>_ n. n - 1,
     re_sleep = \<lambda>_ _. None\<rparr>"

definition down_get :: http_req where
  "down_get = \<lparr>hq_Method = ''GET'', hq_URL = ''/x'', hq_Header = Map.empty, hq_Body = None, hq_GetBody = None\<rparr>"

lemma down_run: "fst (snd (retry_RoundTrip down_env down_get \<lparr>rb_tokens = 20, rb_last = 0\<rparr>)) = [down_get, down_get, down_get]"
  by (simp add: retry_RoundTrip_def isRetryableRequest_def down_get_def down_env_def retry_loop.simps
      cloneRequestForAttempt_def shouldRetryResponse_def isRetryableNetworkError_def budget_take_def Let_def)


text \<open>
  A complete and validated service authentication block, with loadable keys
  and TLS material, always yields a router client: its token source starts empty
  with a four-minute assertion and its retry budget full.
\<close>

theorem NewRouterClient_complete:
  assumes "ServiceAuthConfig_Validate cfg = None" "ServiceAuthConfig_IsConfigured cfg"
    and "load_keys (jk_PrivateKeyFile (sa_JWT cfg)) (jk_PublicKeyFile (sa_JWT cfg)) = Inr kp"
    and "sts_tls (sa_STSTLS cfg) = None" "router_tls (sa_RouterTLS cfg) = None"
  shows "\<exists>rc. NewRouterClient load_keys sts_tls router_tls now cfg = Inr rc \<and>
    ts_token (rc_source rc) = [] \<and> ts_assertTTL (rc_source rc) = 4 * go_minute \<and>
    rb_tokens (rc_budget rc) = 20 \<and> rc_BaseURL rc \<noteq> [] \<and> 0 \<le> rc_Timeout rc"
proof -
  have "service_auth_filled cfg" using service_auth_configured assms(1,2) by blast
  then show ?thesis
    using assms(3-5)
    by (simp add: NewRouterClient_def STS_New_def service_auth_filled_def requiredFields_def)
qed

definition full_service_auth :: ServiceAuthConfig where
  "full_service_auth = blank_service_auth\<lparr>sa_RouterBaseURL := ''r'', sa_STSEndpoint := ''e'', sa_Audience := ''a'',
     sa_ServiceName := ''s'', sa_AssertionAudience := ''x'', sa_JWT := \<lparr>jk_PrivateKeyFile = ''p'', jk_PublicKeyFile = ''q''\<rparr>\<rparr>"

theorem NewRouterClient_complete_witness:
  "\<exists>rc. NewRouterClient (\<lambda>_ _. Inr 7) (\<lambda>_. None) (\<lambda>_. None) 0 full_service_auth = Inr rc \<and> rb_tokens (rc_budget rc) = 20"
proof -
  have "ServiceAuthConfig_Validate full_service_auth = None" "ServiceAuthConfig_IsConfigured full_service_auth"
    by (simp_all add: ServiceAuthConfig_Validate_None service_auth_filled_def requiredFields_def full_service_auth_def
        blank_service_auth_def ServiceAuthConfig_IsConfigured_def)
  from NewRouterClient_complete [OF this, of "\<lambda>_ _. Inr 7" 7 "\<lambda>_. None" "\<lambda>_. None" 0] show ?thesis by auto
qed

end
