(* ===== verification/Ingest.thy ===== *)
theory Ingest
  imports BatchClient RetryTransport ClientX
begin

text \<open>
  How recorded events reach the ingest service: the HTTP transports of \<open>audit\<close> and
  \<open>notify\<close>, which differ in their payload and error texts, and the clients that go
  through the router. The network and JSON encoding are parameters.
\<close>

section \<open>HTTP transports (\<open>audit/http_transport.go\<close>, \<open>notify/http_transport.go\<close>)\<close>

record HTTPTransport =
  ht_ingestURL :: string

definition TrimRight :: "string \<Rightarrow> char \<Rightarrow> string" where
  "TrimRight s c = rev (dropWhile (\<lambda>x. x = c) (rev s))"

definition audit_NewHTTPTransport :: "string \<Rightarrow> HTTPTransport" where
  "audit_NewHTTPTransport baseURL = \<lparr>ht_ingestURL = TrimRight (trim_space baseURL) (CHR ''/'') @ ''/ingest''\<rparr>"

definition notify_NewHTTPTransport :: "string \<Rightarrow> HTTPTransport" where
  "notify_NewHTTPTransport baseURL = \<lparr>ht_ingestURL = TrimRight (trim_space baseURL) (CHR ''/'') @ ''/ingest''\<rparr>"

text \<open>
  \<open>Send\<close>, for a package's name and encoder. The rest of an accepted body is discarded;
  of a refused one the first 4096 bytes are quoted, or nothing when it cannot be read.
\<close>

definition ingest_Send :: "string \<Rightarrow> ('e list \<Rightarrow> string res) \<Rightarrow> network \<Rightarrow> HTTPTransport option \<Rightarrow> 'e list \<Rightarrow> err" where
  "ingest_Send pkg marshal net ot events =
     (case ot of
        None \<Rightarrow> None
      | Some t \<Rightarrow>
          if events = [] then None
          else (case marshal events of
                  Inl e \<Rightarrow> Some (Wrapf (''marshal '' @ pkg @ '' ingest body: %w'') [] e)
                | Inr body \<Rightarrow>
                    (case NewRequest ''POST'' (ht_ingestURL t) (Some body) of
                       Inl e \<Rightarrow> Some (Wrapf (''build '' @ pkg @ '' ingest request: %w'') [] e)
                     | Inr req \<Rightarrow>
                         (case net (req\<lparr>hq_Header := Header_Set ''Content-Type'' ''application/json'' (hq_Header req)\<rparr>) of
                            Inl e \<Rightarrow> Some (Wrapf (pkg @ '' ingest request: %w'') [] e)
                          | Inr resp \<Rightarrow>
                              if hr_Status resp = 200 \<or> hr_Status resp = 202 then None
                              else (let b = (case read_limited 4096 resp of Inl _ \<Rightarrow> [] | Inr s \<Rightarrow> s)
                                    in Some (Errorf (pkg @ '' ingest: unexpected status %d: %s'')
                                               [ArgD (hr_Status resp), ArgS (trim_space b)]))))))"

definition audit_HTTP_Send :: "(Event list \<Rightarrow> string res) \<Rightarrow> network \<Rightarrow> HTTPTransport option \<Rightarrow> Event list \<Rightarrow> err" where
  "audit_HTTP_Send = ingest_Send ''audit''"

definition notify_HTTP_Send :: "(Notification list \<Rightarrow> string res) \<Rightarrow> network \<Rightarrow> HTTPTransport option \<Rightarrow> Notification list \<Rightarrow> err" where
  "notify_HTTP_Send = ingest_Send ''notify''"

section \<open>Clients through the router\<close>

record router_setup =
  ru_keys :: "string \<Rightarrow> string \<Rightarrow> nat res"
  ru_sts :: "STSTLSConfig \<Rightarrow> err"
  ru_router :: "RouterTLSConfig \<Rightarrow> err"
  ru_now :: int

definition router_client_of :: "router_setup \<Rightarrow> ServiceAuthConfig \<Rightarrow> RouterClient res" where
  "router_client_of ru cfg = NewRouterClient (ru_keys ru) (ru_sts ru) (ru_router ru) (ru_now ru) cfg"

definition NewRouterTransport :: "router_setup \<Rightarrow> ServiceAuthConfig option \<Rightarrow> (RouterClient \<times> HTTPTransport) res" where
  "NewRouterTransport ru ocfg =
     (case ocfg of
        None \<Rightarrow> Inl (New ''audit router transport requires configured STS'')
      | Some cfg \<Rightarrow>
          if \<not> ServiceAuthConfig_IsConfigured cfg then Inl (New ''audit router transport requires configured STS'')
          else (case router_client_of ru cfg of
                  Inl e \<Rightarrow> Inl (Wrapf ''audit router client: %w'' [] e)
                | Inr rc \<Rightarrow> Inr (rc, audit_NewHTTPTransport (rc_BaseURL rc))))"

definition transport_only :: ClientConfig where
  "transport_only = \<lparr>cc_Transport = True, cc_BufferSize = 0, cc_FlushTimeout = 0, cc_Workers = 0, cc_FallbackToLog = None\<rparr>"

text \<open>An unconfigured service gets no client and no error.\<close>

definition audit_NewRouterClient :: "router_setup \<Rightarrow> ServiceAuthConfig option \<Rightarrow> Event client option res" where
  "audit_NewRouterClient ru ocfg =
     (case ocfg of
        None \<Rightarrow> Inr None
      | Some cfg \<Rightarrow>
          if \<not> ServiceAuthConfig_IsConfigured cfg then Inr None
          else (case NewRouterTransport ru ocfg of
                  Inl e \<Rightarrow> Inl e
                | Inr _ \<Rightarrow> map_sum id Some (audit_NewClient transport_only)))"

definition notify_NewRouterClient :: "router_setup \<Rightarrow> ServiceAuthConfig option \<Rightarrow> Notification client option res" where
  "notify_NewRouterClient ru ocfg =
     (case ocfg of
        None \<Rightarrow> Inr None
      | Some cfg \<Rightarrow>
          if \<not> ServiceAuthConfig_IsConfigured cfg then Inr None
          else (case router_client_of ru cfg of
                  Inl e \<Rightarrow> Inl (Wrapf ''notify router client: %w'' [] e)
                | Inr rc \<Rightarrow> map_sum id Some (notify_NewClient transport_only)))"

section \<open>The recorder (\<open>audit/recorder.go\<close>)\<close>

record ClientRecorder =
  cr_client :: "Event client option"
  cr_service :: string

definition NewClientRecorder :: "Event client option \<Rightarrow> string \<Rightarrow> ClientRecorder option" where
  "NewClientRecorder oc service = (case oc of None \<Rightarrow> None | Some c \<Rightarrow> Some \<lparr>cr_client = Some c, cr_service = service\<rparr>)"

definition ClientRecorder_Record :: "uuid_lib \<Rightarrow> nat res \<Rightarrow> int \<Rightarrow> ClientRecorder option \<Rightarrow> Event option \<Rightarrow> err \<times> ClientRecorder option" where
  "ClientRecorder_Record ul random now orec oevent =
     (case (orec, oevent) of
        (Some r, Some event) \<Rightarrow>
          (case cr_client r of
             None \<Rightarrow> (None, orec)
           | Some c \<Rightarrow>
               (let ev = cloneEvent event;
                    ev = (if ev_Service ev = [] then ev\<lparr>ev_Service := cr_service r\<rparr> else ev)
                in (None, Some (r\<lparr>cr_client := Some (audit_Record ul random now (Some ev) c)\<rparr>))))
      | _ \<Rightarrow> (None, orec))"

section \<open>Receipts\<close>

text \<open>A send of something succeeds exactly when the service answered 200 or 202 to one POST of the whole batch.\<close>

lemma ingest_Send_ok:
  assumes "events \<noteq> []"
  shows "ingest_Send pkg marshal net (Some t) events = None \<longleftrightarrow>
    (\<exists>body req resp. marshal events = Inr body \<and> NewRequest ''POST'' (ht_ingestURL t) (Some body) = Inr req \<and>
       net (req\<lparr>hq_Header := Header_Set ''Content-Type'' ''application/json'' (hq_Header req)\<rparr>) = Inr resp \<and>
       hr_Status resp \<in> {200, 202})"
  using assms by (auto simp: ingest_Send_def Let_def split: sum.splits if_splits)

text \<open>The recorder's step is a step of the client, so what holds of its runs holds here.\<close>

lemma ClientRecorder_Record_step:
  assumes "cr_client r = Some c" "ClientRecorder_Record ul random now (Some r) (Some e) = (er, Some r')"
  shows "er = None \<and> (\<exists>c'. cr_client r' = Some c' \<and> audit_step c c')"
  using assms by (auto simp: ClientRecorder_Record_def Let_def intro: audit_step.recorded)

end
