(* ===== verification/S3Format.thy ===== *)
theory S3Format
  imports MintConfig Base64 AuditHTTP
begin

text \<open>
  The stored form of a token (\<open>s3store/format.go\<close>): a JSON object that holds a
  plain token, a ciphertext with its key, or the descriptor of a credential to be
  minted. The JSON tree of an object and its reading back are modelled; printing and
  parsing JSON text are parameters.
\<close>

section \<open>Standard base64\<close>

text \<open>The standard alphabet differs from the URL alphabet in two characters.\<close>

definition url_to_std :: "char \<Rightarrow> char" where
  "url_to_std c = (if c = CHR ''-'' then CHR ''+'' else if c = CHR ''_'' then CHR ''/'' else c)"

definition std_to_url :: "char \<Rightarrow> char" where
  "std_to_url c =
     (if c = CHR ''+'' then CHR ''-'' else if c = CHR ''/'' then CHR ''_''
      else if c = CHR ''-'' \<or> c = CHR ''_'' then CHR ''!'' else c)"

definition StdEncode :: "string \<Rightarrow> string" where
  "StdEncode s = map url_to_std (with_padding (RawURLEncode s))"

definition StdDecodeString :: "string \<Rightarrow> string res" where
  "StdDecodeString s = URLDecodeString (map std_to_url s)"

section \<open>Objects\<close>

record TokenObject =
  to_EncryptedToken :: string
  to_KMSKeyID :: string
  to_Plaintext :: string
  to_Kind :: string
  to_GrantProfile :: string
  to_ClientIDRef :: string
  to_ClientSecretRef :: string
  to_UpdatedAt :: string
  to_UpdatedBy :: string
  to_Tenant :: string
  to_SchemaVersion :: int

definition zero_object :: TokenObject where
  "zero_object = \<lparr>to_EncryptedToken = [], to_KMSKeyID = [], to_Plaintext = [], to_Kind = [], to_GrantProfile = [],
     to_ClientIDRef = [], to_ClientSecretRef = [], to_UpdatedAt = [], to_UpdatedBy = [], to_Tenant = [], to_SchemaVersion = 0\<rparr>"

text \<open>Encoding: empty fields are left out.\<close>

definition text_field :: "string \<Rightarrow> string \<Rightarrow> (string \<times> json) list" where
  "text_field name v = (if v = [] then [] else [(name, JString v)])"

definition token_json :: "TokenObject \<Rightarrow> json" where
  "token_json t =
     JObject
       (text_field ''enc_token'' (to_EncryptedToken t) @ text_field ''kms_key_id'' (to_KMSKeyID t) @
        text_field ''plaintext'' (to_Plaintext t) @ text_field ''kind'' (to_Kind t) @
        text_field ''grant_profile'' (to_GrantProfile t) @ text_field ''client_id_ref'' (to_ClientIDRef t) @
        text_field ''client_secret_ref'' (to_ClientSecretRef t) @ text_field ''updated_at'' (to_UpdatedAt t) @
        text_field ''updated_by'' (to_UpdatedBy t) @ text_field ''tenant'' (to_Tenant t) @
        (if to_SchemaVersion t = 0 then [] else [(''schema_version'', JNumber (Fin (of_int (to_SchemaVersion t))))]))"

text \<open>
  Decoding: members in order, a name matched without regard to case, a null left
  aside, an unknown name ignored, a value of the wrong type an error.
\<close>

definition set_text :: "json \<Rightarrow> (string \<Rightarrow> TokenObject) \<Rightarrow> TokenObject \<Rightarrow> TokenObject res" where
  "set_text v upd t =
     (case v of
        JString s \<Rightarrow> Inr (upd s)
      | JNull \<Rightarrow> Inr t
      | _ \<Rightarrow> Inl (New ''json: cannot unmarshal value into Go struct field of type string''))"

definition set_field :: "string \<times> json \<Rightarrow> TokenObject \<Rightarrow> TokenObject res" where
  "set_field kv t =
     (case kv of (k, v) \<Rightarrow>
        if EqualFold k ''enc_token'' then set_text v (\<lambda>s. t\<lparr>to_EncryptedToken := s\<rparr>) t
        else if EqualFold k ''kms_key_id'' then set_text v (\<lambda>s. t\<lparr>to_KMSKeyID := s\<rparr>) t
        else if EqualFold k ''plaintext'' then set_text v (\<lambda>s. t\<lparr>to_Plaintext := s\<rparr>) t
        else if EqualFold k ''kind'' then set_text v (\<lambda>s. t\<lparr>to_Kind := s\<rparr>) t
        else if EqualFold k ''grant_profile'' then set_text v (\<lambda>s. t\<lparr>to_GrantProfile := s\<rparr>) t
        else if EqualFold k ''client_id_ref'' then set_text v (\<lambda>s. t\<lparr>to_ClientIDRef := s\<rparr>) t
        else if EqualFold k ''client_secret_ref'' then set_text v (\<lambda>s. t\<lparr>to_ClientSecretRef := s\<rparr>) t
        else if EqualFold k ''updated_at'' then set_text v (\<lambda>s. t\<lparr>to_UpdatedAt := s\<rparr>) t
        else if EqualFold k ''updated_by'' then set_text v (\<lambda>s. t\<lparr>to_UpdatedBy := s\<rparr>) t
        else if EqualFold k ''tenant'' then set_text v (\<lambda>s. t\<lparr>to_Tenant := s\<rparr>) t
        else if EqualFold k ''schema_version'' then
          (case v of
             JNull \<Rightarrow> Inr t
           | _ \<Rightarrow> (case json_int v of
                     Some n \<Rightarrow> Inr (t\<lparr>to_SchemaVersion := n\<rparr>)
                   | None \<Rightarrow> Inl (New ''json: cannot unmarshal value into Go struct field of type int'')))
        else Inr t)"

definition token_of_json :: "json \<Rightarrow> TokenObject res" where
  "token_of_json j =
     (case j of
        JObject kvs \<Rightarrow> fold (\<lambda>kv acc. res_bind acc (set_field kv)) kvs (Inr zero_object)
      | JNull \<Rightarrow> Inr zero_object
      | _ \<Rightarrow> Inl (New ''json: cannot unmarshal value into Go value of type s3store.TokenObject''))"

definition IsDescriptor :: "TokenObject \<Rightarrow> bool" where
  "IsDescriptor t \<longleftrightarrow> to_Kind t \<noteq> []"

definition Descriptor_of :: "TokenObject \<Rightarrow> Descriptor" where
  "Descriptor_of t = \<lparr>de_Kind = to_Kind t, de_GrantProfile = to_GrantProfile t,
     de_ClientIDRef = to_ClientIDRef t, de_ClientSecretRef = to_ClientSecretRef t\<rparr>"

definition ParseTokenObject :: "(string \<Rightarrow> json res) \<Rightarrow> string \<Rightarrow> TokenObject res" where
  "ParseTokenObject parse data =
     (case res_bind (parse data) token_of_json of
        Inl e \<Rightarrow> Inl (Wrapf ''s3store: parse token object: %w'' [] e)
      | Inr t \<Rightarrow>
          (if IsDescriptor t then
             (if to_Plaintext t \<noteq> [] \<or> to_EncryptedToken t \<noteq> []
              then Inl (Errorf ''s3store: token object has both a descriptor %q and a stored value'' [ArgS (to_Kind t)])
              else case Descriptor_Validate (Some (Descriptor_of t)) of
                     Some e \<Rightarrow> Inl (Wrapf ''s3store: %w'' [] e)
                   | None \<Rightarrow> Inr t)
           else if to_Plaintext t = [] \<and> to_EncryptedToken t = []
           then Inl (New ''s3store: token object must have either \"plaintext\" or \"enc_token\" field'')
           else if to_EncryptedToken t \<noteq> [] \<and> to_KMSKeyID t = []
           then Inl (New ''s3store: token object with \"enc_token\" requires \"kms_key_id\"'')
           else Inr t))"

definition MarshalTokenObject :: "(json \<Rightarrow> string res) \<Rightarrow> TokenObject \<Rightarrow> string res" where
  "MarshalTokenObject print t = wrap_res ''s3store: marshal token object: %w'' [] (print (token_json t))"

record DecodedToken =
  dt_Plaintext :: string
  dt_EncryptedToken :: string
  dt_KMSKeyID :: string
  dt_Passthrough :: bool
  dt_Descriptor :: "Descriptor option"

definition DecodeToken :: "TokenObject \<Rightarrow> string \<Rightarrow> DecodedToken res" where
  "DecodeToken t kmsMode =
     (let none = \<lparr>dt_Plaintext = [], dt_EncryptedToken = [], dt_KMSKeyID = [], dt_Passthrough = False, dt_Descriptor = None\<rparr>
      in if IsDescriptor t then Inr (none\<lparr>dt_Descriptor := Some (Descriptor_of t)\<rparr>)
         else if kmsMode = ''passthrough'' then
           (if to_Plaintext t = [] then Inl (New ''s3store: passthrough mode requires \"plaintext\" field'')
            else Inr (none\<lparr>dt_Plaintext := to_Plaintext t, dt_Passthrough := True\<rparr>))
         else if kmsMode = ''kms'' then
           (if to_EncryptedToken t = [] then Inl (New ''s3store: kms mode requires \"enc_token\" field'')
            else case StdDecodeString (to_EncryptedToken t) of
                   Inl e \<Rightarrow> Inl (Wrapf ''s3store: invalid base64 in enc_token: %w'' [] e)
                 | Inr decoded \<Rightarrow> Inr (none\<lparr>dt_EncryptedToken := decoded, dt_KMSKeyID := to_KMSKeyID t\<rparr>))
         else Inl (Errorf ''s3store: unknown kms_mode %q'' [ArgS kmsMode]))"

definition EncodeToken :: "string \<Rightarrow> string \<Rightarrow> string \<Rightarrow> TokenObject res" where
  "EncodeToken raw kmsKeyID kmsMode =
     (if kmsMode = ''passthrough'' then Inr (zero_object\<lparr>to_Plaintext := raw\<rparr>)
      else if kmsMode = ''kms'' then Inr (zero_object\<lparr>to_EncryptedToken := StdEncode raw, to_KMSKeyID := kmsKeyID\<rparr>)
      else Inl (Errorf ''s3store: unknown kms_mode %q'' [ArgS kmsMode]))"

definition EncodeDescriptor :: "Descriptor \<Rightarrow> TokenObject res" where
  "EncodeDescriptor d =
     (case Descriptor_Validate (Some d) of
        Some e \<Rightarrow> Inl (Wrapf ''s3store: %w'' [] e)
      | None \<Rightarrow> Inr (zero_object\<lparr>to_Kind := de_Kind d, to_GrantProfile := de_GrantProfile d,
                        to_ClientIDRef := de_ClientIDRef d, to_ClientSecretRef := de_ClientSecretRef d\<rparr>))"

section \<open>Round trips\<close>

lemma quantum_alphabet:
  assumes "v < 16777216" "c \<in> set (quantum v)"
  shows "\<exists>n < 64. c = b64_char n"
proof -
  have "v div 262144 < 64" using assms(1) by (simp add: div_less_iff_less_mult)
  moreover have "v div 4096 mod 64 < 64" "v div 64 mod 64 < 64" "v mod 64 < 64" by simp_all
  ultimately show ?thesis using assms(2) unfolding quantum_def list.set by blast
qed

lemma encode_alphabet: "c \<in> set (RawURLEncode s) \<Longrightarrow> \<exists>n < 64. c = b64_char n"
proof (induction s rule: RawURLEncode.induct)
  case (2 a)
  have "byte a * 65536 < 16777216" using byte_less [of a] by linarith
  then show ?case using 2 quantum_alphabet in_set_takeD unfolding RawURLEncode.simps by metis
next
  case (3 a b)
  have "byte a * 65536 + byte b * 256 < 16777216" using byte_less [of a] byte_less [of b] by linarith
  then show ?case using 3 quantum_alphabet in_set_takeD unfolding RawURLEncode.simps by metis
next
  case (4 a b c' s)
  then show ?case using quantum_alphabet [OF join_bound] by auto
qed simp

lemma std_alphabet:
  assumes "n < 64"
  shows "std_to_url (url_to_std (b64_char n)) = b64_char n"
proof -
  have "b64_val (b64_char n) \<noteq> None" using assms by simp
  moreover have "b64_val (CHR ''+'') = None" "b64_val (CHR ''/'') = None" by (simp_all add: b64_val_def byte_def)
  ultimately have "b64_char n \<noteq> CHR ''+''" "b64_char n \<noteq> CHR ''/''" by metis+
  then show ?thesis by (auto simp: url_to_std_def std_to_url_def)
qed

lemma StdEncode_round_trip [simp]: "StdDecodeString (StdEncode s) = Inr s"
proof -
  have "map (std_to_url \<circ> url_to_std) (RawURLEncode s) = RawURLEncode s"
    using encode_alphabet std_alphabet by (intro map_idI) fastforce
  moreover have "std_to_url (url_to_std (CHR ''='')) = CHR ''=''" by (simp add: url_to_std_def std_to_url_def)
  ultimately have "map (std_to_url \<circ> url_to_std) (with_padding (RawURLEncode s)) = with_padding (RawURLEncode s)"
    by (simp add: with_padding_def)
  moreover have "URLDecodeString (with_padding (RawURLEncode s)) = Inr s"
    using base64_round_trip [of s] by (simp add: base64URLDecode_def with_padding_def)
  ultimately show ?thesis by (simp add: StdDecodeString_def StdEncode_def)
qed

lemma StdEncode_empty: "StdEncode s = [] \<longleftrightarrow> s = []"
  by (cases s rule: RawURLEncode.cases) (simp_all add: StdEncode_def with_padding_def quantum_def)

text \<open>Reading a member that was written: one lemma for each step of the fold.\<close>

lemma text_field_step:
  assumes "\<And>v t. set_field (name, JString v) t = Inr (upd (\<lambda>_. v) t)" "upd (\<lambda>_. []) t = t"
  shows "fold (\<lambda>kv acc. res_bind acc (set_field kv)) (text_field name v) (Inr t) = Inr (upd (\<lambda>_. v) t)"
  using assms by (simp add: text_field_def)

lemma fold_names:
  "set_field (''enc_token'', JString v) t = Inr (t\<lparr>to_EncryptedToken := v\<rparr>)"
  "set_field (''kms_key_id'', JString v) t = Inr (t\<lparr>to_KMSKeyID := v\<rparr>)"
  "set_field (''plaintext'', JString v) t = Inr (t\<lparr>to_Plaintext := v\<rparr>)"
  "set_field (''kind'', JString v) t = Inr (t\<lparr>to_Kind := v\<rparr>)"
  "set_field (''grant_profile'', JString v) t = Inr (t\<lparr>to_GrantProfile := v\<rparr>)"
  "set_field (''client_id_ref'', JString v) t = Inr (t\<lparr>to_ClientIDRef := v\<rparr>)"
  "set_field (''client_secret_ref'', JString v) t = Inr (t\<lparr>to_ClientSecretRef := v\<rparr>)"
  "set_field (''updated_at'', JString v) t = Inr (t\<lparr>to_UpdatedAt := v\<rparr>)"
  "set_field (''updated_by'', JString v) t = Inr (t\<lparr>to_UpdatedBy := v\<rparr>)"
  "set_field (''tenant'', JString v) t = Inr (t\<lparr>to_Tenant := v\<rparr>)"
  "in_int64 n \<Longrightarrow> set_field (''schema_version'', JNumber (Fin (of_int n))) t = Inr (t\<lparr>to_SchemaVersion := n\<rparr>)"
  by (simp_all add: set_field_def set_text_def EqualFold_def lower_byte_def byte_def json_int_def)

lemma fold_append: "fold f (xs @ ys) a = fold f ys (fold f xs a)"
  by simp

lemma token_of_json_token_json:
  assumes "in_int64 (to_SchemaVersion t)"
  shows "token_of_json (token_json t) = Inr t"
  using assms unfolding token_of_json_def token_json_def json.case
  by (simp add: fold_append fold_names text_field_def zero_object_def)


definition demo_stored :: TokenObject where
  "demo_stored = zero_object\<lparr>to_EncryptedToken := StdEncode ''ct'', to_KMSKeyID := ''key-1''\<rparr>"


text \<open>A descriptor is stored only when it is valid, and comes back as it was, whatever the mode.\<close>

lemma stored_descriptor_round_trip:
  assumes "EncodeDescriptor d = Inr t" "parse text = Inr (token_json t)"
  shows "ParseTokenObject parse text = Inr t" "DecodeToken t mode = Inr \<lparr>dt_Plaintext = [], dt_EncryptedToken = [],
    dt_KMSKeyID = [], dt_Passthrough = False, dt_Descriptor = Some d\<rparr>"
proof -
  have v: "Descriptor_Validate (Some d) = None" and t: "t = zero_object\<lparr>to_Kind := de_Kind d, to_GrantProfile := de_GrantProfile d,
      to_ClientIDRef := de_ClientIDRef d, to_ClientSecretRef := de_ClientSecretRef d\<rparr>"
    using assms(1) by (auto simp: EncodeDescriptor_def split: option.splits)
  have d: "Descriptor_of t = d" by (simp add: t Descriptor_of_def)
  have k: "IsDescriptor t" "to_Plaintext t = []" "to_EncryptedToken t = []"
    using v by (auto simp: t IsDescriptor_def zero_object_def Descriptor_Validate_def KindOAuth2ClientCredentials_def check_simps)
  have "token_of_json (token_json t) = Inr t"
    by (intro token_of_json_token_json) (simp add: t zero_object_def in_int64_def)
  then show "ParseTokenObject parse text = Inr t" using assms(2) v k by (simp add: ParseTokenObject_def d)
  show "DecodeToken t mode = Inr \<lparr>dt_Plaintext = [], dt_EncryptedToken = [],
    dt_KMSKeyID = [], dt_Passthrough = False, dt_Descriptor = Some d\<rparr>" using k by (simp add: DecodeToken_def d)
qed

text \<open>What a parsed object can be: a valid descriptor without a stored value, or a stored value.\<close>

lemma ParseTokenObject_kinds:
  assumes "ParseTokenObject parse data = Inr t"
  shows "IsDescriptor t \<and> to_Plaintext t = [] \<and> to_EncryptedToken t = [] \<and> Descriptor_Validate (Some (Descriptor_of t)) = None \<or>
    \<not> IsDescriptor t \<and> (to_Plaintext t \<noteq> [] \<or> to_EncryptedToken t \<noteq> [] \<and> to_KMSKeyID t \<noteq> [])"
  using assms by (auto simp: ParseTokenObject_def split: sum.splits if_splits option.splits)

text \<open>
  Plain text and ciphertext together are accepted, although the three formats are meant to
  exclude each other: which token is served then depends on the mode the reader is configured for.
\<close>

lemma both_values_accepted:
  fixes parse :: "string \<Rightarrow> json res"
  defines "t \<equiv> zero_object\<lparr>to_Plaintext := ''old'', to_EncryptedToken := StdEncode ''new'', to_KMSKeyID := ''k''\<rparr>"
  assumes "parse text = Inr (token_json t)"
  shows "ParseTokenObject parse text = Inr t" "map_sum id dt_Plaintext (DecodeToken t ''passthrough'') = Inr ''old''"
    "map_sum id dt_EncryptedToken (DecodeToken t ''kms'') = Inr ''new''"
proof -
  have "token_of_json (token_json t) = Inr t"
    by (intro token_of_json_token_json) (simp add: t_def zero_object_def in_int64_def)
  then show "ParseTokenObject parse text = Inr t"
    using assms(2) by (simp add: ParseTokenObject_def) (simp add: t_def IsDescriptor_def zero_object_def)
qed (simp_all add: t_def DecodeToken_def IsDescriptor_def zero_object_def StdEncode_empty)

end
