(* ===== verification/GoPath.thy ===== *)
theory GoPath
  imports GoHTTP
begin

text \<open>
  Go's \<open>path.Clean\<close> and \<open>path.Join\<close>, and the printing of a URL (\<open>url.URL.String\<close>),
  the inverse of the parser of \<open>GoNet\<close>.
\<close>

section \<open>Paths\<close>

text \<open>
  The elements of a path, one at a time; the stack holds what is kept, the last
  element first. An element \<open>..\<close> removes the one before it, is dropped at the root
  and kept at the start of a relative path.
\<close>

fun clean_elems :: "bool \<Rightarrow> string list \<Rightarrow> string list \<Rightarrow> string list" where
  "clean_elems rooted st [] = rev st"
| "clean_elems rooted st (e # es) =
     (if e = [] \<or> e = ''.'' then clean_elems rooted st es
      else if e = ''..'' then
        (case st of
           t # ts \<Rightarrow> if t = ''..'' then clean_elems rooted (e # st) es else clean_elems rooted ts es
         | [] \<Rightarrow> clean_elems rooted (if rooted then [] else [e]) es)
      else clean_elems rooted (e # st) es)"

definition path_Clean :: "string \<Rightarrow> string" where
  "path_Clean p =
     (let rooted = has_prefix p ''/'';
          r = (if rooted then ''/'' else []) @ join_with ''/'' (clean_elems rooted [] (split_on (CHR ''/'') p))
      in if r = [] then ''.'' else r)"

definition path_Join :: "string list \<Rightarrow> string" where
  "path_Join elems =
     (case dropWhile (\<lambda>e. e = []) elems of
        [] \<Rightarrow> []
      | es \<Rightarrow> path_Clean (join_with ''/'' es))"

text \<open>An element that names something: not empty, not a dot element, no slash.\<close>

definition plain_elem :: "string \<Rightarrow> bool" where
  "plain_elem e \<longleftrightarrow> e \<noteq> [] \<and> e \<noteq> ''.'' \<and> e \<noteq> ''..'' \<and> CHR ''/'' \<notin> set e"

lemma clean_elems_plain: "list_all plain_elem es \<Longrightarrow> clean_elems rooted st es = rev st @ es"
  by (induction es arbitrary: st) (auto simp: plain_elem_def)

lemma join_with_append: "xs \<noteq> [] \<Longrightarrow> ys \<noteq> [] \<Longrightarrow> join_with sep (xs @ ys) = join_with sep xs @ sep @ join_with sep ys"
proof (induction xs)
  case (Cons x xs)
  then show ?case by (cases xs) (auto simp: join_with_Cons)
qed simp

lemma split_on_join_append: "split_on c (s @ c # t) = split_on c s @ split_on c t"
  by (induction s) (auto split: list.splits)

text \<open>Cleaning leaves a path of plain elements alone, rooted or not.\<close>

lemma path_Clean_plain:
  assumes "es \<noteq> []" "list_all plain_elem es"
  shows "path_Clean (join_with ''/'' es) = join_with ''/'' es" "path_Clean (CHR ''/'' # join_with ''/'' es) = CHR ''/'' # join_with ''/'' es"
proof -
  have s: "split_on (CHR ''/'') (join_with ''/'' es) = es"
    using assms by (intro split_join) (auto simp: list_all_iff plain_elem_def)
  obtain e r where e: "es = e # r" "e \<noteq> []" "CHR ''/'' \<notin> set e"
    using assms by (cases es) (auto simp: plain_elem_def)
  have "hd (join_with ''/'' es) = hd e" "join_with ''/'' es \<noteq> []"
    using e(1,2) by (cases r; simp)+
  moreover have "hd e \<noteq> CHR ''/''" using e(2,3) by (cases e) auto
  ultimately have "\<not> has_prefix (join_with ''/'' es) ''/''" "join_with ''/'' es \<noteq> []"
    by (cases "join_with ''/'' es"; simp add: has_prefix_def)+
  then show "path_Clean (join_with ''/'' es) = join_with ''/'' es"
    using clean_elems_plain [OF assms(2)] by (simp add: path_Clean_def s)
  have "split_on (CHR ''/'') (CHR ''/'' # join_with ''/'' es) = [] # es" by (simp add: s)
  then show "path_Clean (CHR ''/'' # join_with ''/'' es) = CHR ''/'' # join_with ''/'' es"
    using clean_elems_plain [OF assms(2)] by (simp add: path_Clean_def has_prefix_def)
qed

text \<open>Cleaning leaves no dot elements behind: below the root there is no way up.\<close>

lemma clean_elems_rooted:
  "list_all plain_elem st \<Longrightarrow> \<forall>e \<in> set es. CHR ''/'' \<notin> set e \<Longrightarrow> list_all plain_elem (clean_elems True st es)"
proof (induction es arbitrary: st)
  case (Cons e es)
  then show ?case by (cases st) (auto simp: plain_elem_def)
qed (simp add: list_all_iff)

section \<open>Printing URLs\<close>

fun escape_with :: "(char \<Rightarrow> bool) \<Rightarrow> string \<Rightarrow> string" where
  "escape_with plain [] = []"
| "escape_with plain (c # s) =
     (if plain c then [c] else [CHR ''%'', upper_hex (byte c div 16), upper_hex (byte c mod 16)]) @ escape_with plain s"

definition path_plain :: "char \<Rightarrow> bool" where
  "path_plain c \<longleftrightarrow> unreserved c \<or> c \<in> set ''$&+,/:;=@''"

definition host_plain :: "char \<Rightarrow> bool" where
  "host_plain c \<longleftrightarrow> unreserved c \<or> c \<in> set ''!$&()*+,;=:[]<>'' \<or> c = CHR 0x27 \<or> c = CHR 0x22"

definition user_plain :: "char \<Rightarrow> bool" where
  "user_plain c \<longleftrightarrow> unreserved c \<or> c \<in> set ''$&+,;=''"

definition fragment_plain :: "char \<Rightarrow> bool" where
  "fragment_plain c \<longleftrightarrow> unreserved c \<or> c \<in> set ''$&+,/:;=?@!()*''"

text \<open>A user part is decoded and encoded again, name and password apart.\<close>

definition user_String :: "string \<Rightarrow> string" where
  "user_String raw =
     (let enc = (\<lambda>s. escape_with user_plain (case unescape EncUserPassword s of Some t \<Rightarrow> t | None \<Rightarrow> s))
      in case cut (CHR '':'') raw of
           None \<Rightarrow> enc raw
         | Some (name, password) \<Rightarrow> enc name @ '':'' @ enc password)"

text \<open>
  \<open>URL.String\<close>, for a URL whose path was set by the program, so that the escapes the
  path once had are not remembered.
\<close>

definition url_String :: "url \<Rightarrow> string" where
  "url_String u =
     (let scheme = (if Scheme u \<noteq> [] then Scheme u @ '':'' else []);
          p = (if Path u = ''*'' then ''*'' else escape_with path_plain (Path u));
          authority =
            (if (Scheme u \<noteq> [] \<or> Host u \<noteq> [] \<or> User u \<noteq> None) \<and> (Host u \<noteq> [] \<or> Path u \<noteq> [] \<or> User u \<noteq> None)
             then ''//'' @ (case User u of None \<Rightarrow> [] | Some w \<Rightarrow> user_String w @ ''@'') @ escape_with host_plain (Host u)
             else []);
          slash = (if p \<noteq> [] \<and> \<not> has_prefix p ''/'' \<and> Host u \<noteq> [] then ''/'' else []);
          dot = (if scheme @ authority @ slash = [] \<and> CHR '':'' \<in> set (takeWhile (\<lambda>c. c \<noteq> CHR ''/'') p) then ''./'' else []);
          rest = (if Opaque u \<noteq> [] then Opaque u else authority @ slash @ dot @ p)
      in scheme @ rest @ (if RawQuery u \<noteq> [] then ''?'' @ RawQuery u else []) @
         (if Fragment u \<noteq> [] then ''#'' @ escape_with fragment_plain (Fragment u) else []))"

lemma upper_hex_facts:
  assumes "d < 16"
  shows "is_hex (upper_hex d)" "unhex (upper_hex d) = d"
proof -
  have "byte (upper_hex d) = (if d < 10 then 48 + d else 55 + d)" using assms by (simp add: upper_hex_def)
  then show "is_hex (upper_hex d)" "unhex (upper_hex d) = d"
    using assms by (auto simp: is_hex_def unhex_def is_digit_def)
qed

lemma byte_div_mod: "byte c div 16 < 16" "byte c mod 16 < 16" "16 * (byte c div 16) + byte c mod 16 = byte c"
  using byte_less [of c] by (simp_all add: div_less_iff_less_mult)

text \<open>Decoding undoes the escapes of a path.\<close>

lemma unescape_escape: "plain (CHR ''%'') = False \<Longrightarrow> unescape EncPath (escape_with plain s) = Some s"
  by (induction plain s rule: escape_with.induct) (auto simp: escape_ok_def upper_hex_facts byte_div_mod)

lemma path_plain_percent: "path_plain (CHR ''%'') = False"
  by (simp add: path_plain_def unreserved_def is_alpha_def is_digit_def byte_def)

lemmas unescape_path = unescape_escape [of path_plain, OF path_plain_percent]

text \<open>An escaped path ends neither at a query nor at a fragment.\<close>

lemma upper_hex_alnum: "d < 16 \<Longrightarrow> upper_hex d \<notin> {CHR ''?'', CHR ''#''}"
  using upper_hex_facts(1) [of d] by (auto simp: is_hex_def is_digit_def byte_def)

lemma escape_path_chars: "set (escape_with path_plain s) \<inter> {CHR ''?'', CHR ''#''} = {}"
proof (induction s)
  case (Cons c s)
  have "path_plain (CHR ''?'') = False" "path_plain (CHR ''#'') = False"
    by (simp_all add: path_plain_def unreserved_def is_alpha_def is_digit_def byte_def)
  then have "c \<notin> {CHR ''?'', CHR ''#''}" if "path_plain c" using that by auto
  then show ?case using Cons upper_hex_alnum [of "byte c div 16"] upper_hex_alnum [of "byte c mod 16"] byte_div_mod [of c]
    by auto
qed simp

lemma escape_with_plain: "list_all plain s \<Longrightarrow> escape_with plain s = s"
  by (induction s) auto

lemma escape_path_slash: "escape_with path_plain (CHR ''/'' # s) = CHR ''/'' # escape_with path_plain s"
  by (simp add: path_plain_def)

end
