(* ===== verification/Storage.thy ===== *)
theory Storage
  imports Utf8 GoPath ConfigSections
begin

text \<open>
  Package \<open>storage\<close>: object metadata, the validation of scopes and object keys
  (\<open>storage.go\<close>) and the presigning of requests (\<open>s3signer.go\<close>). The S3 client
  that signs is a parameter, and so is \<open>strconv.Quote\<close>, whose tables of printable
  runes are not modelled. Times and durations count nanoseconds.
\<close>

section \<open>Data\<close>

record ObjectRef =
  or_Scope :: string
  or_Bucket :: string
  or_Key :: string
  or_ETag :: string
  or_VersionID :: string
  or_ContentType :: string
  or_Size :: int
  or_LastModified :: "int option"

definition empty_ref :: ObjectRef where
  "empty_ref = \<lparr>or_Scope = [], or_Bucket = [], or_Key = [], or_ETag = [], or_VersionID = [], or_ContentType = [],
     or_Size = 0, or_LastModified = None\<rparr>"

record PresignedRequest =
  pq_Method :: string
  pq_URL :: string
  pq_Headers :: "string \<rightharpoonup> string"
  pq_ExpiresAt :: int

record ReadLink =
  rl_URL :: string
  rl_Headers :: "string \<rightharpoonup> string"
  rl_ExpiresAt :: int

datatype UploadIntentStatus = UploadIntentPending | UploadIntentFinalized | UploadIntentExpired

record UploadIntent =
  ui_ID :: string
  ui_Scope :: string
  ui_Status :: UploadIntentStatus
  ui_Object :: ObjectRef
  ui_ContentLength :: int
  ui_Metadata :: "(string \<times> string) list"
  ui_Upload :: PresignedRequest
  ui_CreatedAt :: int
  ui_ExpiresAt :: int
  ui_FinalizedAt :: "int option"

record MintUploadIntentInput =
  mi_Scope :: string
  mi_Filename :: string
  mi_ContentType :: string
  mi_ContentLength :: int
  mi_Metadata :: "(string \<times> string) list"
  mi_TTL :: int

record IssueReadLinkInput =
  ir_Bucket :: string
  ir_Key :: string
  ir_ResponseFilename :: string
  ir_ResponseContentType :: string
  ir_TTL :: int

section \<open>Validation\<close>

definition NewUploadIntentID :: "string \<Rightarrow> string" where
  "NewUploadIntentID uuid = ''ui_'' @ uuid"

definition ValidateScopeName :: "string \<Rightarrow> err" where
  "ValidateScopeName scope0 =
     (if \<not> ValidString scope0 then Some (New ''storage: scope must be valid UTF-8'')
      else let scope = trim_space scope0
           in if scope = [] then Some (New ''storage: scope is required'')
              else if contains scope ''/'' then Some (New (''storage: scope must not contain '' @ [CHR 0x27, CHR ''/'', CHR 0x27]))
              else each_check
                     (\<lambda>r. fail_if (IsControl r \<or> IsSpace r) (New ''storage: scope must not contain whitespace or control characters''))
                     (runes scope))"

definition check_segment :: "string \<Rightarrow> err" where
  "check_segment segment =
     (if segment = [] then Some (New ''storage: object key must not contain empty path segments'')
      else if segment = ''.'' \<or> segment = ''..'' then Some (New ''storage: object key must not contain dot path segments'')
      else each_check (\<lambda>r. fail_if (IsControl r) (New ''storage: object key must not contain control characters'')) (runes segment))"

definition ValidateObjectKey :: "string \<Rightarrow> err" where
  "ValidateObjectKey key0 =
     (if \<not> ValidString key0 then Some (New ''storage: object key must be valid UTF-8'')
      else let key = trim_space key0
           in if key = [] then Some (New ''storage: object key is required'')
              else if has_prefix key ''/'' \<or> has_suffix key ''/''
              then Some (New (''storage: object key must not start or end with '' @ [CHR 0x27, CHR ''/'', CHR 0x27]))
              else each_check check_segment (split_on (CHR ''/'') key))"

definition validateBucket :: "string \<Rightarrow> err" where
  "validateBucket bucket = fail_if (trim_space bucket = []) (New ''storage: bucket is required'')"

text \<open>\<open>strings.Trim(s, "/")\<close>.\<close>

definition trim_slashes :: "string \<Rightarrow> string" where
  "trim_slashes s = rev (dropWhile (\<lambda>c. c = CHR ''/'') (rev (dropWhile (\<lambda>c. c = CHR ''/'') s)))"

definition JoinObjectKey :: "string \<Rightarrow> string \<Rightarrow> string res" where
  "JoinObjectKey prefix0 key =
     (case ValidateObjectKey key of
        Some e \<Rightarrow> Inl e
      | None \<Rightarrow>
          (let prefix = trim_slashes prefix0
           in if prefix = [] then Inr key
              else case ValidateObjectKey prefix of
                     Some e \<Rightarrow> Inl (Wrapf ''storage: invalid prefix: %w'' [] e)
                   | None \<Rightarrow> Inr (prefix @ ''/'' @ key)))"

definition ValidateMintUploadIntentInput :: "MintUploadIntentInput \<Rightarrow> err" where
  "ValidateMintUploadIntentInput i =
     first_error
       [ValidateScopeName (mi_Scope i),
        fail_if (trim_space (mi_ContentType i) = []) (New ''storage: content type is required''),
        fail_if (mi_ContentLength i \<le> 0) (New ''storage: content length must be greater than zero''),
        fail_if (mi_TTL i \<le> 0) (New ''storage: ttl must be greater than zero'')]"

definition ValidateIssueReadLinkInput :: "IssueReadLinkInput \<Rightarrow> err" where
  "ValidateIssueReadLinkInput i =
     first_error
       [validateBucket (ir_Bucket i), ValidateObjectKey (ir_Key i),
        fail_if (ir_TTL i \<le> 0) (New ''storage: ttl must be greater than zero'')]"

text \<open>
  \<open>CanonicalMetadata\<close>: the map is given as its entries in the order of the iteration,
  which Go leaves open. A metadata name is a header name, so that lowering it concerns
  ASCII letters.
\<close>

definition CanonicalMetadata :: "(string \<times> string) list \<Rightarrow> (string \<times> string) list" where
  "CanonicalMetadata metadata =
     fold (\<lambda>(k, v) out.
             let key = to_lower (trim_space k)
             in if key = [] then out else put key (trim_space v) out)
       metadata []"

section \<open>Presigning\<close>

text \<open>The inputs of the S3 library, as far as the code fills them, and a signed request.\<close>

record PutObjectInput =
  pi_Bucket :: string
  pi_Key :: string
  pi_Body :: "string option"
  pi_ContentLength :: "int option"
  pi_ContentType :: string
  pi_IfNoneMatch :: "string option"
  pi_ChecksumSHA256 :: "string option"
  pi_Metadata :: "(string \<times> string) list"

record GetObjectInput =
  gi_Bucket :: string
  gi_Key :: string
  gi_VersionId :: "string option"
  gi_ResponseContentType :: "string option"
  gi_ResponseContentDisposition :: "string option"

record presigned =
  ps_URL :: string
  ps_SignedHeader :: header

record 'c presign_sdk =
  sdk_presign_put :: "'c \<Rightarrow> PutObjectInput \<Rightarrow> int \<Rightarrow> presigned res"
  sdk_presign_get :: "'c \<Rightarrow> GetObjectInput \<Rightarrow> int \<Rightarrow> presigned res"
  sdk_quote :: "string \<Rightarrow> string"

record S3SignerConfig =
  sg_Endpoint :: string
  sg_Region :: string
  sg_UsePathStyle :: bool
  sg_AccessKeyID :: Secret
  sg_SecretAccessKey :: Secret

text \<open>A signer is the configuration its client was built from.\<close>

definition NewS3Signer :: "S3SignerConfig \<Rightarrow> S3SignerConfig res" where
  "NewS3Signer cfg =
     (if Secret_IsEmpty (sg_AccessKeyID cfg) \<or> Secret_IsEmpty (sg_SecretAccessKey cfg)
      then Inl (New ''storage: presigning requires static access key credentials'')
      else Inr (cfg\<lparr>sg_Endpoint := default_str ''https://storage.yandexcloud.net'' (sg_Endpoint cfg),
                    sg_Region := default_str ''ru-central1'' (sg_Region cfg)\<rparr>))"

record PresignPutInput =
  pp_Bucket :: string
  pp_Key :: string
  pp_ContentType :: string
  pp_Metadata :: "(string \<times> string) list"
  pp_Expires :: int

record PresignGetInput =
  pg_Bucket :: string
  pg_Key :: string
  pg_ResponseFilename :: string
  pg_ResponseContentType :: string
  pg_Expires :: int

definition flattenHeader :: "header \<Rightarrow> string \<rightharpoonup> string" where
  "flattenHeader h = (\<lambda>k. map_option (join_with '', '') (h k))"

definition contentDispositionAttachment :: "(string \<Rightarrow> string) \<Rightarrow> string \<Rightarrow> string" where
  "contentDispositionAttachment quote filename =
     (let safe = map (\<lambda>c. if c \<in> {CHR 0x5C, CHR 0x22, CHR 0x0D, CHR 0x0A} then CHR ''_'' else c) filename
      in ''attachment; filename='' @ quote safe)"

definition presign_checks :: "string \<Rightarrow> string \<Rightarrow> int \<Rightarrow> err" where
  "presign_checks bucket key expires =
     first_error
       [validateBucket bucket, ValidateObjectKey key,
        fail_if (expires \<le> 0) (New ''storage: expires must be greater than zero'')]"

definition PresignPut :: "S3SignerConfig presign_sdk \<Rightarrow> int \<Rightarrow> S3SignerConfig \<Rightarrow> PresignPutInput \<Rightarrow> PresignedRequest res" where
  "PresignPut sdk now s i =
     (case presign_checks (pp_Bucket i) (pp_Key i) (pp_Expires i) of
        Some e \<Rightarrow> Inl e
      | None \<Rightarrow>
          (let contentType = default_str ''application/octet-stream'' (trim_space (pp_ContentType i))
           in case sdk_presign_put sdk s
                     \<lparr>pi_Bucket = pp_Bucket i, pi_Key = pp_Key i, pi_Body = None, pi_ContentLength = None,
                      pi_ContentType = contentType, pi_IfNoneMatch = None, pi_ChecksumSHA256 = None,
                      pi_Metadata = CanonicalMetadata (pp_Metadata i)\<rparr> (pp_Expires i) of
                Inl e \<Rightarrow> Inl (Wrapf ''storage: presign put: %w'' [] e)
              | Inr out \<Rightarrow>
                  Inr \<lparr>pq_Method = ''PUT'', pq_URL = ps_URL out, pq_Headers = flattenHeader (ps_SignedHeader out),
                       pq_ExpiresAt = now + pp_Expires i\<rparr>))"

definition PresignGet :: "S3SignerConfig presign_sdk \<Rightarrow> int \<Rightarrow> S3SignerConfig \<Rightarrow> PresignGetInput \<Rightarrow> PresignedRequest res" where
  "PresignGet sdk now s i =
     (case presign_checks (pg_Bucket i) (pg_Key i) (pg_Expires i) of
        Some e \<Rightarrow> Inl e
      | None \<Rightarrow>
          (let ct = trim_space (pg_ResponseContentType i);
               filename = trim_space (pg_ResponseFilename i)
           in case sdk_presign_get sdk s
                     \<lparr>gi_Bucket = pg_Bucket i, gi_Key = pg_Key i, gi_VersionId = None,
                      gi_ResponseContentType = (if ct \<noteq> [] then Some ct else None),
                      gi_ResponseContentDisposition =
                        (if filename \<noteq> [] then Some (contentDispositionAttachment (sdk_quote sdk) filename) else None)\<rparr>
                     (pg_Expires i) of
                Inl e \<Rightarrow> Inl (Wrapf ''storage: presign get: %w'' [] e)
              | Inr out \<Rightarrow>
                  Inr \<lparr>pq_Method = ''GET'', pq_URL = ps_URL out, pq_Headers = flattenHeader (ps_SignedHeader out),
                       pq_ExpiresAt = now + pg_Expires i\<rparr>))"

section \<open>What a valid key is\<close>

text \<open>Trimming removes bytes of white space only, none of which is a slash or a dot.\<close>

definition space_byte :: "char \<Rightarrow> bool" where
  "space_byte c \<longleftrightarrow> (\<exists>w \<in> set space_runes. c \<in> set w)"

lemma space_byte_other: "space_byte c \<Longrightarrow> c \<noteq> CHR ''/'' \<and> c \<noteq> CHR ''.''"
  unfolding space_byte_def space_runes_def by auto

lemma drop_runes_parts: "\<exists>w. s = w @ drop_runes ws s \<and> (\<forall>c \<in> set w. \<exists>r \<in> set ws. c \<in> set r)"
proof (induction ws s rule: drop_runes.induct)
  case (1 ws s)
  show ?case
  proof (cases "find (\<lambda>w. w \<noteq> [] \<and> has_prefix s w) ws")
    case None
    then show ?thesis by (intro exI [of _ "[]"]) (simp add: drop_runes.simps)
  next
    case (Some r)
    then have r: "r \<in> set ws" "has_prefix s r" by (auto simp: find_Some_iff)
    from 1 [OF Some] obtain w where w: "drop (length r) s = w @ drop_runes ws (drop (length r) s)"
      "\<forall>c \<in> set w. \<exists>r \<in> set ws. c \<in> set r" by blast
    have d: "drop_runes ws s = drop_runes ws (drop (length r) s)" using Some by (subst drop_runes.simps) simp
    have "s = r @ drop (length r) s" using r(2) by (auto simp: has_prefix_iff)
    then have "s = (r @ w) @ drop_runes ws s" using w(1) unfolding d by (metis append.assoc)
    then show ?thesis using r(1) w(2) by (intro exI [of _ "r @ w"]) auto
  qed
qed

lemma trim_space_parts: "\<exists>a b. s = a @ trim_space s @ b \<and> list_all space_byte a \<and> list_all space_byte b"
proof -
  obtain a where a: "s = a @ drop_runes space_runes s" "\<forall>c \<in> set a. \<exists>r \<in> set space_runes. c \<in> set r"
    using drop_runes_parts by blast
  obtain b where b: "rev (drop_runes space_runes s) = b @ drop_runes (map rev space_runes) (rev (drop_runes space_runes s))"
    "\<forall>c \<in> set b. \<exists>r \<in> set (map rev space_runes). c \<in> set r"
    using drop_runes_parts by blast
  have "drop_runes space_runes s = trim_space s @ rev b"
    using b(1) unfolding trim_space_def by (metis rev_append rev_rev_ident)
  then have "s = a @ trim_space s @ rev b" using a(1) by simp
  moreover have "list_all space_byte a" "list_all space_byte (rev b)"
    using a(2) b(2) by (auto simp: list_all_iff space_byte_def)
  ultimately show ?thesis by blast
qed

lemma split_on_prepend: "c \<notin> set a \<Longrightarrow> split_on c (a @ s) = (a @ hd (split_on c s)) # tl (split_on c s)"
  by (induction a) auto

lemma split_on_postpend:
  assumes "c \<notin> set b"
  shows "split_on c (s @ b) = butlast (split_on c s) @ [last (split_on c s) @ b]"
proof (induction s)
  case Nil
  then show ?case using assms by (simp add: split_on_single)
next
  case (Cons x s)
  obtain w ws where "split_on c s = w # ws" using split_on_ne [of c s] by (cases "split_on c s") auto
  with Cons show ?case by (cases ws) auto
qed

text \<open>A plain element stays plain when white space is put around it.\<close>

lemma plain_elem_around:
  assumes "plain_elem e" "list_all space_byte a" "list_all space_byte b"
  shows "plain_elem (a @ e @ b)"
proof (cases "a = [] \<and> b = []")
  case False
  then obtain c where "c \<in> set (a @ e @ b)" "space_byte c"
    using assms(2,3) by (cases a; cases b) auto
  then have "\<not> set (a @ e @ b) \<subseteq> {CHR ''.''}" using space_byte_other by blast
  then have "a @ e @ b \<noteq> ''.''" "a @ e @ b \<noteq> ''..''" by (metis empty_set list.set(2) order_refl, metis empty_set insert_absorb2 list.set(2) order_refl)
  moreover have "CHR ''/'' \<notin> set (a @ e @ b)"
    using assms space_byte_other by (auto simp: plain_elem_def list_all_iff)
  ultimately show ?thesis using assms(1) by (auto simp: plain_elem_def)
qed (use assms in simp)

lemma ValidateObjectKey_elems:
  assumes "ValidateObjectKey key = None"
  shows "list_all plain_elem (split_on (CHR ''/'') key)"
proof -
  let ?k = "trim_space key"
  have "each_check check_segment (split_on (CHR ''/'') ?k) = None"
    using assms by (auto simp: ValidateObjectKey_def Let_def split: if_splits)
  then have p: "list_all plain_elem (split_on (CHR ''/'') ?k)"
    using split_on_pieces [of _ "CHR ''/''" ?k]
    by (auto simp: check_simps list_all_iff check_segment_def plain_elem_def split: if_splits)
  obtain a b where ab: "key = a @ ?k @ b" "list_all space_byte a" "list_all space_byte b" using trim_space_parts by blast
  have sl: "CHR ''/'' \<notin> set a" "CHR ''/'' \<notin> set b"
    using ab(2,3) space_byte_other by (auto simp: list_all_iff)
  obtain w ws where w: "split_on (CHR ''/'') ?k = w # ws" using split_on_ne [of "CHR ''/''" ?k] by (cases "split_on (CHR ''/'') ?k") auto
  have s: "split_on (CHR ''/'') key = (let xs = butlast (w # ws) @ [last (w # ws) @ b] in (a @ hd xs) # tl xs)"
    unfolding Let_def by (subst ab(1)) (simp only: split_on_prepend [OF sl(1)] split_on_postpend [OF sl(2)] w)
  show ?thesis
  proof (cases ws rule: rev_cases)
    case Nil
    then show ?thesis using p plain_elem_around [OF _ ab(2,3), of w] by (simp add: s w Let_def)
  next
    case (snoc vs v)
    have "plain_elem (a @ w)" "plain_elem (v @ b)" "list_all plain_elem vs"
      using p plain_elem_around [OF _ ab(2), of w "[]"] plain_elem_around [OF _ _ ab(3), of v "[]"]
      by (auto simp: w snoc)
    then show ?thesis by (simp add: s snoc Let_def butlast_append)
  qed
qed

text \<open>A joined key consists of plain elements and lies under the prefix.\<close>

lemma JoinObjectKey_elems:
  assumes "JoinObjectKey prefix key = Inr k"
  shows "list_all plain_elem (split_on (CHR ''/'') k)"
    "k = (if trim_slashes prefix = [] then key else trim_slashes prefix @ ''/'' @ key)"
proof -
  let ?p = "trim_slashes prefix"
  have v: "ValidateObjectKey key = None" "?p \<noteq> [] \<Longrightarrow> ValidateObjectKey ?p = None"
    and k: "k = (if ?p = [] then key else ?p @ ''/'' @ key)"
    using assms by (auto simp: JoinObjectKey_def Let_def split: option.splits if_splits)
  show "k = (if ?p = [] then key else ?p @ ''/'' @ key)" by (rule k)
  show "list_all plain_elem (split_on (CHR ''/'') k)"
    using k ValidateObjectKey_elems v by (auto simp: split_on_join_append split: if_splits)
qed

section \<open>Where validation and canonical form fall short\<close>

text \<open>White space is trimmed before the check for control characters, and the key is used untrimmed.\<close>

lemma control_at_the_ends_accepted: "JoinObjectKey [] [CHR 0x0A, CHR ''k''] = Inr [CHR 0x0A, CHR ''k'']"
  by code_simp

text \<open>Names that differ in case only: the value kept depends on the order in which the map is visited.\<close>

lemma CanonicalMetadata_order:
  "CanonicalMetadata [(''Owner'', ''a''), (''owner'', ''b'')] = [(''owner'', ''b'')]"
  "CanonicalMetadata [(''owner'', ''b''), (''Owner'', ''a'')] = [(''owner'', ''a'')]"
  by code_simp+

end
