(* ===== verification/S3Client.thy ===== *)
theory S3Client
  imports ConfigSource Storage
begin

text \<open>
  The object store client (\<open>s3store/client.go\<close> and \<open>object.go\<close>). With static
  credentials it calls the AWS library, whose operations are parameters; with an IAM
  mode it sends HTTP requests that carry a subject token. An operation returns its
  result, the client (whose token resolver may have refreshed) and the requests it
  sent, each with the way the HTTP client treats redirects. XML and date parsing are
  parameters.
\<close>

section \<open>Environment\<close>

text \<open>Whether the HTTP client follows redirects or hands back the redirect response.\<close>

datatype redirects = FollowRedirects | UseLastResponse

type_synonym sent = "(redirects \<times> http_req) list"
type_synonym 'a s3_out = "'a res \<times> S3Client \<times> sent"

text \<open>An error of the library, with the HTTP status of the response it stems from, if any.\<close>

type_synonym 'a sdk_res = "(go_error \<times> int option) + 'a"

record sdk_page =
  lp_Contents :: "string option list"
  lp_IsTruncated :: "bool option"
  lp_NextContinuationToken :: "string option"

record sdk_object =
  so_Body :: "string res"
  so_ETag :: "string option"
  so_VersionId :: "string option"
  so_ContentLength :: "int option"
  so_ContentType :: "string option"
  so_LastModified :: "int option"

record s3_sdk =
  sdk_list :: "string \<Rightarrow> string \<Rightarrow> string option \<Rightarrow> sdk_page sdk_res"
  sdk_get :: "GetObjectInput \<Rightarrow> sdk_object sdk_res"
  sdk_put :: "PutObjectInput \<Rightarrow> (string option \<times> string option) sdk_res"
  sdk_delete :: "string \<Rightarrow> string \<Rightarrow> unit sdk_res"
  sdk_head :: "string \<Rightarrow> string \<Rightarrow> sdk_object sdk_res"
  sdk_signer :: "S3Config presign_sdk"

record s3ListBucketResult =
  lb_IsTruncated :: bool
  lb_NextContinuationToken :: string
  lb_Contents :: "string list"

record s3_env =
  se_iam :: iam_env
  se_now :: int
  se_do :: "redirects \<Rightarrow> network"
  se_sdk :: s3_sdk
  se_xml :: "string \<Rightarrow> s3ListBucketResult res"
  se_date :: "string \<Rightarrow> int res"
  se_length :: "http_resp \<Rightarrow> int"

record ObjectEntry =
  oe_TokenRef :: string
  oe_Body :: string
  oe_ETag :: string

definition to_text :: "string option \<Rightarrow> string" where
  "to_text v = (case v of None \<Rightarrow> [] | Some s \<Rightarrow> s)"

definition maxObjectSize :: nat where
  "maxObjectSize = 10485760"

text \<open>The entry for a body read up to one byte more than allowed.\<close>

definition object_entry :: "(go_error \<Rightarrow> go_error) \<Rightarrow> string \<Rightarrow> string \<Rightarrow> string res \<Rightarrow> string \<Rightarrow> ObjectEntry res" where
  "object_entry wread key tokenRef body etag =
     (case map_sum id (take (maxObjectSize + 1)) body of
        Inl e \<Rightarrow> Inl (wread e)
      | Inr b \<Rightarrow>
          (if length b > maxObjectSize
           then Inl (Errorf ''s3store: object %q exceeds max size (%d bytes)'' [ArgS key, ArgD (int maxObjectSize)])
           else Inr \<lparr>oe_TokenRef = tokenRef, oe_Body = b, oe_ETag = etag\<rparr>))"

section \<open>Static credentials\<close>

definition getObjectSDK :: "s3_env \<Rightarrow> S3Client \<Rightarrow> string \<Rightarrow> string \<Rightarrow> ObjectEntry s3_out" where
  "getObjectSDK env c key tokenRef =
     ((case sdk_get (se_sdk env) \<lparr>gi_Bucket = s3_Bucket (s3c_cfg c), gi_Key = key, gi_VersionId = None,
                                  gi_ResponseContentType = None, gi_ResponseContentDisposition = None\<rparr> of
         Inl (e, _) \<Rightarrow> Inl (Wrapf ''s3store: get object %q: %w'' [ArgS key] e)
       | Inr resp \<Rightarrow> object_entry (Wrapf ''s3store: read object %q: %w'' [ArgS key]) key tokenRef (so_Body resp) (to_text (so_ETag resp))),
      c, [])"

definition put_input :: "S3Client \<Rightarrow> string \<Rightarrow> string \<Rightarrow> string \<Rightarrow> PutObjectInput" where
  "put_input c key body contentType =
     \<lparr>pi_Bucket = s3_Bucket (s3c_cfg c), pi_Key = key, pi_Body = Some body, pi_ContentLength = None,
      pi_ContentType = contentType, pi_IfNoneMatch = None, pi_ChecksumSHA256 = None, pi_Metadata = []\<rparr>"

definition putObjectSDKWithOptions :: "s3_env \<Rightarrow> S3Client \<Rightarrow> string \<Rightarrow> string \<Rightarrow> string \<Rightarrow> string s3_out" where
  "putObjectSDKWithOptions env c key body contentType =
     ((case sdk_put (se_sdk env) (put_input c key body (default_str ''application/octet-stream'' contentType)) of
         Inl (e, _) \<Rightarrow> Inl (Wrapf ''s3store: put object %q: %w'' [ArgS key] e)
       | Inr (_, etag) \<Rightarrow> Inr (to_text etag)), c, [])"

definition deleteObjectSDK :: "s3_env \<Rightarrow> S3Client \<Rightarrow> string \<Rightarrow> unit s3_out" where
  "deleteObjectSDK env c key =
     ((case sdk_delete (se_sdk env) (s3_Bucket (s3c_cfg c)) key of
         Inl (e, _) \<Rightarrow> Inl (Wrapf ''s3store: delete object %q: %w'' [ArgS key] e)
       | Inr _ \<Rightarrow> Inr ()), c, [])"

text \<open>A page of the listing: its keys, and where to go on unless it is the last.\<close>

definition listPageSDK :: "s3_env \<Rightarrow> S3Client \<Rightarrow> string option \<Rightarrow> (string list \<times> string option option) s3_out" where
  "listPageSDK env c token =
     ((case sdk_list (se_sdk env) (s3_Bucket (s3c_cfg c)) (s3_Prefix (s3c_cfg c)) token of
         Inl (e, _) \<Rightarrow> Inl (Wrapf ''s3store: list objects: %w'' [] e)
       | Inr resp \<Rightarrow>
           Inr (List.map_filter id (lp_Contents resp),
                if lp_IsTruncated resp = Some True then Some (lp_NextContinuationToken resp) else None)), c, [])"

section \<open>Subject tokens\<close>

definition objectURL :: "S3Client \<Rightarrow> string \<Rightarrow> string res" where
  "objectURL c key =
     (case url_Parse (s3_Endpoint (s3c_cfg c)) of
        None \<Rightarrow> Inl (Wrapf ''s3store: parse endpoint %q: %w'' [ArgS (s3_Endpoint (s3c_cfg c))] (Errorf ''parse %q'' [ArgS (s3_Endpoint (s3c_cfg c))]))
      | Some base \<Rightarrow> Inr (url_String (base\<lparr>Path := path_Join [Path base, s3_Bucket (s3c_cfg c), key]\<rparr>)))"

definition bucketURL :: "S3Client \<Rightarrow> string res" where
  "bucketURL c =
     (case url_Parse (s3_Endpoint (s3c_cfg c)) of
        None \<Rightarrow> Inl (Wrapf ''s3store: parse endpoint %q: %w'' [ArgS (s3_Endpoint (s3c_cfg c))] (Errorf ''parse %q'' [ArgS (s3_Endpoint (s3c_cfg c))]))
      | Some base \<Rightarrow> Inr (url_String (base\<lparr>Path := path_Join [Path base, s3_Bucket (s3c_cfg c)]\<rparr>)))"

text \<open>How the three first steps of an operation report their errors.\<close>

record iam_errors =
  er_auth :: "go_error \<Rightarrow> go_error"
  er_build :: "go_error \<Rightarrow> go_error"
  er_http :: "go_error \<Rightarrow> go_error"

text \<open>
  What every operation starts with: a token, the address, the request with the token in
  its header, and the exchange.
\<close>

definition iam_send :: "s3_env \<Rightarrow> redirects \<Rightarrow> iam_errors \<Rightarrow> S3Client \<Rightarrow> IAMTokenResolver \<Rightarrow> string \<Rightarrow> string res \<Rightarrow> string option \<Rightarrow>
    (http_req \<Rightarrow> http_req) \<Rightarrow> http_resp s3_out" where
  "iam_send env mode er c r method u body dress =
     (case ResolveToken (se_iam env) (se_now env) r of
        (tok, r') \<Rightarrow>
          (let c' = c\<lparr>s3c_resolver := Some r'\<rparr>
           in case tok of
                Inl e \<Rightarrow> (Inl (er_auth er e), c', [])
              | Inr token \<Rightarrow>
                  (case u of
                     Inl e \<Rightarrow> (Inl e, c', [])
                   | Inr reqURL \<Rightarrow>
                       (case NewRequest method reqURL body of
                          Inl e \<Rightarrow> (Inl (er_build er e), c', [])
                        | Inr req0 \<Rightarrow>
                            (let req = dress (req0\<lparr>hq_Header := Header_Set ''X-YaCloud-SubjectToken'' token (hq_Header req0)\<rparr>)
                             in (case se_do env mode req of Inl e \<Rightarrow> Inl (er_http er e) | Inr resp \<Rightarrow> Inr resp, c', [(mode, req)]))))))"

definition then_out :: "'a s3_out \<Rightarrow> ('a \<Rightarrow> 'b res) \<Rightarrow> 'b s3_out" where
  "then_out x f = (case x of (v, c, s) \<Rightarrow> (res_bind v f, c, s))"

definition error_body :: "http_resp \<Rightarrow> string" where
  "error_body resp = (case hr_Body resp of Inl _ \<Rightarrow> [] | Inr b \<Rightarrow> take 2048 b)"

definition getObjectIAM :: "s3_env \<Rightarrow> S3Client \<Rightarrow> IAMTokenResolver \<Rightarrow> string \<Rightarrow> string \<Rightarrow> ObjectEntry s3_out" where
  "getObjectIAM env c r key tokenRef =
     then_out
       (iam_send env FollowRedirects
          \<lparr>er_auth = Wrapf ''s3store: auth: %w'' [], er_build = Wrapf ''s3store: build get request: %w'' [],
           er_http = Wrapf ''s3store: get %q HTTP: %w'' [ArgS key]\<rparr>
          c r ''GET'' (objectURL c key) None id)
       (\<lambda>resp.
          if hr_Status resp = 404 then Inl (Errorf ''s3store: object %q not found'' [ArgS key])
          else if hr_Status resp \<noteq> 200
          then Inl (Errorf ''s3store: get %q: HTTP %d: %s'' [ArgS key, ArgD (hr_Status resp), ArgS (error_body resp)])
          else object_entry (Wrapf ''s3store: read %q: %w'' [ArgS key]) key tokenRef (hr_Body resp) (Header_Get (hr_Header resp) ''ETag''))"

definition putObjectIAMWithOptions :: "s3_env \<Rightarrow> S3Client \<Rightarrow> IAMTokenResolver \<Rightarrow> string \<Rightarrow> string \<Rightarrow> string \<Rightarrow> string s3_out" where
  "putObjectIAMWithOptions env c r key body contentType0 =
     (let contentType = default_str ''application/octet-stream'' contentType0
      in then_out
           (iam_send env FollowRedirects
              \<lparr>er_auth = Wrapf ''s3store: auth: %w'' [], er_build = Wrapf ''s3store: build put request: %w'' [],
               er_http = Wrapf ''s3store: put %q HTTP: %w'' [ArgS key]\<rparr>
              c r ''PUT'' (objectURL c key) (Some body)
              (\<lambda>req. req\<lparr>hq_Header := Header_Set ''Content-Type'' contentType (hq_Header req)\<rparr>))
           (\<lambda>resp.
              if hr_Status resp \<noteq> 200 \<and> hr_Status resp \<noteq> 201
              then Inl (Errorf ''s3store: put %q: HTTP %d: %s'' [ArgS key, ArgD (hr_Status resp), ArgS (error_body resp)])
              else Inr (Header_Get (hr_Header resp) ''ETag'')))"

definition deleteObjectIAM :: "s3_env \<Rightarrow> S3Client \<Rightarrow> IAMTokenResolver \<Rightarrow> string \<Rightarrow> unit s3_out" where
  "deleteObjectIAM env c r key =
     then_out
       (iam_send env FollowRedirects
          \<lparr>er_auth = Wrapf ''s3store: auth: %w'' [], er_build = Wrapf ''s3store: build delete request: %w'' [],
           er_http = Wrapf ''s3store: delete %q HTTP: %w'' [ArgS key]\<rparr>
          c r ''DELETE'' (objectURL c key) None id)
       (\<lambda>resp.
          if hr_Status resp \<noteq> 204 \<and> hr_Status resp \<noteq> 200
          then Inl (Errorf ''s3store: delete %q: HTTP %d: %s'' [ArgS key, ArgD (hr_Status resp), ArgS (error_body resp)])
          else Inr ())"

definition listPageIAM :: "s3_env \<Rightarrow> S3Client \<Rightarrow> IAMTokenResolver \<Rightarrow> string \<Rightarrow> (string list \<times> string option) s3_out" where
  "listPageIAM env c r token =
     (let params = (if token \<noteq> [] then [(''continuation-token'', token)] else []) @
                   [(''list-type'', ''2''), (''prefix'', s3_Prefix (s3c_cfg c))]
      in then_out
           (iam_send env FollowRedirects
              \<lparr>er_auth = Wrapf ''s3store: auth: %w'' [], er_build = Wrapf ''s3store: build list request: %w'' [],
               er_http = Wrapf ''s3store: list HTTP: %w'' []\<rparr>
              c r ''GET'' (map_sum id (\<lambda>b. b @ ''?'' @ Values_Encode params) (bucketURL c)) None id)
           (\<lambda>resp.
              if hr_Status resp \<noteq> 200
              then Inl (Errorf ''s3store: list: HTTP %d: %s'' [ArgD (hr_Status resp), ArgS (error_body resp)])
              else case res_bind (hr_Body resp) (se_xml env) of
                     Inl e \<Rightarrow> Inl (Wrapf ''s3store: decode list response: %w'' [] e)
                   | Inr result \<Rightarrow>
                       (let nextToken = (if lb_IsTruncated result then lb_NextContinuationToken result else [])
                        in Inr (lb_Contents result, if nextToken = [] then None else Some nextToken))))"

section \<open>Listing\<close>

text \<open>Fetch the objects of a page; the key that is the prefix itself is skipped.\<close>

fun fetch_page :: "(S3Client \<Rightarrow> string \<Rightarrow> string \<Rightarrow> ObjectEntry s3_out) \<Rightarrow> S3Client \<Rightarrow> string list \<Rightarrow> ObjectEntry list s3_out" where
  "fetch_page get c [] = (Inr [], c, [])"
| "fetch_page get c (key # keys) =
     (let tokenRef = TrimPrefix key (s3_Prefix (s3c_cfg c))
      in if tokenRef = [] then fetch_page get c keys
         else case get c key tokenRef of
                (Inl e, c', s) \<Rightarrow> (Inl (Wrapf ''s3store: fetch object %q: %w'' [ArgS key] e), c', s)
              | (Inr x, c', s) \<Rightarrow>
                  (case fetch_page get c' keys of
                     (Inl e, c'', s') \<Rightarrow> (Inl e, c'', s @ s')
                   | (Inr xs, c'', s') \<Rightarrow> (Inr (x # xs), c'', s @ s')))"

text \<open>The loop over pages, with a bound on their number; \<open>None\<close> is a loop that goes on.\<close>

fun list_loop :: "nat \<Rightarrow> (S3Client \<Rightarrow> 't \<Rightarrow> (string list \<times> 't option) s3_out) \<Rightarrow>
    (S3Client \<Rightarrow> string \<Rightarrow> string \<Rightarrow> ObjectEntry s3_out) \<Rightarrow> S3Client \<Rightarrow> 't \<Rightarrow> ObjectEntry list s3_out option" where
  "list_loop 0 page get c token = None"
| "list_loop (Suc n) page get c token =
     (case page c token of
        (Inl e, c1, s1) \<Rightarrow> Some (Inl e, c1, s1)
      | (Inr (keys, next), c1, s1) \<Rightarrow>
          (case fetch_page get c1 keys of
             (Inl e, c2, s2) \<Rightarrow> Some (Inl e, c2, s1 @ s2)
           | (Inr xs, c2, s2) \<Rightarrow>
               (case next of
                  None \<Rightarrow> Some (Inr xs, c2, s1 @ s2)
                | Some t \<Rightarrow>
                    map_option (\<lambda>(r, c3, s3). (map_sum id (\<lambda>ys. xs @ ys) r, c3, s1 @ s2 @ s3))
                      (list_loop n page get c2 t))))"

definition with_resolver :: "S3Client \<Rightarrow> (IAMTokenResolver \<Rightarrow> 'a) \<Rightarrow> 'a \<Rightarrow> 'a" where
  "with_resolver c iam sdk = (case s3c_resolver c of Some r \<Rightarrow> iam r | None \<Rightarrow> sdk)"

definition get_current :: "s3_env \<Rightarrow> S3Client \<Rightarrow> string \<Rightarrow> string \<Rightarrow> ObjectEntry s3_out" where
  "get_current env c key tokenRef =
     with_resolver c (\<lambda>r. getObjectIAM env c r key tokenRef) (getObjectSDK env c key tokenRef)"

definition ListObjects :: "nat \<Rightarrow> s3_env \<Rightarrow> S3Client \<Rightarrow> ObjectEntry list s3_out option" where
  "ListObjects fuel env c =
     with_resolver c
       (\<lambda>_. list_loop fuel (\<lambda>c t. with_resolver c (\<lambda>r. listPageIAM env c r t) (Inr ([], None), c, [])) (get_current env) c [])
       (list_loop fuel (listPageSDK env) (getObjectSDK env) c None)"

section \<open>The operations\<close>

definition GetObject :: "s3_env \<Rightarrow> S3Client \<Rightarrow> string \<Rightarrow> ObjectEntry s3_out" where
  "GetObject env c tokenRef = get_current env c (s3_Prefix (s3c_cfg c) @ tokenRef) tokenRef"

definition PutObjectWithOptions :: "s3_env \<Rightarrow> S3Client \<Rightarrow> string \<Rightarrow> string \<Rightarrow> string \<Rightarrow> string s3_out" where
  "PutObjectWithOptions env c tokenRef body contentType =
     (let key = s3_Prefix (s3c_cfg c) @ tokenRef
      in with_resolver c (\<lambda>r. putObjectIAMWithOptions env c r key body contentType) (putObjectSDKWithOptions env c key body contentType))"

definition PutObject :: "s3_env \<Rightarrow> S3Client \<Rightarrow> string \<Rightarrow> string \<Rightarrow> string s3_out" where
  "PutObject env c tokenRef body = PutObjectWithOptions env c tokenRef body ''application/json''"

definition DeleteObject :: "s3_env \<Rightarrow> S3Client \<Rightarrow> string \<Rightarrow> unit s3_out" where
  "DeleteObject env c tokenRef =
     (let key = s3_Prefix (s3c_cfg c) @ tokenRef
      in with_resolver c (\<lambda>r. deleteObjectIAM env c r key) (deleteObjectSDK env c key))"

section \<open>Addresses\<close>

text \<open>
  An endpoint as it is usually written: scheme and host, perhaps a path of plain
  elements, and a bucket that is one path element.
\<close>

definition elems_path :: "string list \<Rightarrow> string" where
  "elems_path es = concat (map ((#) (CHR ''/'')) es)"

definition plain_endpoint :: "S3Client \<Rightarrow> url \<Rightarrow> string list \<Rightarrow> bool" where
  "plain_endpoint c u bs \<longleftrightarrow>
     url_Parse (s3_Endpoint (s3c_cfg c)) = Some u \<and> Scheme u \<noteq> [] \<and> Host u \<noteq> [] \<and> list_all host_plain (Host u) \<and>
     Opaque u = [] \<and> User u = None \<and> RawQuery u = [] \<and> Fragment u = [] \<and>
     Path u = elems_path bs \<and> list_all plain_elem bs \<and> plain_elem (s3_Bucket (s3c_cfg c))"

lemma elems_path_join: "es \<noteq> [] \<Longrightarrow> elems_path es = CHR ''/'' # join_with ''/'' es"
  unfolding elems_path_def by (induction es rule: list_nonempty_induct) (auto simp: join_with_Cons)

lemma path_Join_plain:
  assumes "list_all plain_elem bs" "plain_elem bucket" "list_all plain_elem (split_on (CHR ''/'') key)"
  shows "path_Join [elems_path bs, bucket, key] =
    (if bs = [] then join_with ''/'' (bucket # split_on (CHR ''/'') key)
     else elems_path (bs @ bucket # split_on (CHR ''/'') key))"
proof -
  let ?ks = "split_on (CHR ''/'') key"
  have k: "join_with ''/'' (bucket # ?ks) = bucket @ ''/'' @ key"
    by (simp add: join_with_Cons join_split)
  have b: "bucket \<noteq> []" using assms(2) by (simp add: plain_elem_def)
  show ?thesis
  proof (cases "bs = []")
    case True
    have "path_Join [elems_path bs, bucket, key] = path_Clean (join_with ''/'' (bucket # ?ks))"
      unfolding k using True b by (simp add: path_Join_def elems_path_def)
    then show ?thesis using True assms(2,3) path_Clean_plain(1) [of "bucket # ?ks"] by simp
  next
    case False
    have e: "elems_path bs @ ''/'' @ bucket @ ''/'' @ key = elems_path (bs @ bucket # ?ks)"
      using False k by (simp add: elems_path_join join_with_append)
    have "path_Join [elems_path bs, bucket, key] = path_Clean (elems_path (bs @ bucket # ?ks))"
      unfolding e [symmetric] using False by (simp add: path_Join_def elems_path_join)
    then show ?thesis
      using False assms path_Clean_plain(2) [of "bs @ bucket # ?ks"] by (simp add: elems_path_join)
  qed
qed

text \<open>The address of a key of plain elements: below the bucket, element for element.\<close>

lemma objectURL_plain:
  assumes "plain_endpoint c u bs" "list_all plain_elem (split_on (CHR ''/'') key)"
  shows "objectURL c key =
    Inr (Scheme u @ ''://'' @ Host u @ escape_with path_plain (elems_path (bs @ [s3_Bucket (s3c_cfg c)]) @ ''/'' @ key))"
proof -
  let ?bk = "s3_Bucket (s3c_cfg c)" and ?ks = "split_on (CHR ''/'') key"
  have pe: "list_all plain_elem bs" "plain_elem ?bk" "Path u = elems_path bs"
    and u: "url_Parse (s3_Endpoint (s3c_cfg c)) = Some u" "Scheme u \<noteq> []" "Host u \<noteq> []" "Opaque u = []" "User u = None"
      "RawQuery u = []" "Fragment u = []" "escape_with host_plain (Host u) = Host u"
    using assms(1) by (auto simp: plain_endpoint_def escape_with_plain)
  let ?p = "path_Join [Path u, ?bk, key]"
  have p: "?p = (if bs = [] then join_with ''/'' (?bk # ?ks) else elems_path (bs @ ?bk # ?ks))"
    using path_Join_plain [OF pe(1,2) assms(2)] pe(3) by simp
  have full: "elems_path (bs @ ?bk # ?ks) = elems_path (bs @ [?bk]) @ ''/'' @ key"
    using join_with_append [of "bs @ [?bk]" ?ks "''/''"] by (simp add: elems_path_join join_split)
  have ps: "path_plain (CHR ''/'')" by (simp add: path_plain_def)
  have sl: "escape_with path_plain (CHR ''/'' # t) = CHR ''/'' # escape_with path_plain t" for t by (rule escape_path_slash)
  have "(if escape_with path_plain ?p \<noteq> [] \<and> \<not> has_prefix (escape_with path_plain ?p) ''/'' then ''/'' else []) @ escape_with path_plain ?p =
      escape_with path_plain (elems_path (bs @ ?bk # ?ks))"
  proof (cases "bs = []")
    case True
    obtain b bk where b: "?bk = b # bk" "b \<noteq> CHR ''/''" using pe(2) by (cases ?bk) (auto simp: plain_elem_def)
    have "join_with ''/'' (?bk # ?ks) = b # bk @ ''/'' @ key" by (simp add: join_with_Cons join_split b)
    then have "\<not> has_prefix (escape_with path_plain (join_with ''/'' (?bk # ?ks))) ''/''" "escape_with path_plain (join_with ''/'' (?bk # ?ks)) \<noteq> []"
      using b(2) by (auto simp: has_prefix_def)
    then show ?thesis using True by (simp add: p elems_path_join sl ps)
  next
    case False
    then show ?thesis by (simp add: p elems_path_join sl ps has_prefix_def)
  qed
  moreover have "?p \<noteq> ''*''"
  proof (cases "bs = []")
    case True
    have "CHR ''/'' \<in> set ?p" using True by (simp add: p join_with_Cons)
    then show ?thesis by auto
  qed (simp add: p elems_path_join)
  ultimately show ?thesis
    using u by (simp add: objectURL_def url_String_def full)
qed

text \<open>What an exchange sends: at most one request, to the address given.\<close>

lemma iam_send_sent:
  assumes "(m, req) \<in> set (snd (snd (iam_send env mode er c r method u body dress)))" "\<And>q. hq_URL (dress q) = hq_URL q"
  shows "m = mode \<and> u = Inr (hq_URL req)"
  using assms by (auto simp: iam_send_def NewRequest_def Let_def split: prod.splits sum.splits option.splits)

lemma then_out_sent [simp]: "snd (snd (then_out x f)) = snd (snd x)"
  by (simp add: then_out_def split: prod.splits)

section \<open>Sizes and listings\<close>

lemma object_entry_facts:
  "object_entry w key ref body etag = Inr x \<Longrightarrow> oe_TokenRef x = ref \<and> oe_ETag x = etag \<and> body = Inr (oe_Body x) \<and> length (oe_Body x) \<le> maxObjectSize"
  by (cases body) (auto simp: object_entry_def split: if_splits)

text \<open>An object that is returned is whole, and not larger than the limit.\<close>

lemma GetObject_bounded: "fst (GetObject env c ref) = Inr x \<Longrightarrow> oe_TokenRef x = ref \<and> length (oe_Body x) \<le> maxObjectSize"
  by (auto simp: GetObject_def get_current_def with_resolver_def getObjectIAM_def getObjectSDK_def then_out_def
      dest!: object_entry_facts object_entry_facts [OF sym] split: option.splits prod.splits sum.splits if_splits elim!: res_bind.elims)

text \<open>A page of objects that are all there: one entry for each key but the prefix itself.\<close>

lemma fetch_page_all:
  assumes "\<And>k. k \<in> set keys \<Longrightarrow> TrimPrefix k (s3_Prefix (s3c_cfg c)) \<noteq> [] \<Longrightarrow> get c k (TrimPrefix k (s3_Prefix (s3c_cfg c))) = (Inr (f k), c, [])"
  shows "fetch_page get c keys = (Inr (map f (filter (\<lambda>k. TrimPrefix k (s3_Prefix (s3c_cfg c)) \<noteq> []) keys)), c, [])"
  using assms by (induction keys) (simp_all add: Let_def)

text \<open>Following the pages to the end: from the page with number \<open>i\<close>, as many rounds as pages are left.\<close>

lemma list_loop_all:
  assumes "i < n" "\<And>j. j < n \<Longrightarrow> page c (tok j) = (Inr (ks j, if Suc j < n then Some (tok (Suc j)) else None), c, [])"
    and "\<And>j. j < n \<Longrightarrow> fetch_page get c (ks j) = (Inr (xs j), c, [])"
  shows "list_loop (n - i) page get c (tok i) = Some (Inr (concat (map xs [i..<n])), c, [])"
  using assms(1)
proof (induction "n - i" arbitrary: i)
  case (Suc m)
  then have m: "n - i = Suc m" "[i..<n] = i # [Suc i..<n]" by (simp_all add: upt_conv_Cons)
  have mm: "m = n - Suc i" using m(1) by simp
  show ?case
  proof (cases "Suc i < n")
    case True
    then have "list_loop m page get c (tok (Suc i)) = Some (Inr (concat (map xs [Suc i..<n])), c, [])"
      using Suc.hyps(1) [of "Suc i"] mm by simp
    then show ?thesis using assms(2,3) [OF Suc.prems] True by (simp add: m)
  next
    case False
    then show ?thesis using assms(2,3) [OF Suc.prems] Suc.prems by (simp add: m)
  qed
qed simp

text \<open>
  C28: With static credentials, listing a store whose \<open>n\<close> pages are chained by their
  continuation tokens, and whose objects can be read and are not too large, ends after
  \<open>n\<close> rounds and returns every object once, in order, with the prefix cut off its name and
  the key that is the prefix itself left out.
\<close>

theorem ListObjects_complete:
  fixes env c ks tok obj n
  defines "prefix \<equiv> s3_Prefix (s3c_cfg c)" and "bucket \<equiv> s3_Bucket (s3c_cfg c)"
  assumes "s3c_resolver c = None" "0 < n" "tok 0 = None"
    and "\<And>i. i < n \<Longrightarrow> sdk_list (se_sdk env) bucket prefix (tok i) =
      Inr \<lparr>lp_Contents = map Some (ks i), lp_IsTruncated = Some (Suc i < n), lp_NextContinuationToken = tok (Suc i)\<rparr>"
    and "\<And>k. sdk_get (se_sdk env) \<lparr>gi_Bucket = bucket, gi_Key = k, gi_VersionId = None, gi_ResponseContentType = None,
      gi_ResponseContentDisposition = None\<rparr> = Inr (obj k)"
    and "\<And>i k. i < n \<Longrightarrow> k \<in> set (ks i) \<Longrightarrow> \<exists>b. so_Body (obj k) = Inr b \<and> length b \<le> 10485760"
  shows "ListObjects n env c =
    Some (Inr (map (\<lambda>k. \<lparr>oe_TokenRef = TrimPrefix k prefix, oe_Body = projr (so_Body (obj k)), oe_ETag = to_text (so_ETag (obj k))\<rparr>)
                 (filter (\<lambda>k. TrimPrefix k prefix \<noteq> []) (concat (map ks [0..<n])))), c, [])"
proof -
  let ?f = "\<lambda>k. \<lparr>oe_TokenRef = TrimPrefix k prefix, oe_Body = projr (so_Body (obj k)), oe_ETag = to_text (so_ETag (obj k))\<rparr>"
  let ?xs = "\<lambda>i. map ?f (filter (\<lambda>k. TrimPrefix k prefix \<noteq> []) (ks i))"
  have page: "listPageSDK env c (tok j) = (Inr (ks j, if Suc j < n then Some (tok (Suc j)) else None), c, [])" if "j < n" for j
    using assms(6) [OF that] by (simp add: listPageSDK_def prefix_def bucket_def map_filter_def comp_def)
  have "getObjectSDK env c k (TrimPrefix k prefix) = (Inr (?f k), c, [])" if "j < n" "k \<in> set (ks j)" for j k
    using assms(8) [OF that] assms(7) [of k] by (auto simp: getObjectSDK_def bucket_def object_entry_def maxObjectSize_def)
  then have fetch: "fetch_page (getObjectSDK env) c (ks j) = (Inr (?xs j), c, [])" if "j < n" for j
    using that fetch_page_all [of "ks j" c "getObjectSDK env" ?f] unfolding prefix_def by blast
  have "ListObjects n env c = Some (Inr (concat (map ?xs [0..<n])), c, [])"
    using list_loop_all [of 0 n "listPageSDK env" c tok ks "getObjectSDK env" ?xs, OF assms(4) page fetch] assms(3,5) by (simp add: ListObjects_def with_resolver_def)
  moreover have "concat (map ?xs is) = map ?f (filter (\<lambda>k. TrimPrefix k prefix \<noteq> []) (concat (map ks is)))" for "is"
    by (induction "is") auto
  ultimately show ?thesis by simp
qed

definition demo_s3_client :: S3Client where
  "demo_s3_client = \<lparr>s3c_cfg = \<lparr>s3_Bucket = ''mine'', s3_Endpoint = ''https://storage.test'', s3_Region = ''r'', s3_Prefix = ''tokens/'',
     s3_Auth = \<lparr>ya_AuthMode = ''static'', ya_IAMToken = NewSecret [], ya_OAuthToken = NewSecret [], ya_SAKeyFile = [],
       ya_AccessKeyID = NewSecret ''a'', ya_SecretAccessKey = NewSecret ''s''\<rparr>\<rparr>, s3c_resolver = None\<rparr>"

definition demo_object :: "string \<Rightarrow> sdk_object" where
  "demo_object k = \<lparr>so_Body = Inr k, so_ETag = Some ''e'', so_VersionId = None, so_ContentLength = None, so_ContentType = None, so_LastModified = None\<rparr>"

definition demo_tok :: "nat \<Rightarrow> string option" where
  "demo_tok i = (if i = 0 then None else Some ''t'')"

definition demo_keys :: "nat \<Rightarrow> string list" where
  "demo_keys i = (if i = 0 then [''tokens/'', ''tokens/a''] else [''tokens/b''])"

definition demo_page :: "nat \<Rightarrow> sdk_page" where
  "demo_page i = \<lparr>lp_Contents = map Some (demo_keys i), lp_IsTruncated = Some (Suc i < 2), lp_NextContinuationToken = demo_tok (Suc i)\<rparr>"

definition demo_s3_env :: s3_env where
  "demo_s3_env =
     \<lparr>se_iam = demo_metadata_env, se_now = 0, se_do = \<lambda>_ _. Inl (New ''down''),
      se_sdk = \<lparr>sdk_list = \<lambda>_ _ t. Inr (demo_page (case t of None \<Rightarrow> 0 | Some _ \<Rightarrow> 1)), sdk_get = \<lambda>i. Inr (demo_object (gi_Key i)),
        sdk_put = \<lambda>_. Inr (None, None), sdk_delete = \<lambda>_ _. Inr (), sdk_head = \<lambda>_ k. Inr (demo_object k),
        sdk_signer = \<lparr>sdk_presign_put = \<lambda>_ _ _. Inl (New ''unsigned''), sdk_presign_get = \<lambda>_ _ _. Inl (New ''unsigned''), sdk_quote = id\<rparr>\<rparr>,
      se_xml = \<lambda>_. Inl (New ''xml''), se_date = \<lambda>_. Inl (New ''date''), se_length = \<lambda>_. -1\<rparr>"

lemma demo_listing:
  "i < 2 \<Longrightarrow> sdk_list (se_sdk demo_s3_env) b p (demo_tok i) =
     Inr \<lparr>lp_Contents = map Some (demo_keys i), lp_IsTruncated = Some (Suc i < 2), lp_NextContinuationToken = demo_tok (Suc i)\<rparr>"
  by (cases i) (auto simp: demo_s3_env_def demo_tok_def demo_page_def less_2_cases_iff)

theorem ListObjects_complete_witness:
  "ListObjects 2 demo_s3_env demo_s3_client =
    Some (Inr [\<lparr>oe_TokenRef = ''a'', oe_Body = ''tokens/a'', oe_ETag = ''e''\<rparr>, \<lparr>oe_TokenRef = ''b'', oe_Body = ''tokens/b'', oe_ETag = ''e''\<rparr>], demo_s3_client, [])"
proof -
  have "\<exists>b. so_Body (demo_object k) = Inr b \<and> length b \<le> 10485760" if "i < 2" "k \<in> set (demo_keys i)" for i k
    using that by (auto simp: demo_object_def demo_keys_def split: if_splits)
  then have "ListObjects 2 demo_s3_env demo_s3_client = Some (Inr (map (\<lambda>k. \<lparr>oe_TokenRef = TrimPrefix k ''tokens/'', oe_Body = projr (so_Body (demo_object k)),
      oe_ETag = to_text (so_ETag (demo_object k))\<rparr>) (filter (\<lambda>k. TrimPrefix k ''tokens/'' \<noteq> []) (concat (map demo_keys [0..<2])))), demo_s3_client, [])"
    using ListObjects_complete [of demo_s3_client 2 demo_tok demo_s3_env demo_keys demo_object, OF _ _ _ demo_listing]
    by (simp add: demo_s3_client_def demo_tok_def) (simp add: demo_s3_env_def)
  then show ?thesis by (simp add: demo_keys_def demo_object_def to_text_def TrimPrefix_def has_prefix_def numeral_2_eq_2)
qed

text \<open>
  A page that claims to be truncated but names no continuation starts the listing over:
  with static credentials the loop then never ends. The other loop stops there.
\<close>

lemma listing_restarts:
  assumes "s3c_resolver c = None" "sdk_list (se_sdk env) (s3_Bucket (s3c_cfg c)) (s3_Prefix (s3c_cfg c)) None =
    Inr \<lparr>lp_Contents = [], lp_IsTruncated = Some True, lp_NextContinuationToken = None\<rparr>"
  shows "ListObjects fuel env c = None"
proof -
  have "listPageSDK env c None = (Inr ([], Some None), c, [])"
    using assms(2) by (simp add: listPageSDK_def map_filter_def)
  then have "list_loop fuel (listPageSDK env) (getObjectSDK env) c None = None"
    by (induction fuel) simp_all
  then show ?thesis using assms(1) by (simp add: ListObjects_def with_resolver_def)
qed

section \<open>The store as a configuration source\<close>

text \<open>
  The configuration sources of \<open>ConfigSource\<close> take object transfer as a parameter; this is
  the parameter filled in with the client's own operation.
\<close>

definition store_get :: "s3_env \<Rightarrow> S3Client \<Rightarrow> string \<Rightarrow> (string \<times> string) res" where
  "store_get env c key = map_sum id (\<lambda>x. (oe_Body x, oe_ETag x)) (fst (get_current env c key key))"

lemma object_entry_ref:
  "map_sum id (\<lambda>x. (oe_Body x, oe_ETag x)) (object_entry w key ref body etag) = map_sum id (\<lambda>x. (oe_Body x, oe_ETag x)) (object_entry w key ref' body etag)"
  by (cases body) (auto simp: object_entry_def)

lemma store_get_ref: "store_get env c key = map_sum id (\<lambda>x. (oe_Body x, oe_ETag x)) (fst (get_current env c key ref))"
proof (cases "s3c_resolver c")
  case None
  then show ?thesis
    by (auto simp: store_get_def get_current_def with_resolver_def getObjectSDK_def object_entry_ref [of _ key key _ _ ref] split: sum.splits)
next
  case (Some r)
  have "map_sum id (\<lambda>x. (oe_Body x, oe_ETag x)) (fst (then_out x f)) = map_sum id (\<lambda>x. (oe_Body x, oe_ETag x)) (fst (then_out x g))"
    if "\<And>v. map_sum id (\<lambda>x. (oe_Body x, oe_ETag x)) (f v) = map_sum id (\<lambda>x. (oe_Body x, oe_ETag x)) (g v)" for x f g
    using that by (cases x; cases "fst x") (auto simp: then_out_def)
  note same = this
  show ?thesis
    unfolding store_get_def get_current_def with_resolver_def getObjectIAM_def Some option.case
    by (rule same) (simp add: object_entry_ref [of _ key key _ _ ref])
qed

text \<open>A configuration fetched from the store is an object of the store, whole and of bounded size.\<close>

lemma S3_Fetch_from_store:
  assumes "S3_Fetch (w\<lparr>wd_s3 := store_get env\<rparr>) src = Inr fc"
  shows "\<exists>x. fst (GetObject env (s3s_client src) (s3s_key src)) = Inr x \<and> fc_Data fc = Some (oe_Body x) \<and> fc_ETag fc = oe_ETag x \<and>
    length (oe_Body x) \<le> maxObjectSize"
proof -
  let ?c = "s3s_client src"
  have "store_get env ?c (s3_Prefix (s3c_cfg ?c) @ s3s_key src) = map_sum id (\<lambda>x. (oe_Body x, oe_ETag x)) (fst (GetObject env ?c (s3s_key src)))"
    unfolding GetObject_def by (rule store_get_ref)
  then show ?thesis using assms GetObject_bounded [of env ?c "s3s_key src"]
    by (cases "fst (GetObject env ?c (s3s_key src))") (auto simp: S3_Fetch_def)
qed

end
