(* ===== verification/S3Stream.thy ===== *)
theory S3Stream
  imports S3Client "HOL-Library.List_Lexorder" "HOL-Library.Char_ord"
begin

text \<open>
  The rest of the object store client: metadata and presigned requests
  (\<open>s3store/object.go\<close>) and bounded streams (\<open>stream.go\<close>). The reader of a body is a
  parameter with a contract; the bounded reader is shown to keep it.
\<close>

section \<open>Metadata (\<open>object.go\<close>)\<close>

definition ErrObjectNotFound :: go_error where
  "ErrObjectNotFound = New ''s3store: object not found''"

definition ErrSigningUnsupported :: go_error where
  "ErrSigningUnsupported = New ''s3store: signing unsupported''"

definition statObjectSDK :: "s3_env \<Rightarrow> S3Client \<Rightarrow> string \<Rightarrow> string \<Rightarrow> ObjectRef s3_out" where
  "statObjectSDK env c key tokenRef =
     ((case sdk_head (se_sdk env) (s3_Bucket (s3c_cfg c)) key of
         Inl (e, status) \<Rightarrow>
           (if status = Some 404 then Inl (Wrapf ''s3store: object %q: %w'' [ArgS key] ErrObjectNotFound)
            else Inl (Wrapf ''s3store: stat object %q: %w'' [ArgS key] e))
       | Inr resp \<Rightarrow>
           Inr (empty_ref\<lparr>or_Bucket := s3_Bucket (s3c_cfg c), or_Key := tokenRef, or_ETag := to_text (so_ETag resp),
                          or_VersionID := to_text (so_VersionId resp),
                          or_Size := (case so_ContentLength resp of None \<Rightarrow> 0 | Some n \<Rightarrow> n),
                          or_ContentType := to_text (so_ContentType resp), or_LastModified := so_LastModified resp\<rparr>)), c, [])"

definition statObjectIAM :: "s3_env \<Rightarrow> S3Client \<Rightarrow> IAMTokenResolver \<Rightarrow> string \<Rightarrow> string \<Rightarrow> ObjectRef s3_out" where
  "statObjectIAM env c r key tokenRef =
     then_out
       (iam_send env UseLastResponse
          \<lparr>er_auth = Wrapf ''s3store: auth: %w'' [], er_build = Wrapf ''s3store: build head request: %w'' [],
           er_http = Wrapf ''s3store: head %q HTTP: %w'' [ArgS key]\<rparr>
          c r ''HEAD'' (objectURL c key) None id)
       (\<lambda>resp.
          let h = Header_Get (hr_Header resp);
              size = (if h ''Content-Length'' = [] then Inr 0
                      else case atoi (h ''Content-Length'') of
                             (n, None) \<Rightarrow> Inr n
                           | (_, Some _) \<Rightarrow> Inl (Errorf ''s3store: parse content-length for %q: %w'' [ArgS key]));
              modified = (if h ''Last-Modified'' = [] then Inr None
                          else case se_date env (h ''Last-Modified'') of
                                 Inr t \<Rightarrow> Inr (Some t)
                               | Inl e \<Rightarrow> Inl (Wrapf ''s3store: parse last-modified for %q: %w'' [ArgS key] e))
          in if hr_Status resp = 404 then Inl (Wrapf ''s3store: object %q: %w'' [ArgS key] ErrObjectNotFound)
             else if hr_Status resp \<noteq> 200
             then Inl (Errorf ''s3store: head %q: HTTP %d: %s'' [ArgS key, ArgD (hr_Status resp), ArgS (error_body resp)])
             else res_bind size (\<lambda>n. res_bind modified (\<lambda>t.
                    Inr (empty_ref\<lparr>or_Bucket := s3_Bucket (s3c_cfg c), or_Key := tokenRef, or_ETag := h ''ETag'',
                                   or_VersionID := h ''x-amz-version-id'', or_Size := n, or_ContentType := h ''Content-Type'',
                                   or_LastModified := t\<rparr>))))"

definition stat_current :: "s3_env \<Rightarrow> S3Client \<Rightarrow> string \<Rightarrow> string \<Rightarrow> ObjectRef s3_out" where
  "stat_current env c key tokenRef =
     with_resolver c (\<lambda>r. statObjectIAM env c r key tokenRef) (statObjectSDK env c key tokenRef)"

definition StatObject :: "s3_env \<Rightarrow> S3Client \<Rightarrow> string \<Rightarrow> ObjectRef s3_out" where
  "StatObject env c tokenRef = stat_current env c (s3_Prefix (s3c_cfg c) @ tokenRef) tokenRef"

section \<open>Presigned requests (\<open>object.go\<close>)\<close>

definition defaultContentType :: "string \<Rightarrow> string" where
  "defaultContentType v = (if trim_space v = [] then ''application/octet-stream'' else trim_space v)"

definition signedHeaders :: "header \<Rightarrow> string \<rightharpoonup> string" where
  "signedHeaders h = (\<lambda>k. case h k of Some (v # vs) \<Rightarrow> Some (join_with '','' (v # vs)) | _ \<Rightarrow> None)"

record PresignPutOptions =
  po_ExpiresIn :: int
  po_ContentType :: string
  po_ChecksumSHA256Base64 :: string

record PresignGetOptions =
  go_ExpiresIn :: int
  go_ResponseContentType :: string
  go_ResponseContentDisposition :: string

definition opt_text :: "string \<Rightarrow> string option" where
  "opt_text s = (if s = [] then None else Some s)"

definition PresignPutObject :: "s3_env \<Rightarrow> S3Client \<Rightarrow> string \<Rightarrow> PresignPutOptions \<Rightarrow> PresignedRequest res" where
  "PresignPutObject env c tokenRef opts =
     (if s3c_resolver c \<noteq> None then Inl ErrSigningUnsupported
      else case sdk_presign_put (sdk_signer (se_sdk env)) (s3c_cfg c)
                  \<lparr>pi_Bucket = s3_Bucket (s3c_cfg c), pi_Key = s3_Prefix (s3c_cfg c) @ tokenRef, pi_Body = None, pi_ContentLength = None,
                   pi_ContentType = defaultContentType (po_ContentType opts), pi_IfNoneMatch = None,
                   pi_ChecksumSHA256 = opt_text (po_ChecksumSHA256Base64 opts), pi_Metadata = []\<rparr> (po_ExpiresIn opts) of
             Inl e \<Rightarrow> Inl (Wrapf ''s3store: presign put %q: %w'' [ArgS tokenRef] e)
           | Inr req \<Rightarrow> Inr \<lparr>pq_Method = ''PUT'', pq_URL = ps_URL req, pq_Headers = signedHeaders (ps_SignedHeader req),
                             pq_ExpiresAt = se_now env + po_ExpiresIn opts\<rparr>)"

definition PresignGetObject :: "s3_env \<Rightarrow> S3Client \<Rightarrow> string \<Rightarrow> PresignGetOptions \<Rightarrow> ReadLink res" where
  "PresignGetObject env c tokenRef opts =
     (if s3c_resolver c \<noteq> None then Inl ErrSigningUnsupported
      else case sdk_presign_get (sdk_signer (se_sdk env)) (s3c_cfg c)
                  \<lparr>gi_Bucket = s3_Bucket (s3c_cfg c), gi_Key = s3_Prefix (s3c_cfg c) @ tokenRef, gi_VersionId = None,
                   gi_ResponseContentType = opt_text (go_ResponseContentType opts),
                   gi_ResponseContentDisposition = opt_text (go_ResponseContentDisposition opts)\<rparr> (go_ExpiresIn opts) of
             Inl e \<Rightarrow> Inl (Wrapf ''s3store: presign get %q: %w'' [ArgS tokenRef] e)
           | Inr req \<Rightarrow> Inr \<lparr>rl_URL = ps_URL req, rl_Headers = signedHeaders (ps_SignedHeader req),
                             rl_ExpiresAt = se_now env + go_ExpiresIn opts\<rparr>)"

section \<open>Uploads (\<open>stream.go\<close>)\<close>

definition MaxStreamObjectBytes :: int where
  "MaxStreamObjectBytes = 67108864"

definition ErrObjectExists :: go_error where
  "ErrObjectExists = New ''s3store: conditional object already exists''"

text \<open>A seekable body: what seeking to its end and to its start gives, and its bytes.\<close>

record seeker =
  sk_end :: "int res"
  sk_start :: "int res"
  sk_bytes :: string

definition stream_errors :: iam_errors where
  "stream_errors = \<lparr>er_auth = id, er_build = id, er_http = id\<rparr>"

definition upload_sdk :: "s3_env \<Rightarrow> S3Client \<Rightarrow> ObjectRef \<Rightarrow> string \<Rightarrow> bool \<Rightarrow> ObjectRef s3_out" where
  "upload_sdk env c ref bytes ifAbsent =
     (let input = (put_input c (or_Key ref) bytes (or_ContentType ref))
                    \<lparr>pi_ContentLength := Some (or_Size ref), pi_IfNoneMatch := (if ifAbsent then Some ''*'' else None)\<rparr>
      in (case sdk_put (se_sdk env) input of
            Inl (e, status) \<Rightarrow> Inl (if ifAbsent \<and> status = Some 412 then ErrObjectExists else e)
          | Inr (version, etag) \<Rightarrow> Inr (ref\<lparr>or_VersionID := to_text version, or_ETag := to_text etag\<rparr>), c, []))"

definition upload_iam :: "s3_env \<Rightarrow> S3Client \<Rightarrow> IAMTokenResolver \<Rightarrow> ObjectRef \<Rightarrow> string \<Rightarrow> bool \<Rightarrow> ObjectRef s3_out" where
  "upload_iam env c r ref bytes ifAbsent =
     then_out
       (iam_send env UseLastResponse stream_errors c r ''PUT'' (objectURL c (or_Key ref)) (Some (take (nat (or_Size ref)) bytes))
          (\<lambda>req. let h = (if ifAbsent then Header_Set ''If-None-Match'' ''*'' (hq_Header req) else hq_Header req)
                 in req\<lparr>hq_Header := Header_Set ''Content-Type'' (or_ContentType ref) h, hq_GetBody := None\<rparr>))
       (\<lambda>resp.
          if ifAbsent \<and> hr_Status resp = 412 then Inl ErrObjectExists
          else if hr_Status resp \<noteq> 200 \<and> hr_Status resp \<noteq> 201
          then Inl (Errorf ''s3store: stream upload HTTP %d'' [ArgD (hr_Status resp)])
          else Inr (ref\<lparr>or_VersionID := Header_Get (hr_Header resp) ''x-amz-version-id'',
                        or_ETag := Header_Get (hr_Header resp) ''ETag''\<rparr>))"

definition putStream :: "s3_env \<Rightarrow> S3Client \<Rightarrow> string \<Rightarrow> seeker option \<Rightarrow> int \<Rightarrow> string \<Rightarrow> bool \<Rightarrow> ObjectRef s3_out" where
  "putStream env c key0 body0 len contentType ifAbsent =
     (case body0 of
        None \<Rightarrow> (Inl (New ''s3store: invalid stream size/body''), c, [])
      | Some body \<Rightarrow>
          if len < 1 \<or> len > MaxStreamObjectBytes then (Inl (New ''s3store: invalid stream size/body''), c, [])
          else case JoinObjectKey (s3_Prefix (s3c_cfg c)) key0 of
            Inl e \<Rightarrow> (Inl e, c, [])
          | Inr key \<Rightarrow>
              (case sk_end body of
                 Inl e \<Rightarrow> (Inl e, c, [])
               | Inr actual \<Rightarrow>
                   if actual \<noteq> len then (Inl (New ''s3store: stream length mismatch''), c, [])
                   else case sk_start body of
                     Inl e \<Rightarrow> (Inl e, c, [])
                   | Inr _ \<Rightarrow>
                       (let ref = empty_ref\<lparr>or_Bucket := s3_Bucket (s3c_cfg c), or_Key := key, or_Size := len,
                                            or_ContentType := default_str ''application/octet-stream'' contentType\<rparr>
                        in with_resolver c (\<lambda>r. upload_iam env c r ref (sk_bytes body) ifAbsent)
                             (upload_sdk env c ref (sk_bytes body) ifAbsent))))"

definition PutStream :: "s3_env \<Rightarrow> S3Client \<Rightarrow> string \<Rightarrow> seeker option \<Rightarrow> int \<Rightarrow> string \<Rightarrow> ObjectRef s3_out" where
  "PutStream env c key body len contentType = putStream env c key body len contentType False"

definition PutStreamIfAbsent :: "s3_env \<Rightarrow> S3Client \<Rightarrow> string \<Rightarrow> seeker option \<Rightarrow> int \<Rightarrow> string \<Rightarrow> ObjectRef s3_out" where
  "PutStreamIfAbsent env c key body len contentType = putStream env c key body len contentType True"

definition StatStreamObject :: "s3_env \<Rightarrow> S3Client \<Rightarrow> string \<Rightarrow> ObjectRef s3_out" where
  "StatStreamObject env c key0 =
     (case JoinObjectKey (s3_Prefix (s3c_cfg c)) key0 of
        Inl e \<Rightarrow> (Inl e, c, [])
      | Inr key \<Rightarrow> stat_current env c key key)"

section \<open>Downloads (\<open>stream.go\<close>)\<close>

definition EOF :: go_error where
  "EOF = New ''EOF''"

text \<open>
  A reader is a state and a read operation: asked for at most so many bytes it returns
  bytes, an error or none, and the next state.
\<close>

type_synonym 'r reader = "'r \<Rightarrow> nat \<Rightarrow> string \<times> err \<times> 'r"

record 'r boundedObjectReader =
  br_reader :: 'r
  br_remaining :: int

definition bounded_Read :: "'r reader \<Rightarrow> 'r boundedObjectReader reader" where
  "bounded_Read read b n =
     (if n = 0 then ([], None, b)
      else if br_remaining b = 0 then
        (case read (br_reader b) 1 of
           (d, e, r') \<Rightarrow>
             if d \<noteq> [] then ([], Some (New ''s3store: download exceeds byte budget''), b\<lparr>br_reader := r'\<rparr>)
             else ([], e, b\<lparr>br_reader := r'\<rparr>))
      else
        (case read (br_reader b) (if int n > br_remaining b then nat (br_remaining b) else n) of
           (d, e, r') \<Rightarrow> (d, e, b\<lparr>br_reader := r', br_remaining := br_remaining b - int (length d)\<rparr>)))"

text \<open>A response body that holds these bytes and then ends, or fails.\<close>

record body_state =
  bs_rest :: string
  bs_fail :: err

definition body_of :: "string res \<Rightarrow> body_state" where
  "body_of b = (case b of Inr s \<Rightarrow> \<lparr>bs_rest = s, bs_fail = None\<rparr> | Inl e \<Rightarrow> \<lparr>bs_rest = [], bs_fail = Some e\<rparr>)"

definition body_Read :: "body_state reader" where
  "body_Read b n =
     (if bs_rest b = [] then ([], Some (case bs_fail b of None \<Rightarrow> EOF | Some e \<Rightarrow> e), b)
      else (take n (bs_rest b), None, b\<lparr>bs_rest := drop n (bs_rest b)\<rparr>))"

text \<open>\<open>url.QueryUnescape\<close>, \<open>url.ParseQuery\<close> without its error, and setting one value of a query.\<close>

fun QueryUnescape :: "string \<Rightarrow> string option" where
  "QueryUnescape [] = Some []"
| "QueryUnescape (c # s) =
     (if c = CHR ''%'' then
        (case s of
           x # y # t \<Rightarrow> if is_hex x \<and> is_hex y then map_option ((#) (char_of (16 * unhex x + unhex y))) (QueryUnescape t) else None
         | _ \<Rightarrow> None)
      else map_option ((#) (if c = CHR ''+'' then CHR '' '' else c)) (QueryUnescape s))"

definition query_pair :: "string \<Rightarrow> (string \<times> string) option" where
  "query_pair part =
     (if part = [] \<or> CHR '';'' \<in> set part then None
      else let (k, v) = (case cut (CHR ''='') part of None \<Rightarrow> (part, []) | Some kv \<Rightarrow> kv)
           in case (QueryUnescape k, QueryUnescape v) of
                (Some k', Some v') \<Rightarrow> Some (k', v')
              | _ \<Rightarrow> None)"

definition Query_Set :: "string \<Rightarrow> string \<Rightarrow> string \<Rightarrow> string" where
  "Query_Set q k v =
     Values_Encode (sort_key fst (filter (\<lambda>kv. fst kv \<noteq> k) (List.map_filter query_pair (split_on (CHR ''&'') q)) @ [(k, v)]))"

definition openVersionIAM :: "s3_env \<Rightarrow> S3Client \<Rightarrow> IAMTokenResolver \<Rightarrow> string \<Rightarrow> string \<Rightarrow> (string res \<times> int \<times> string) s3_out" where
  "openVersionIAM env c r key version =
     (let u = res_bind (objectURL c key)
                (\<lambda>s. case url_Parse s of
                       None \<Rightarrow> Inl (Errorf ''parse %q'' [ArgS s])
                     | Some v \<Rightarrow> Inr (url_String (v\<lparr>RawQuery := Query_Set (RawQuery v) ''versionId'' version\<rparr>)))
      in then_out
           (iam_send env UseLastResponse stream_errors c r ''GET'' u None id)
           (\<lambda>resp.
              if hr_Status resp \<noteq> 200 then Inl (Errorf ''s3store: pinned download HTTP %d'' [ArgD (hr_Status resp)])
              else Inr (hr_Body resp, se_length env resp, Header_Get (hr_Header resp) ''x-amz-version-id'')))"

definition OpenVersion :: "s3_env \<Rightarrow> S3Client \<Rightarrow> string \<Rightarrow> string \<Rightarrow> int \<Rightarrow> body_state boundedObjectReader s3_out" where
  "OpenVersion env c key0 version maxBytes =
     (if version = [] \<or> version = ''null'' \<or> maxBytes < 1 \<or> maxBytes > MaxStreamObjectBytes
      then (Inl (New ''s3store: pinned version and bounded size required''), c, [])
      else case JoinObjectKey (s3_Prefix (s3c_cfg c)) key0 of
        Inl e \<Rightarrow> (Inl e, c, [])
      | Inr key \<Rightarrow>
          then_out
            (with_resolver c (\<lambda>r. openVersionIAM env c r key version)
               (case sdk_get (se_sdk env) \<lparr>gi_Bucket = s3_Bucket (s3c_cfg c), gi_Key = key, gi_VersionId = Some version,
                                           gi_ResponseContentType = None, gi_ResponseContentDisposition = None\<rparr> of
                  Inl (e, _) \<Rightarrow> Inl e
                | Inr resp \<Rightarrow> Inr (so_Body resp, case so_ContentLength resp of None \<Rightarrow> -1 | Some n \<Rightarrow> n, to_text (so_VersionId resp)), c, []))
            (\<lambda>(body, len, received).
               if received \<noteq> version \<or> len > maxBytes then Inl (New ''s3store: version mismatch or oversized download'')
               else Inr \<lparr>br_reader = body_of body, br_remaining = maxBytes\<rparr>))"

section \<open>Where a stream goes\<close>

text \<open>Streams and their metadata use validated keys and a client that does not follow redirects.\<close>

lemma putStream_sent:
  assumes "(m, req) \<in> set (snd (snd (putStream env c key body len ct ifAbsent)))"
  shows "m = UseLastResponse \<and> (\<exists>k. JoinObjectKey (s3_Prefix (s3c_cfg c)) key = Inr k \<and> objectURL c k = Inr (hq_URL req))"
  using assms
  by (auto simp: putStream_def with_resolver_def upload_iam_def upload_sdk_def Let_def
      dest!: iam_send_sent split: option.splits sum.splits if_splits)

lemma StatStreamObject_sent:
  assumes "(m, req) \<in> set (snd (snd (StatStreamObject env c key)))"
  shows "m = UseLastResponse \<and> (\<exists>k. JoinObjectKey (s3_Prefix (s3c_cfg c)) key = Inr k \<and> objectURL c k = Inr (hq_URL req))"
  using assms
  by (auto simp: StatStreamObject_def stat_current_def with_resolver_def statObjectIAM_def statObjectSDK_def
      dest!: iam_send_sent split: option.splits sum.splits)


definition demo_iam_client :: S3Client where
  "demo_iam_client = demo_s3_client\<lparr>s3c_resolver := Some \<lparr>ir_authToken = ''tok'', ir_expiry = 0, ir_authMode = ''iam_token'', ir_oauthToken = [],
     ir_metadataURL = [], ir_saID = [], ir_saAccountID = [], ir_saPrivKey = None\<rparr>\<rparr>"

definition demo_endpoint :: url where
  "demo_endpoint = empty_url\<lparr>Scheme := ''https'', Host := ''storage.test''\<rparr>"

definition seen :: "sent \<Rightarrow> (redirects \<times> string \<times> string) list" where
  "seen s = map (\<lambda>(m, q). (m, hq_URL q, Header_Get (hq_Header q) ''X-YaCloud-SubjectToken'')) s"

lemma seen_sent: "seen s \<noteq> [] \<Longrightarrow> \<exists>m q. (m, q) \<in> set s"
  by (cases s) (auto simp: seen_def)

lemma demo_plain_endpoint: "plain_endpoint demo_iam_client demo_endpoint []"
  by code_simp

lemma demo_stat_sent: "seen (snd (snd (StatStreamObject demo_s3_env demo_iam_client ''a b''))) =
    [(UseLastResponse, ''https://storage.test/mine/tokens/a%20b'', ''tok'')]"
  by code_simp


text \<open>
  The older operations join prefix and name without looking at them, and follow
  redirects: a name with dot elements reaches another bucket, and a redirect takes the
  subject token along.
\<close>

lemma escaping_request:
  "seen (snd (snd (iam_send demo_s3_env FollowRedirects er demo_iam_client (the (s3c_resolver demo_iam_client)) method
       (objectURL demo_iam_client ''tokens/../../other/secret'') body id))) =
     [(FollowRedirects, ''https://storage.test/other/secret'', ''tok'')]"
  by code_simp

lemma GetObject_leaves_bucket:
  "seen (snd (snd (GetObject demo_s3_env demo_iam_client ''../../other/secret''))) =
     [(FollowRedirects, ''https://storage.test/other/secret'', ''tok'')]"
  "seen (snd (snd (DeleteObject demo_s3_env demo_iam_client ''../../other/secret''))) =
     [(FollowRedirects, ''https://storage.test/other/secret'', ''tok'')]"
proof -
  have c: "s3_Prefix (s3c_cfg demo_iam_client) @ ''../../other/secret'' = ''tokens/../../other/secret''"
    "s3c_resolver demo_iam_client = Some (the (s3c_resolver demo_iam_client))"
    by (simp_all add: demo_iam_client_def demo_s3_client_def)
  show "seen (snd (snd (GetObject demo_s3_env demo_iam_client ''../../other/secret''))) =
      [(FollowRedirects, ''https://storage.test/other/secret'', ''tok'')]"
    unfolding GetObject_def get_current_def with_resolver_def getObjectIAM_def c(1)
    by (subst c(2)) (simp only: option.case then_out_sent escaping_request)
  show "seen (snd (snd (DeleteObject demo_s3_env demo_iam_client ''../../other/secret''))) =
      [(FollowRedirects, ''https://storage.test/other/secret'', ''tok'')]"
    unfolding DeleteObject_def with_resolver_def deleteObjectIAM_def Let_def c(1)
    by (subst c(2)) (simp only: option.case then_out_sent escaping_request)
qed

section \<open>The bounded reader\<close>

text \<open>
  What a reader promises: it returns at most what it was asked for, the bytes it
  returns are the next ones of its contents, and it reports the end only at the end.
\<close>

locale reader_contract =
  fixes read :: "'r reader" and content :: "'r \<Rightarrow> string"
  assumes read_next: "read r n = (d, e, r') \<Longrightarrow> length d \<le> n \<and> content r = d @ content r'"
    and read_end: "read r n = (d, Some EOF, r') \<Longrightarrow> content r' = []"
begin

lemma bounded_next:
  assumes "bounded_Read read b n = (d, e, b')" "0 \<le> br_remaining b"
  shows "length d \<le> n \<and> 0 \<le> br_remaining b' \<and> br_remaining b' + int (length d) = br_remaining b \<and>
    (\<exists>rest. content (br_reader b) = d @ rest \<and> (e = None \<or> e = Some EOF \<longrightarrow> rest = content (br_reader b')))"
proof (cases "n = 0 \<or> br_remaining b = 0")
  case True
  obtain d0 e0 r0 where r: "read (br_reader b) 1 = (d0, e0, r0)" by (cases "read (br_reader b) 1")
  show ?thesis using assms True r read_next [OF r]
    by (auto simp: bounded_Read_def EOF_def split: if_splits)
next
  case False
  let ?k = "if int n > br_remaining b then nat (br_remaining b) else n"
  obtain d0 e0 r0 where r: "read (br_reader b) ?k = (d0, e0, r0)" by (cases "read (br_reader b) ?k")
  then have "d = d0" "b' = b\<lparr>br_reader := r0, br_remaining := br_remaining b - int (length d0)\<rparr>"
    using assms(1) False by (auto simp: bounded_Read_def)
  then show ?thesis using read_next [OF r] assms(2) by (auto split: if_splits)
qed

lemma bounded_end:
  assumes "bounded_Read read b n = (d, Some EOF, b')"
  shows "content (br_reader b') = []"
  using assms read_end by (auto simp: bounded_Read_def EOF_def split: if_splits prod.splits)

end

text \<open>A sequence of reads with buffers of these sizes, up to the first error.\<close>

fun read_run :: "'r reader \<Rightarrow> 'r \<Rightarrow> nat list \<Rightarrow> string \<times> err \<times> 'r" where
  "read_run read r [] = ([], None, r)"
| "read_run read r (n # ns) =
     (case read r n of
        (d, Some e, r') \<Rightarrow> (d, Some e, r')
      | (d, None, r') \<Rightarrow> (case read_run read r' ns of (ds, e, r'') \<Rightarrow> (d @ ds, e, r'')))"

context reader_contract
begin

lemma bounded_run:
  assumes "read_run (bounded_Read read) b ns = (data, e, b')" "0 \<le> br_remaining b"
  shows "int (length data) \<le> br_remaining b \<and> (\<exists>rest. content (br_reader b) = data @ rest) \<and>
    (e = Some EOF \<longrightarrow> content (br_reader b) = data)"
  using assms
proof (induction ns arbitrary: b data)
  case (Cons n ns)
  obtain d e1 b1 where s: "bounded_Read read b n = (d, e1, b1)" by (cases "bounded_Read read b n")
  note nx = bounded_next [OF s Cons.prems(2)]
  show ?case
  proof (cases e1)
    case (Some x)
    then have "data = d" "e = Some x" using Cons.prems(1) s by auto
    then show ?thesis using nx s Some bounded_end [of b n d b1] by auto
  next
    case None
    obtain ds where ds: "read_run (bounded_Read read) b1 ns = (ds, e, b')" "data = d @ ds"
      using Cons.prems(1) s None by (auto split: prod.splits)
    have "content (br_reader b) = d @ content (br_reader b1)" using nx None by auto
    then show ?thesis using Cons.IH [OF ds(1)] nx ds(2) by auto
  qed
qed auto

end

interpretation body: reader_contract body_Read bs_rest
  by unfold_locales (auto simp: body_Read_def split: if_splits)

text \<open>
  C15: A version that was opened is read within its budget: over any sequence of reads the
  bytes delivered are the beginning of the body, no more than the caller allowed (at most
  64 MiB), and the end is reported only when all of the body was delivered. A longer body
  ends in an error, never as a truncated success.
\<close>

theorem OpenVersion_budget:
  assumes "OpenVersion env c key version maxBytes = (Inr b, c', s)"
    and "read_run (bounded_Read body_Read) b ns = (data, e, b')"
  shows "int (length data) \<le> maxBytes \<and> maxBytes \<le> 67108864 \<and> (\<exists>rest. bs_rest (br_reader b) = data @ rest) \<and>
    (e = Some EOF \<longrightarrow> data = bs_rest (br_reader b))"
proof -
  have "br_remaining b = maxBytes" "1 \<le> maxBytes" "maxBytes \<le> MaxStreamObjectBytes"
    using assms(1) by (auto simp: OpenVersion_def then_out_def split: if_splits sum.splits prod.splits elim!: res_bind.elims)
  then show ?thesis using body.bounded_run [OF assms(2)] by (auto simp: MaxStreamObjectBytes_def)
qed

definition demo_version_env :: s3_env where
  "demo_version_env = demo_s3_env\<lparr>se_sdk := (se_sdk demo_s3_env)\<lparr>sdk_get := \<lambda>i. Inr ((demo_object ''abcdef'')\<lparr>so_VersionId := gi_VersionId i\<rparr>)\<rparr>\<rparr>"

lemma demo_opened: "OpenVersion demo_version_env demo_s3_client ''k'' ''v1'' 4 =
    (Inr \<lparr>br_reader = \<lparr>bs_rest = ''abcdef'', bs_fail = None\<rparr>, br_remaining = 4\<rparr>, demo_s3_client, [])"
proof -
  have "JoinObjectKey (s3_Prefix (s3c_cfg demo_s3_client)) ''k'' = Inr ''tokens/k''" by code_simp
  then show ?thesis
    by (simp add: OpenVersion_def MaxStreamObjectBytes_def with_resolver_def demo_s3_client_def demo_version_env_def demo_s3_env_def
        demo_object_def then_out_def to_text_def body_of_def)
qed

lemma demo_reads: "read_run (bounded_Read body_Read) \<lparr>br_reader = \<lparr>bs_rest = ''abcdef'', bs_fail = None\<rparr>, br_remaining = 4\<rparr> [3, 3, 3] =
    (''abcd'', Some (New ''s3store: download exceeds byte budget''), \<lparr>br_reader = \<lparr>bs_rest = ''f'', bs_fail = None\<rparr>, br_remaining = 0\<rparr>)"
  by (simp add: bounded_Read_def body_Read_def)

theorem OpenVersion_budget_witness:
  "int (length ''abcd'') \<le> 4 \<and> (\<exists>rest. ''abcdef'' = ''abcd'' @ rest) \<and>
   fst (snd (read_run (bounded_Read body_Read) \<lparr>br_reader = \<lparr>bs_rest = ''abcdef'', bs_fail = None\<rparr>, br_remaining = 4\<rparr> [3, 3, 3])) \<noteq> Some EOF"
  using OpenVersion_budget [OF demo_opened demo_reads] unfolding demo_reads by (simp add: EOF_def)

end
