(* ===== verification/Spec2Isabelle.thy ===== *)
theory Spec2Isabelle
  imports AuthnConfig AuthzConfigs ConfigWatch ReadCache MintRuns AuditHTTP GrpcJwt OutboxRuns Ingest S3Format S3Stream
begin

text \<open>skeleton\<close>

end
